(* ===== verification/Prelude.thy ===== *)
theory Prelude
  imports Main "HOL-Library.Word"
begin

text \<open>
  Shared vocabulary of the development: the widths of the integers the crate uses, the
  result of a Rust computation as a value, and the generic facts about lists that several
  components need.

  \<^item> \<open>usize\<close> is 64 bits wide (a 64-bit target). Unchecked \<open>+\<close> and \<open>*\<close> wrap around, as they
    do in the \<open>cargo build --release\<close> profile the README builds (the manifest sets no
    \<open>overflow-checks\<close>).
  \<^item> A Rust \<open>String\<close> is its list of UTF-8 bytes: the HOL type \<open>string\<close>, whose
    characters are bytes.
  \<^item> A computation ends in \<open>Ok\<close>, in an error value \<open>Err\<close>, in a \<open>Panic\<close>, or in
    undefined behaviour \<open>UB\<close> (an \<open>unsafe\<close> slice that leaves its allocation).
\<close>

type_synonym u8 = "8 word"
type_synonym u16 = "16 word"
type_synonym u32 = "32 word"
type_synonym u64 = "64 word"
type_synonym usize = "64 word"
type_synonym c_int = "32 word"

named_theorems handler_simps \<open>unfolding of the handlers and their result plumbing\<close>

section \<open>Outcomes\<close>

datatype ('a, 'e) outcome = Ok 'a | Err 'e | Panic | UB

text \<open>The question mark operator: go on after \<open>Ok\<close>, stop at anything else.\<close>

fun and_then :: "('a, 'e) outcome \<Rightarrow> ('a \<Rightarrow> ('b, 'e) outcome) \<Rightarrow> ('b, 'e) outcome" where
  "and_then (Ok x) f = f x"
| "and_then (Err e) f = Err e"
| "and_then Panic f = Panic"
| "and_then UB f = UB"

fun map_err :: "('e \<Rightarrow> 'f) \<Rightarrow> ('a, 'e) outcome \<Rightarrow> ('a, 'f) outcome" where
  "map_err g (Ok x) = Ok x"
| "map_err g (Err e) = Err (g e)"
| "map_err g Panic = Panic"
| "map_err g UB = UB"

fun is_ok :: "('a, 'e) outcome \<Rightarrow> bool" where
  "is_ok (Ok x) \<longleftrightarrow> True"
| "is_ok (Err e) \<longleftrightarrow> False"
| "is_ok Panic \<longleftrightarrow> False"
| "is_ok UB \<longleftrightarrow> False"

text \<open>An outcome that is a Rust \<open>Result\<close>: neither a panic nor undefined behaviour.\<close>

fun returns :: "('a, 'e) outcome \<Rightarrow> bool" where
  "returns (Ok x) \<longleftrightarrow> True"
| "returns (Err e) \<longleftrightarrow> True"
| "returns Panic \<longleftrightarrow> False"
| "returns UB \<longleftrightarrow> False"

lemma and_then_eq_Ok_iff [simp]:
  "and_then m f = Ok y \<longleftrightarrow> (\<exists>x. m = Ok x \<and> f x = Ok y)"
  by (cases m) auto

lemma map_err_eq_Ok_iff [simp]: "map_err g m = Ok y \<longleftrightarrow> m = Ok y"
  by (cases m) auto

lemma and_then_cong [fundef_cong]:
  "\<lbrakk>m = m'; \<And>x. m' = Ok x \<Longrightarrow> f x = f' x\<rbrakk> \<Longrightarrow> and_then m f = and_then m' f'"
  by (cases m') auto

lemma and_then_assoc: "and_then (and_then m f) g = and_then m (\<lambda>x. and_then (f x) g)"
  by (cases m) auto

lemma and_then_Ok_right [simp]: "and_then m Ok = m"
  by (cases m) auto

lemma is_ok_iff: "is_ok m \<longleftrightarrow> (\<exists>x. m = Ok x)"
  by (cases m) auto

lemma is_ok_and_then: "is_ok (and_then m f) \<longleftrightarrow> (\<exists>x. m = Ok x \<and> is_ok (f x))"
  by (cases m) auto

lemma is_ok_map_err [simp]: "is_ok (map_err g m) = is_ok m"
  by (cases m) auto

lemma returns_map_err [simp]: "returns (map_err g m) = returns m"
  by (cases m) auto

lemma returns_and_then:
  "returns (and_then m f) \<longleftrightarrow> returns m \<and> (\<forall>x. m = Ok x \<longrightarrow> returns (f x))"
  by (cases m) auto

lemma is_ok_returns: "is_ok m \<Longrightarrow> returns m"
  by (cases m) auto

section \<open>Slices and casts\<close>

text \<open>\<open>&v[a..b]\<close>: a panic when the range is not inside the slice.\<close>

definition slice :: "'a list \<Rightarrow> nat \<Rightarrow> nat \<Rightarrow> ('a list, 'e) outcome" where
  "slice xs a b = (if a \<le> b \<and> b \<le> length xs then Ok (take (b - a) (drop a xs)) else Panic)"

text \<open>\<open>slice::from_raw_parts(p, n)\<close> on an allocation that holds \<open>xs\<close>.\<close>

definition from_raw_parts :: "'a list \<Rightarrow> nat \<Rightarrow> ('a list, 'e) outcome" where
  "from_raw_parts xs n = (if n \<le> length xs then Ok (take n xs) else UB)"

text \<open>
  \<open>Vec<f32>\<close> with room for \<open>n\<close> elements: a capacity overflow panics when the bytes exceed
  \<open>isize::MAX\<close>. Running out of memory is not modelled.
\<close>

definition alloc_f32 :: "nat \<Rightarrow> (unit, 'e) outcome" where
  "alloc_f32 n = (if 4 * n < 2 ^ 63 then Ok () else Panic)"

definition len32 :: "'a list \<Rightarrow> u32" where
  "len32 xs = word_of_nat (length xs)"

definition usize_of_u32 :: "u32 \<Rightarrow> usize" where
  "usize_of_u32 x = ucast x"

lemma unat_u32_lt: "unat (x :: u32) < 2 ^ 32"
  using unsigned_less [of x] by simp

lemma unat_u64_lt: "unat (x :: u64) < 2 ^ 64"
  using unsigned_less [of x] by simp

lemma unat_usize_of_u32 [simp]: "unat (usize_of_u32 x) = unat x"
  using unat_u32_lt [of x] by (simp add: usize_of_u32_def unsigned_ucast_eq take_bit_eq_mod)

lemma unat_len32: "length xs < 2 ^ 32 \<Longrightarrow> unat (len32 xs) = length xs"
  by (simp add: len32_def unat_of_nat take_bit_eq_mod)

text \<open>The product of two 32-bit dimensions never wraps in 64 bits.\<close>

lemma unat_mult_u32:
  "unat (usize_of_u32 a * usize_of_u32 b) = unat a * unat b"
proof -
  have "unat a * unat b < 2 ^ 32 * 2 ^ 32"
    by (rule mult_strict_mono) (use unat_u32_lt [of a] unat_u32_lt [of b] in auto)
  then have "unat a * unat b < 2 ^ 64" by simp
  then show ?thesis by (simp add: unat_word_ariths)
qed

section \<open>Lists\<close>

text \<open>A buffer of known size filled index by index holds the source list.\<close>

fun fill :: "nat \<Rightarrow> 'a list \<Rightarrow> 'a list \<Rightarrow> ('a list, 'e) outcome" where
  "fill i [] buf = Ok buf"
| "fill i (x # xs) buf = (if i < length buf then fill (Suc i) xs (buf[i := x]) else Panic)"

lemma fill_prefix:
  "length pre = i \<Longrightarrow> length rest = length xs \<Longrightarrow> fill i xs (pre @ rest) = Ok (pre @ xs)"
proof (induction xs arbitrary: i pre rest)
  case Nil
  then show ?case by simp
next
  case (Cons x xs)
  then obtain r rs where rest: "rest = r # rs" "length rs = length xs"
    by (cases rest) auto
  show ?case
    using Cons.IH [of "pre @ [x]" "Suc i" rs] Cons.prems rest by (simp add: list_update_append)
qed

lemma fill_all: "length buf = length xs \<Longrightarrow> fill 0 xs buf = Ok xs"
  using fill_prefix [of "[]" 0 buf xs] by simp

end
