(* ===== verification/Text.thy ===== *)
theory Text
  imports Prelude
begin

text \<open>
  The text facilities of the standard library that the crate calls: decimal display of
  unsigned integers, UTF-8 validation (\<open>str::from_utf8\<close>, behind \<open>to_str\<close> of a
  Cap'n Proto text), \<open>str::lines\<close> and the test \<open>trim().is_empty()\<close>. A string is
  its list of bytes.
\<close>

section \<open>Decimal display\<close>

fun show_digits :: "nat \<Rightarrow> string" where
  "show_digits n =
     (if n < 10 then [char_of (48 + n)] else show_digits (n div 10) @ [char_of (48 + n mod 10)])"

declare show_digits.simps [simp del]

definition show_u32 :: "u32 \<Rightarrow> string" where
  "show_u32 x = show_digits (unat x)"

text \<open>A signed 32-bit integer prints with its sign.\<close>

definition show_i32 :: "c_int \<Rightarrow> string" where
  "show_i32 x =
     (if sint x < 0 then ''-'' @ show_digits (nat (- sint x)) else show_digits (nat (sint x)))"

section \<open>UTF-8\<close>

definition bytes_of :: "string \<Rightarrow> nat list" where
  "bytes_of s = map of_char s"

definition is_cont :: "nat \<Rightarrow> bool" where
  "is_cont b \<longleftrightarrow> 0x80 \<le> b \<and> b \<le> 0xBF"

text \<open>The second bytes allowed after the first byte of a three or four byte sequence.\<close>

definition second3 :: "nat \<Rightarrow> nat \<Rightarrow> bool" where
  "second3 b0 b1 \<longleftrightarrow>
     (b0 = 0xE0 \<and> 0xA0 \<le> b1 \<and> b1 \<le> 0xBF) \<or>
     (0xE1 \<le> b0 \<and> b0 \<le> 0xEC \<and> is_cont b1) \<or>
     (b0 = 0xED \<and> 0x80 \<le> b1 \<and> b1 \<le> 0x9F) \<or>
     (0xEE \<le> b0 \<and> b0 \<le> 0xEF \<and> is_cont b1)"

definition second4 :: "nat \<Rightarrow> nat \<Rightarrow> bool" where
  "second4 b0 b1 \<longleftrightarrow>
     (b0 = 0xF0 \<and> 0x90 \<le> b1 \<and> b1 \<le> 0xBF) \<or>
     (0xF1 \<le> b0 \<and> b0 \<le> 0xF3 \<and> is_cont b1) \<or>
     (b0 = 0xF4 \<and> 0x80 \<le> b1 \<and> b1 \<le> 0x8F)"

text \<open>
  \<open>Utf8Error\<close>: where the valid prefix ends, and the length of the invalid sequence
  (\<open>None\<close> when the input stops in the middle of a character).
\<close>

datatype utf8_error = Utf8Error nat "nat option"

fun utf8_check :: "nat \<Rightarrow> nat list \<Rightarrow> utf8_error option" where
  "utf8_check i [] = None"
| "utf8_check i (b0 # bs) =
     (if b0 < 0x80 then utf8_check (i + 1) bs
      else if 0xC2 \<le> b0 \<and> b0 \<le> 0xDF then
        (case bs of
           [] \<Rightarrow> Some (Utf8Error i None)
         | b1 # bs1 \<Rightarrow>
             if is_cont b1 then utf8_check (i + 2) bs1 else Some (Utf8Error i (Some 1)))
      else if 0xE0 \<le> b0 \<and> b0 \<le> 0xEF then
        (case bs of
           [] \<Rightarrow> Some (Utf8Error i None)
         | b1 # bs1 \<Rightarrow>
             if \<not> second3 b0 b1 then Some (Utf8Error i (Some 1))
             else (case bs1 of
               [] \<Rightarrow> Some (Utf8Error i None)
             | b2 # bs2 \<Rightarrow>
                 if is_cont b2 then utf8_check (i + 3) bs2 else Some (Utf8Error i (Some 2))))
      else if 0xF0 \<le> b0 \<and> b0 \<le> 0xF4 then
        (case bs of
           [] \<Rightarrow> Some (Utf8Error i None)
         | b1 # bs1 \<Rightarrow>
             if \<not> second4 b0 b1 then Some (Utf8Error i (Some 1))
             else (case bs1 of
               [] \<Rightarrow> Some (Utf8Error i None)
             | b2 # bs2 \<Rightarrow>
                 if \<not> is_cont b2 then Some (Utf8Error i (Some 2))
                 else (case bs2 of
                   [] \<Rightarrow> Some (Utf8Error i None)
                 | b3 # bs3 \<Rightarrow>
                     if is_cont b3 then utf8_check (i + 4) bs3
                     else Some (Utf8Error i (Some 3)))))
      else Some (Utf8Error i (Some 1)))"

definition utf8 :: "string \<Rightarrow> bool" where
  "utf8 s \<longleftrightarrow> utf8_check 0 (bytes_of s) = None"

fun show_utf8_error :: "utf8_error \<Rightarrow> string" where
  "show_utf8_error (Utf8Error i (Some n)) =
     ''invalid utf-8 sequence of '' @ show_digits n @ '' bytes from index '' @ show_digits i"
| "show_utf8_error (Utf8Error i None) =
     ''incomplete utf-8 byte sequence from index '' @ show_digits i"

definition to_str :: "string \<Rightarrow> (string, utf8_error) outcome" where
  "to_str s = (case utf8_check 0 (bytes_of s) of None \<Rightarrow> Ok s | Some e \<Rightarrow> Err e)"

lemma to_str_utf8 [simp]: "utf8 s \<Longrightarrow> to_str s = Ok s"
  by (simp add: to_str_def utf8_def)

lemma to_str_Ok_iff [simp]: "to_str s = Ok t \<longleftrightarrow> utf8 s \<and> t = s"
  by (auto simp: to_str_def utf8_def split: option.splits)

lemma to_str_returns [simp]: "returns (to_str s)"
  by (simp add: to_str_def split: option.splits)

lemma utf8_ascii: "\<forall>b \<in> set bs. b < 0x80 \<Longrightarrow> utf8_check i bs = None"
  by (induction bs arbitrary: i) auto

lemma utf8_Nil [simp]: "utf8 []"
  by (simp add: utf8_def bytes_of_def)

section \<open>Lines\<close>

text \<open>
  \<open>str::lines\<close>: split after each line feed, drop the line feed and one carriage return
  before it; a final line that is empty is not produced.
\<close>

definition strip_cr :: "string \<Rightarrow> string" where
  "strip_cr l = (if l \<noteq> [] \<and> last l = CHR 0x0D then butlast l else l)"

fun lines_acc :: "string \<Rightarrow> string \<Rightarrow> string list" where
  "lines_acc cur [] = (if cur = [] then [] else [rev cur])"
| "lines_acc cur (c # cs) =
     (if c = CHR 0x0A then strip_cr (rev cur) # lines_acc [] cs
      else lines_acc (c # cur) cs)"

definition str_lines :: "string \<Rightarrow> string list" where
  "str_lines s = lines_acc [] s"

text \<open>\<open>l.trim().is_empty()\<close>: every character has the Unicode property White_Space.\<close>

fun all_whitespace :: "nat list \<Rightarrow> bool" where
  "all_whitespace [] = True"
| "all_whitespace (b0 # bs) =
     (if (9 \<le> b0 \<and> b0 \<le> 13) \<or> b0 = 32 then all_whitespace bs
      else case bs of
        [] \<Rightarrow> False
      | b1 # bs1 \<Rightarrow>
          if b0 = 0xC2 \<and> (b1 = 0x85 \<or> b1 = 0xA0) then all_whitespace bs1
          else (case bs1 of
            [] \<Rightarrow> False
          | b2 # bs2 \<Rightarrow>
              if (b0 = 0xE1 \<and> b1 = 0x9A \<and> b2 = 0x80) \<or>
                 (b0 = 0xE2 \<and> b1 = 0x80 \<and>
                    ((0x80 \<le> b2 \<and> b2 \<le> 0x8A) \<or> b2 = 0xA8 \<or> b2 = 0xA9 \<or> b2 = 0xAF)) \<or>
                 (b0 = 0xE2 \<and> b1 = 0x81 \<and> b2 = 0x9F) \<or>
                 (b0 = 0xE3 \<and> b1 = 0x80 \<and> b2 = 0x80)
              then all_whitespace bs2 else False))"

definition blank_line :: "string \<Rightarrow> bool" where
  "blank_line l \<longleftrightarrow> all_whitespace (bytes_of l)"

section \<open>ASCII is UTF-8\<close>

definition ascii :: "string \<Rightarrow> bool" where
  "ascii s \<longleftrightarrow> list_all (\<lambda>c. of_char c < (0x80 :: nat)) s"

lemma ascii_utf8: "ascii s \<Longrightarrow> utf8 s"
  by (auto simp: utf8_def bytes_of_def ascii_def list_all_iff intro!: utf8_ascii)

lemma ascii_append [simp]: "ascii (s @ t) \<longleftrightarrow> ascii s \<and> ascii t"
  by (simp add: ascii_def)

lemma ascii_Nil [simp]: "ascii []"
  by (simp add: ascii_def)

lemma ascii_Cons [simp]: "ascii (c # s) \<longleftrightarrow> of_char c < (0x80 :: nat) \<and> ascii s"
  by (simp add: ascii_def)

lemma ascii_show_digits [simp]: "ascii (show_digits n)"
proof (induction n rule: show_digits.induct)
  case (1 n)
  have "n mod 10 < 10" by simp
  then have "n mod 10 < 80" by linarith
  then show ?case using 1 by (subst show_digits.simps) (simp add: ascii_def)
qed

lemma ascii_show_u32 [simp]: "ascii (show_u32 x)"
  by (simp add: show_u32_def)

end
