(* ===== verification/Float_Core.thy ===== *)
theory Float_Core
  imports Prelude
begin

text \<open>
  Binary floating point in the round-to-nearest-even mode, executable and over integers
  only. A magnitude is a bit pattern without its sign. In a format with \<open>F\<close> fraction bits
  every finite magnitude is a whole multiple of the smallest subnormal, so \<open>fdec\<close> reads a
  pattern as a natural number at that scale and \<open>fround\<close> rounds a fraction \<open>n / d\<close> at
  that scale back to a pattern. Rounding is monotone, exact on what is representable, and
  patterns are ordered as their values are; the bounds of the program's float code rest on
  these three facts.
\<close>

section \<open>Rounding to the nearest integer, ties to even\<close>

definition rne :: "nat \<Rightarrow> nat \<Rightarrow> nat" where
  "rne n d =
     (let q = n div d; r = n mod d
      in if 2 * r < d \<or> (2 * r = d \<and> even q) then q else Suc q)"

fun nbits :: "nat \<Rightarrow> nat" where
  "nbits n = (if n = 0 then 0 else Suc (nbits (n div 2)))"

declare nbits.simps [simp del]

definition fround :: "nat \<Rightarrow> nat \<Rightarrow> nat \<Rightarrow> nat" where
  "fround F n d =
     (let s = nbits (n div d) - Suc F in s * 2 ^ F + rne n (d * 2 ^ s))"

definition fdec :: "nat \<Rightarrow> nat \<Rightarrow> nat" where
  "fdec F b =
     (let e = b div 2 ^ F; m = b mod 2 ^ F
      in if e = 0 then m else (2 ^ F + m) * 2 ^ (e - 1))"

section \<open>Integer square root\<close>

fun isqrt :: "nat \<Rightarrow> nat" where
  "isqrt n =
     (if n = 0 then 0
      else let r = 2 * isqrt (n div 4) in if Suc r * Suc r \<le> n then Suc r else r)"

declare isqrt.simps [simp del]

lemma isqrt_bounds: "isqrt n * isqrt n \<le> n \<and> n < Suc (isqrt n) * Suc (isqrt n)"
proof (induction n rule: isqrt.induct)
  case (1 n)
  show ?case
  proof (cases "n = 0")
    case True
    then show ?thesis by (simp add: isqrt.simps)
  next
    case False
    define t where "t = isqrt (n div 4)"
    have lo: "t * t \<le> n div 4" and hi: "n div 4 < Suc t * Suc t"
      using "1.IH" False by (auto simp: t_def)
    have lo4: "4 * (t * t) \<le> n" using lo by linarith
    have "n < 4 * (Suc t * Suc t)" using hi by linarith
    then have hi4: "n < Suc (Suc (2 * t)) * Suc (Suc (2 * t))"
      by (simp add: algebra_simps)
    show ?thesis
      using lo4 hi4 False
      by (subst (1 2 3 4) isqrt.simps) (auto simp: Let_def t_def [symmetric] algebra_simps)
  qed
qed

lemma isqrt_mono: "m \<le> n \<Longrightarrow> isqrt m \<le> isqrt n"
proof (rule ccontr)
  assume "m \<le> n" and "\<not> isqrt m \<le> isqrt n"
  then have "Suc (isqrt n) * Suc (isqrt n) \<le> isqrt m * isqrt m"
    by (intro mult_le_mono) auto
  with isqrt_bounds [of n] isqrt_bounds [of m] \<open>m \<le> n\<close> show False by linarith
qed

lemma isqrt_square [simp]: "isqrt (k * k) = k"
proof -
  have "isqrt (k * k) \<le> k"
  proof (rule ccontr)
    assume "\<not> isqrt (k * k) \<le> k"
    then have "Suc k * Suc k \<le> isqrt (k * k) * isqrt (k * k)" by (intro mult_le_mono) auto
    with isqrt_bounds [of "k * k"] show False by simp
  qed
  moreover have "k \<le> isqrt (k * k)"
  proof (rule ccontr)
    assume "\<not> k \<le> isqrt (k * k)"
    then have "Suc (isqrt (k * k)) * Suc (isqrt (k * k)) \<le> k * k" by (intro mult_le_mono) auto
    with isqrt_bounds [of "k * k"] show False by simp
  qed
  ultimately show ?thesis by simp
qed

section \<open>The nearest integer is monotone and exact\<close>

lemma rne_close:
  assumes "0 < d"
  shows "2 * (rne n d * d) \<le> 2 * n + d \<and> 2 * n \<le> 2 * (rne n d * d) + d"
proof -
  have eq: "n = n div d * d + n mod d" and lt: "n mod d < d"
    using assms by auto
  show ?thesis
  proof (cases "2 * (n mod d) < d \<or> (2 * (n mod d) = d \<and> even (n div d))")
    case True
    then have r: "rne n d * d = n div d * d" and "2 * (n mod d) \<le> d"
      by (auto simp: rne_def Let_def)
    with eq show ?thesis by linarith
  next
    case F: False
    then have r: "rne n d * d = n div d * d + d" by (auto simp: rne_def Let_def)
    from F have "d \<le> 2 * (n mod d)" by auto
    with eq lt r show ?thesis by linarith
  qed
qed

lemma rne_tie: "0 < d \<Longrightarrow> 2 * n = (2 * q + 1) * d \<Longrightarrow> even (rne n d)"
proof -
  assume d: "0 < d" and eq: "2 * n = (2 * q + 1) * d"
  then have "even d" by (metis even_mult_iff even_plus_one_iff dvd_triv_left)
  then obtain h where h: "d = 2 * h" by blast
  with eq have n: "n = q * d + h" by (simp add: algebra_simps)
  have "h < d" using h d by simp
  then have "n div d = q" "n mod d = h" using n d by auto
  then show ?thesis using h by (auto simp: rne_def Let_def)
qed

lemma rne_mono:
  assumes "n1 * d2 \<le> n2 * d1" "0 < d1" "0 < d2"
  shows "rne n1 d1 \<le> rne n2 d2"
proof (rule ccontr)
  define a b where "a = rne n1 d1" and "b = rne n2 d2"
  assume "\<not> rne n1 d1 \<le> rne n2 d2"
  then have ab: "Suc b \<le> a" by (simp add: a_def b_def)
  have "2 * (a * d1) \<le> 2 * n1 + d1" using rne_close [OF assms(2)] a_def by blast
  moreover have "Suc b * d1 \<le> a * d1" using ab by (rule mult_le_mono1)
  ultimately have l: "(2 * b + 1) * d1 \<le> 2 * n1" by (simp add: algebra_simps)
  have u: "2 * n2 \<le> (2 * b + 1) * d2"
    using rne_close [OF assms(3), of n2] by (simp add: b_def algebra_simps)
  have c1: "(2 * b + 1) * d1 * d2 \<le> 2 * n1 * d2" using l by (rule mult_le_mono1)
  have c2: "2 * n2 * d1 \<le> (2 * b + 1) * d2 * d1" using u by (rule mult_le_mono1)
  have c3: "2 * n1 * d2 \<le> 2 * n2 * d1" using assms(1) by simp
  have sw: "(2 * b + 1) * d2 * d1 = (2 * b + 1) * d1 * d2" by (simp only: ac_simps)
  have e1: "(2 * b + 1) * d1 * d2 = 2 * n1 * d2" using c1 c2 c3 sw by linarith
  have e2: "2 * n2 * d1 = (2 * b + 1) * d2 * d1" using c1 c2 c3 sw by linarith
  have t1: "2 * n1 = (2 * b + 1) * d1" using e1 assms(3) by simp
  have t2: "2 * n2 = (2 * b + 1) * d2" using e2 assms(2) by simp
  have "2 * (a * d1) \<le> 2 * (Suc b * d1)"
    using rne_close [OF assms(2), of n1] t1 by (simp add: a_def algebra_simps)
  then have "a * d1 \<le> Suc b * d1" by linarith
  then have "a \<le> Suc b" using assms(2) by (simp only: mult_le_cancel2)
  with ab have "a = Suc b" by simp
  moreover have "even a" unfolding a_def by (rule rne_tie [OF assms(2) t1])
  moreover have "even b" unfolding b_def by (rule rne_tie [OF assms(3) t2])
  ultimately show False by simp
qed

lemma rne_1 [simp]: "rne n (Suc 0) = n"
  by (simp add: rne_def)

lemma rne_exact [simp]: "0 < d \<Longrightarrow> rne (k * d) d = k"
  by (simp add: rne_def)

lemma rne_le: "0 < d \<Longrightarrow> n \<le> k * d \<Longrightarrow> rne n d \<le> k"
  using rne_mono [of n d "k * d" d] by simp

lemma le_rne: "0 < d \<Longrightarrow> k * d \<le> n \<Longrightarrow> k \<le> rne n d"
  using rne_mono [of "k * d" d n d] by simp

section \<open>Bit lengths\<close>

lemma nbits_0 [simp]: "nbits 0 = 0"
  by (simp add: nbits.simps)

lemma less_nbits: "n < 2 ^ nbits n"
proof (induction n rule: nbits.induct)
  case (1 n)
  then show ?case
    by (cases "n = 0") (auto simp: nbits.simps [of n])
qed

lemma nbits_le: "n < 2 ^ k \<Longrightarrow> nbits n \<le> k"
proof (induction n arbitrary: k rule: nbits.induct)
  case (1 n)
  show ?case
  proof (cases "n = 0")
    case False
    with "1.prems" obtain j where k: "k = Suc j" by (cases k) auto
    with "1.prems" have "n div 2 < 2 ^ j" by auto
    with "1.IH" False have "nbits (n div 2) \<le> j" by blast
    then show ?thesis using False k by (simp add: nbits.simps [of n])
  qed simp
qed

lemma nbits_ge: "2 ^ k \<le> n \<Longrightarrow> Suc k \<le> nbits n"
proof (rule ccontr)
  assume "2 ^ k \<le> n" "\<not> Suc k \<le> nbits n"
  then have "(2::nat) ^ nbits n \<le> 2 ^ k" by (intro power_increasing) auto
  with \<open>2 ^ k \<le> n\<close> less_nbits [of n] show False by linarith
qed

lemma nbits_eq: "2 ^ k \<le> n \<Longrightarrow> n < 2 ^ Suc k \<Longrightarrow> nbits n = Suc k"
  using nbits_ge nbits_le by (metis antisym)

lemma nbits_mono: "m \<le> n \<Longrightarrow> nbits m \<le> nbits n"
  by (rule nbits_le) (use less_nbits [of n] in linarith)

lemma nbits_ge_pow: "0 < n \<Longrightarrow> 2 ^ (nbits n - 1) \<le> n"
proof (rule ccontr)
  assume n: "0 < n" and "\<not> 2 ^ (nbits n - 1) \<le> n"
  then have "nbits n \<le> nbits n - 1" by (intro nbits_le) auto
  moreover have "nbits n \<noteq> 0" using n less_nbits [of n] by (metis less_one not_gr0 power_0)
  ultimately show False by simp
qed

section \<open>Rounding to a bit pattern is exact and monotone\<close>

lemma div_pow_bounds:
  assumes "0 < d" "nbits (n div d) = Suc F + s"
  shows "n \<le> 2 ^ Suc F * (d * 2 ^ s)" and "2 ^ F * (d * 2 ^ s) \<le> n"
proof -
  let ?q = "n div d"
  have "?q < 2 ^ (Suc F + s)" using less_nbits [of ?q] assms(2) by simp
  then have "Suc ?q * d \<le> 2 ^ (Suc F + s) * d" by (intro mult_le_mono1) simp
  moreover have "n \<le> Suc ?q * d" using assms(1) dividend_less_div_times [of d n] by simp
  ultimately show "n \<le> 2 ^ Suc F * (d * 2 ^ s)" by (simp add: power_add ac_simps)
  have "0 < ?q" using assms(2) by (cases "?q = 0") auto
  then have "2 ^ (F + s) \<le> ?q" using nbits_ge_pow [of ?q] assms(2) by simp
  then have "2 ^ (F + s) * d \<le> ?q * d" by (rule mult_le_mono1)
  also have "\<dots> \<le> n" by (rule div_times_less_eq_dividend)
  finally show "2 ^ F * (d * 2 ^ s) \<le> n" by (simp add: power_add ac_simps)
qed

lemma fround_small: "n div d < 2 ^ Suc F \<Longrightarrow> fround F n d = rne n d"
proof -
  assume "n div d < 2 ^ Suc F"
  then have "nbits (n div d) \<le> Suc F" by (rule nbits_le)
  then show ?thesis by (simp add: fround_def Let_def)
qed

lemma fround_large:
  "nbits (n div d) = Suc F + s \<Longrightarrow> fround F n d = s * 2 ^ F + rne n (d * 2 ^ s)"
  by (simp add: fround_def Let_def)

lemma fround_mono:
  assumes le: "n1 * d2 \<le> n2 * d1" and d: "0 < d1" "0 < d2"
  shows "fround F n1 d1 \<le> fround F n2 d2"
proof -
  define s1 s2 where "s1 = nbits (n1 div d1) - Suc F" and "s2 = nbits (n2 div d2) - Suc F"
  have q: "n1 div d1 \<le> n2 div d2"
  proof -
    have "n1 div d1 = n1 * d2 div (d1 * d2)" using d by simp
    also have "\<dots> \<le> n2 * d1 div (d1 * d2)" using le by (rule div_le_mono)
    also have "\<dots> = n2 div d2" using d by (metis div_mult_mult1 mult.commute not_less_zero)
    finally show ?thesis .
  qed
  then have s12: "s1 \<le> s2" unfolding s1_def s2_def by (intro diff_le_mono nbits_mono)
  have r: "fround F n1 d1 = s1 * 2 ^ F + rne n1 (d1 * 2 ^ s1)"
    "fround F n2 d2 = s2 * 2 ^ F + rne n2 (d2 * 2 ^ s2)"
    by (simp_all add: fround_def Let_def s1_def s2_def)
  show ?thesis
  proof (cases "s1 = s2")
    case True
    have "n1 * (d2 * 2 ^ s2) \<le> n2 * (d1 * 2 ^ s2)"
      using mult_le_mono1 [OF le, of "2 ^ s2"] by (simp add: mult.assoc)
    then show ?thesis using True d r rne_mono by simp
  next
    case False
    with s12 have lt: "Suc s1 \<le> s2" by simp
    then have b2: "nbits (n2 div d2) = Suc F + s2" by (simp add: s2_def)
    have "2 ^ F \<le> rne n2 (d2 * 2 ^ s2)"
      by (rule le_rne) (use d div_pow_bounds(2) [OF d(2) b2] in auto)
    moreover have "rne n1 (d1 * 2 ^ s1) \<le> 2 ^ Suc F"
    proof (rule rne_le)
      have "n1 div d1 < 2 ^ (Suc F + s1)"
        by (rule less_le_trans [OF less_nbits]) (simp add: s1_def del: power_Suc)
      then have "Suc (n1 div d1) * d1 \<le> 2 ^ (Suc F + s1) * d1" by (intro mult_le_mono1) simp
      then show "n1 \<le> 2 ^ Suc F * (d1 * 2 ^ s1)"
        using dividend_less_div_times [OF d(1), of n1] by (simp add: power_add ac_simps)
    qed (use d in simp)
    moreover have "Suc s1 * 2 ^ F \<le> s2 * 2 ^ F" using lt by (rule mult_le_mono1)
    ultimately show ?thesis using r by simp
  qed
qed

lemma fround_exact: "fround F (fdec F b) (Suc 0) = b"
proof -
  define e m where "e = b div 2 ^ F" and "m = b mod 2 ^ F"
  have b: "b = e * 2 ^ F + m" and m: "m < 2 ^ F" by (simp_all add: e_def m_def mult.commute)
  show ?thesis
  proof (cases e)
    case 0
    then have "fdec F b = m" by (simp add: fdec_def e_def m_def)
    then show ?thesis using 0 b m by (simp add: fround_small)
  next
    case (Suc s)
    then have v: "fdec F b = (2 ^ F + m) * 2 ^ s"
      by (simp add: fdec_def flip: e_def m_def)
    have "nbits (fdec F b) = Suc (F + s)"
    proof (rule nbits_eq)
      show "2 ^ (F + s) \<le> fdec F b" by (simp add: v power_add)
      have "(2 ^ F + m) * 2 ^ s < 2 ^ Suc F * 2 ^ s" using m by simp
      then show "fdec F b < 2 ^ Suc (F + s)" by (simp add: v power_add)
    qed
    then have "fround F (fdec F b) (Suc 0) = s * 2 ^ F + rne (fdec F b) (2 ^ s)"
      using fround_large [of "fdec F b" 1 F s] by simp
    then show ?thesis using v b Suc by simp
  qed
qed

lemma fdec_less_iff: "fdec F a < fdec F b \<longleftrightarrow> a < b"
proof -
  have le: "fdec F x \<le> fdec F y \<Longrightarrow> x \<le> y" for x y
    using fround_mono [of "fdec F x" 1 "fdec F y" 1 F] by (simp add: fround_exact)
  have "a < b \<Longrightarrow> fdec F a < fdec F b" using le [of b a] by linarith
  moreover have "fdec F a < fdec F b \<Longrightarrow> a < b"
    using le [of a b] fround_exact by (metis order_less_irrefl order_le_imp_less_or_eq less_imp_le)
  ultimately show ?thesis by blast
qed

lemma fdec_le_iff [simp]: "fdec F a \<le> fdec F b \<longleftrightarrow> a \<le> b"
  by (simp add: fdec_less_iff flip: not_less)

lemma fdec_0 [simp]: "fdec F 0 = 0"
  by (simp add: fdec_def)

lemma fdec_eq_0_iff [simp]: "fdec F b = 0 \<longleftrightarrow> b = 0"
  by (metis fdec_0 fdec_less_iff gr_zeroI less_numeral_extra(3))

lemma fround_ge: "0 < d \<Longrightarrow> fdec F c * d \<le> n \<Longrightarrow> c \<le> fround F n d"
  using fround_mono [of "fdec F c" d n 1 F] by (simp add: fround_exact)

lemma fround_le: "0 < d \<Longrightarrow> n \<le> fdec F c * d \<Longrightarrow> fround F n d \<le> c"
  using fround_mono [of n 1 "fdec F c" d F] by (simp add: fround_exact)

section \<open>The rounded value is a nearest representable value\<close>

lemma fdec_small: "q < 2 ^ F \<Longrightarrow> fdec F q = q"
  by (simp add: fdec_def)

lemma fdec_shift:
  assumes "2 ^ F \<le> q" "q \<le> 2 ^ Suc F"
  shows "fdec F (s * 2 ^ F + q) = q * 2 ^ s"
proof (cases "q = 2 ^ Suc F")
  case True
  then have "s * 2 ^ F + q = Suc (Suc s) * 2 ^ F" by simp
  then show ?thesis using True by (simp only: fdec_def Let_def) simp
next
  case False
  then obtain m where m: "q = 2 ^ F + m" "m < 2 ^ F"
    using assms by (metis add_less_cancel_left le_Suc_ex mult_2 nat_less_le power_Suc)
  then have "s * 2 ^ F + q = m + Suc s * 2 ^ F" by simp
  moreover have "(m + Suc s * 2 ^ F) div 2 ^ F = Suc s" "(m + Suc s * 2 ^ F) mod 2 ^ F = m"
    using m(2) by (simp_all del: mult_Suc)
  ultimately show ?thesis using m by (simp only: fdec_def Let_def) simp
qed

lemma pow_dvd_fdec: "2 ^ F * 2 ^ s \<le> fdec F c \<Longrightarrow> 2 ^ s dvd fdec F c"
proof -
  assume "2 ^ F * 2 ^ s \<le> fdec F c"
  then have "fdec F (s * 2 ^ F + 2 ^ F) \<le> fdec F c" by (subst fdec_shift) auto
  then have "Suc s * 2 ^ F \<le> c" by simp
  then have "Suc s \<le> c div 2 ^ F" by (simp add: less_eq_div_iff_mult_less_eq)
  then show ?thesis by (auto simp: fdec_def Let_def intro!: dvd_mult le_imp_power_dvd)
qed

lemma rne_nearest:
  assumes "0 < d"
  shows "\<bar>int (rne n d) * int d - int n\<bar> \<le> \<bar>int k * int d - int n\<bar>"
proof (cases "k = rne n d")
  case False
  define q where "q = rne n d"
  have "2 * (q * d) \<le> 2 * n + d \<and> 2 * n \<le> 2 * (q * d) + d"
    using rne_close [OF assms] by (simp add: q_def)
  then have c: "2 * \<bar>int q * int d - int n\<bar> \<le> int d"
    by (simp flip: of_nat_mult add: abs_if)
  have "1 \<le> \<bar>int k - int q\<bar>" using False by (simp add: q_def)
  then have "int d \<le> \<bar>int k - int q\<bar> * int d" using assms by simp
  also have "\<dots> = \<bar>int k * int d - int q * int d\<bar>"
    by (simp add: abs_mult flip: left_diff_distrib)
  finally have a: "int d \<le> \<bar>int k * int d - int q * int d\<bar>" .
  have "\<bar>b - n'\<bar> \<le> \<bar>a - n'\<bar>" if "e \<le> \<bar>a - b\<bar>" "2 * \<bar>b - n'\<bar> \<le> e" for a b n' e :: int
    using that abs_triangle_ineq4 [of "a - n'" "b - n'"] by simp
  from this [OF a c] show ?thesis by (simp add: q_def)
qed simp

theorem fround_nearest:
  assumes d: "0 < d"
  shows "\<bar>int (fdec F (fround F n d)) * int d - int n\<bar> \<le> \<bar>int (fdec F c) * int d - int n\<bar>"
proof -
  define s q where "s = nbits (n div d) - Suc F" and "q = rne n (d * 2 ^ s)"
  have r: "fround F n d = s * 2 ^ F + q" by (simp add: fround_def Let_def s_def q_def)
  have near: "\<bar>int (q * 2 ^ s) * int d - int n\<bar> \<le> \<bar>int (k * 2 ^ s) * int d - int n\<bar>" for k
    using rne_nearest [of "d * 2 ^ s" n k] d by (simp add: q_def ac_simps)
  show ?thesis
  proof (cases "s = 0")
    case True
    have "n div d < 2 ^ Suc F" using less_nbits [of "n div d"] True
      by (auto simp: s_def intro!: less_le_trans [OF less_nbits] power_increasing simp del: power_Suc)
    then have "n \<le> 2 ^ Suc F * d"
      using d by (metis div_less_iff_less_mult less_imp_le)
    then have "q \<le> 2 ^ Suc F" using d True by (simp add: q_def rne_le)
    then have "fdec F (fround F n d) = q"
      using True r fdec_shift [of F q 0] fdec_small [of q F] by (cases "q < 2 ^ F") auto
    then show ?thesis using near [of "fdec F c"] True by simp
  next
    case False
    then have b: "nbits (n div d) = Suc F + s" by (simp add: s_def)
    have "2 ^ F \<le> q" unfolding q_def
      by (rule le_rne) (use d div_pow_bounds(2) [OF d b] in auto)
    moreover have "q \<le> 2 ^ Suc F" unfolding q_def
      by (rule rne_le) (use d div_pow_bounds(1) [OF d b] in auto)
    ultimately have v: "fdec F (fround F n d) = q * 2 ^ s" by (simp only: r fdec_shift)
    show ?thesis
    proof (cases "2 ^ F * 2 ^ s \<le> fdec F c")
      case True
      then obtain k where "fdec F c = k * 2 ^ s"
        using pow_dvd_fdec by (metis dvd_def mult.commute)
      then show ?thesis using near [of k] v by simp
    next
      case F: False
      then have "fdec F c * d \<le> 2 ^ F * 2 ^ s * d" by (intro mult_le_mono1) simp
      moreover have "2 ^ F * 2 ^ s * d \<le> n" using div_pow_bounds(2) [OF d b] by (simp add: ac_simps)
      ultimately have "int (fdec F c * d) \<le> int (2 ^ F * 2 ^ s * d)" "int (2 ^ F * 2 ^ s * d) \<le> int n"
        by (simp_all only: of_nat_le_iff)
      then have "\<bar>int (2 ^ F * 2 ^ s) * int d - int n\<bar> \<le> \<bar>int (fdec F c) * int d - int n\<bar>"
        unfolding of_nat_mult by linarith
      then show ?thesis using near [of "2 ^ F"] v by simp
    qed
  qed
qed

end
