(* ===== verification/Floats.thy ===== *)
theory Floats
  imports Float_Core
begin

unbundle bit_operations_syntax

text \<open>
  The IEEE 754 arithmetic of Rust's \<open>f32\<close> and \<open>f64\<close> that the crate uses. A value is its
  bit pattern, a word, because the crate hashes and transmits patterns; an operation
  unpacks the pattern into a sign and a magnitude, computes exactly over integers and
  rounds once. A NaN result is the canonical quiet NaN (Rust leaves its payload open).
\<close>

section \<open>Formats, signs and magnitudes\<close>

record format =
  fracw :: nat
  emax :: nat
  scale :: nat

definition binary32 :: format where
  "binary32 = \<lparr>fracw = 23, emax = 255, scale = 149\<rparr>"

definition binary64 :: format where
  "binary64 = \<lparr>fracw = 52, emax = 2047, scale = 1074\<rparr>"

text \<open>A finite magnitude \<open>m\<close> has the value \<open>fdec (fracw f) m / 2 ^ scale f\<close>.\<close>

type_synonym smag = "bool \<times> nat"

definition infm :: "format \<Rightarrow> nat" where
  "infm f = emax f * 2 ^ fracw f"

definition qnan :: "format \<Rightarrow> smag" where
  "qnan f = (False, infm f + 2 ^ (fracw f - 1))"

definition enc :: "format \<Rightarrow> nat \<Rightarrow> nat \<Rightarrow> nat" where
  "enc f n d = min (infm f) (fround (fracw f) n d)"

definition dec :: "format \<Rightarrow> nat \<Rightarrow> nat" where
  "dec f m = fdec (fracw f) m"

definition signed :: "bool \<Rightarrow> nat \<Rightarrow> int" where
  "signed s k = (if s then - int k else int k)"

section \<open>Operations on signed magnitudes\<close>

fun sm_add :: "format \<Rightarrow> smag \<Rightarrow> smag \<Rightarrow> smag" where
  "sm_add f (s, a) (t, b) =
     (if infm f < a \<or> infm f < b then qnan f
      else if a = infm f then (if b = infm f \<and> s \<noteq> t then qnan f else (s, a))
      else if b = infm f then (t, b)
      else let k = signed s (dec f a) + signed t (dec f b)
        in if k = 0 then (s \<and> t, 0) else (k < 0, enc f (nat \<bar>k\<bar>) 1))"

fun sm_neg :: "smag \<Rightarrow> smag" where
  "sm_neg (s, a) = (\<not> s, a)"

fun sm_mul :: "format \<Rightarrow> smag \<Rightarrow> smag \<Rightarrow> smag" where
  "sm_mul f (s, a) (t, b) =
     (if infm f < a \<or> infm f < b then qnan f
      else if a = infm f \<or> b = infm f
      then (if a = 0 \<or> b = 0 then qnan f else (s \<noteq> t, infm f))
      else (s \<noteq> t, enc f (dec f a * dec f b) (2 ^ scale f)))"

fun sm_div :: "format \<Rightarrow> smag \<Rightarrow> smag \<Rightarrow> smag" where
  "sm_div f (s, a) (t, b) =
     (if infm f < a \<or> infm f < b then qnan f
      else if a = infm f then (if b = infm f then qnan f else (s \<noteq> t, infm f))
      else if b = infm f then (s \<noteq> t, 0)
      else if b = 0 then (if a = 0 then qnan f else (s \<noteq> t, infm f))
      else (s \<noteq> t, enc f (dec f a * 2 ^ scale f) (dec f b)))"

text \<open>
  The root of \<open>v / 2 ^ scale\<close> is \<open>sqrt (v * 2 ^ scale)\<close> at the scale of the format. The
  integer root of four times that, doubled, with a sticky low bit, lies on the same side
  of every rounding boundary as the exact root.
\<close>

definition sticky_sqrt :: "nat \<Rightarrow> nat" where
  "sticky_sqrt n = (let r = isqrt (4 * n) in 2 * r + of_bool (r * r < 4 * n))"

fun sm_sqrt :: "format \<Rightarrow> smag \<Rightarrow> smag" where
  "sm_sqrt f (s, a) =
     (if infm f < a then qnan f
      else if a = 0 then (s, 0)
      else if s then qnan f
      else if a = infm f then (False, infm f)
      else (False, enc f (sticky_sqrt (dec f a * 2 ^ scale f)) 4))"

text \<open>The value order: false as soon as a NaN is involved, \<open>-0 = +0\<close>.\<close>

fun sm_less :: "format \<Rightarrow> smag \<Rightarrow> smag \<Rightarrow> bool" where
  "sm_less f (s, a) (t, b) \<longleftrightarrow>
     a \<le> infm f \<and> b \<le> infm f \<and> signed s a < signed t b"

text \<open>Conversion between formats: exact when it widens, rounded when it narrows.\<close>

fun sm_convert :: "format \<Rightarrow> format \<Rightarrow> smag \<Rightarrow> smag" where
  "sm_convert f g (s, a) =
     (if infm f < a then qnan g
      else if a = infm f then (s, infm g)
      else (s, enc g (dec f a * 2 ^ scale g) (2 ^ scale f)))"

section \<open>The types f32 and f64\<close>

type_synonym f32 = "32 word"
type_synonym f64 = "64 word"

definition unpack32 :: "f32 \<Rightarrow> smag" where
  "unpack32 x = (2 ^ 31 \<le> unat x, unat x mod 2 ^ 31)"

definition pack32 :: "smag \<Rightarrow> f32" where
  "pack32 p = word_of_nat (of_bool (fst p) * 2 ^ 31 + snd p)"

definition unpack64 :: "f64 \<Rightarrow> smag" where
  "unpack64 x = (2 ^ 63 \<le> unat x, unat x mod 2 ^ 63)"

definition pack64 :: "smag \<Rightarrow> f64" where
  "pack64 p = word_of_nat (of_bool (fst p) * 2 ^ 63 + snd p)"

definition f32_add :: "f32 \<Rightarrow> f32 \<Rightarrow> f32" where
  "f32_add x y = pack32 (sm_add binary32 (unpack32 x) (unpack32 y))"

definition f32_sub :: "f32 \<Rightarrow> f32 \<Rightarrow> f32" where
  "f32_sub x y = pack32 (sm_add binary32 (unpack32 x) (sm_neg (unpack32 y)))"

definition f32_mul :: "f32 \<Rightarrow> f32 \<Rightarrow> f32" where
  "f32_mul x y = pack32 (sm_mul binary32 (unpack32 x) (unpack32 y))"

definition f32_div :: "f32 \<Rightarrow> f32 \<Rightarrow> f32" where
  "f32_div x y = pack32 (sm_div binary32 (unpack32 x) (unpack32 y))"

definition f32_sqrt :: "f32 \<Rightarrow> f32" where
  "f32_sqrt x = pack32 (sm_sqrt binary32 (unpack32 x))"

definition f32_less :: "f32 \<Rightarrow> f32 \<Rightarrow> bool" where
  "f32_less x y \<longleftrightarrow> sm_less binary32 (unpack32 x) (unpack32 y)"

definition f64_add :: "f64 \<Rightarrow> f64 \<Rightarrow> f64" where
  "f64_add x y = pack64 (sm_add binary64 (unpack64 x) (unpack64 y))"

definition f64_div :: "f64 \<Rightarrow> f64 \<Rightarrow> f64" where
  "f64_div x y = pack64 (sm_div binary64 (unpack64 x) (unpack64 y))"

definition f64_of_f32 :: "f32 \<Rightarrow> f64" where
  "f64_of_f32 x = pack64 (sm_convert binary32 binary64 (unpack32 x))"

definition f32_of_f64 :: "f64 \<Rightarrow> f32" where
  "f32_of_f64 x = pack32 (sm_convert binary64 binary32 (unpack64 x))"

text \<open>Integer to float casts and decimal literals round the exact value.\<close>

definition f32_of_nat :: "nat \<Rightarrow> f32" where
  "f32_of_nat n = pack32 (False, enc binary32 (n * 2 ^ scale binary32) 1)"

definition f64_of_nat :: "nat \<Rightarrow> f64" where
  "f64_of_nat n = pack64 (False, enc binary64 (n * 2 ^ scale binary64) 1)"

definition f32_lit :: "nat \<Rightarrow> nat \<Rightarrow> f32" where
  "f32_lit n d = pack32 (False, enc binary32 (n * 2 ^ scale binary32) d)"

text \<open>
  \<open>iter().sum::<f32>()\<close> folds from the left. Its start is the neutral element \<open>-0.0\<close>
  (the standard library used \<open>+0.0\<close> before Rust 1.83; the two differ in the sign of an
  all-zero sum only).
\<close>

definition f32_neg_zero :: f32 where
  "f32_neg_zero = 0x80000000"

definition f32_sum :: "f32 list \<Rightarrow> f32" where
  "f32_sum xs = foldl f32_add f32_neg_zero xs"

text \<open>\<open>v.iter().map(|x| x * x).sum::<f32>().sqrt()\<close>, the L2 norm as four places compute it.\<close>

definition f32_norm :: "f32 list \<Rightarrow> f32" where
  "f32_norm v = f32_sqrt (f32_sum (map (\<lambda>x. f32_mul x x) v))"

section \<open>Classes\<close>

definition f32_is_nan :: "f32 \<Rightarrow> bool" where
  "f32_is_nan x \<longleftrightarrow> infm binary32 < snd (unpack32 x)"

definition f32_is_finite :: "f32 \<Rightarrow> bool" where
  "f32_is_finite x \<longleftrightarrow> snd (unpack32 x) < infm binary32"

definition f32_is_inf :: "f32 \<Rightarrow> bool" where
  "f32_is_inf x \<longleftrightarrow> snd (unpack32 x) = infm binary32"

text \<open>
  The key orders the values that are not NaN: the magnitude's pattern with the sign of the
  value, so both zeros have the key 0.
\<close>

definition f32_key :: "f32 \<Rightarrow> int" where
  "f32_key x = (case unpack32 x of (s, a) \<Rightarrow> signed s a)"

definition f32_nonneg :: "f32 \<Rightarrow> bool" where
  "f32_nonneg x \<longleftrightarrow> \<not> f32_is_nan x \<and> 0 \<le> f32_key x"

section \<open>Evaluation of closed terms by the simplifier\<close>

text \<open>Unfolding rules for numerals only, so that they cannot be applied for ever.\<close>

lemma nbits_numeral:
  "nbits (numeral (num.Bit0 (num.Bit0 k))) = Suc (nbits (numeral (num.Bit0 k)))"
  "nbits (numeral (num.Bit0 (num.Bit1 k))) = Suc (nbits (numeral (num.Bit1 k)))"
  "nbits (numeral (num.Bit1 (num.Bit0 k))) = Suc (nbits (numeral (num.Bit0 k)))"
  "nbits (numeral (num.Bit1 (num.Bit1 k))) = Suc (nbits (numeral (num.Bit1 k)))"
  "nbits 2 = 2" "nbits 3 = 2" "nbits (Suc 0) = 1"
proof -
  have b: "nbits (numeral (num.Bit0 m)) = Suc (nbits (numeral m))"
    "nbits (numeral (num.Bit1 m)) = Suc (nbits (numeral m))" for m
    by (simp_all add: nbits.simps [of "numeral (num.Bit0 m)"] nbits.simps [of "numeral (num.Bit1 m)"])
  show "nbits (numeral (num.Bit0 (num.Bit0 k))) = Suc (nbits (numeral (num.Bit0 k)))"
    "nbits (numeral (num.Bit0 (num.Bit1 k))) = Suc (nbits (numeral (num.Bit1 k)))"
    "nbits (numeral (num.Bit1 (num.Bit0 k))) = Suc (nbits (numeral (num.Bit0 k)))"
    "nbits (numeral (num.Bit1 (num.Bit1 k))) = Suc (nbits (numeral (num.Bit1 k)))"
    by (simp_all only: b)
  show one: "nbits (Suc 0) = 1" by (simp add: nbits.simps)
  show "nbits 2 = 2" "nbits 3 = 2"
    using b [of num.One] one by simp_all
qed

text \<open>The root with its remainder, digit by digit and without a multiplication.\<close>

definition isqrt_rem :: "nat \<Rightarrow> nat \<times> nat" where
  "isqrt_rem n = (isqrt n, n - isqrt n * isqrt n)"

definition isqrt_digit :: "nat \<times> nat \<Rightarrow> nat \<Rightarrow> nat \<times> nat" where
  "isqrt_digit p c =
     (case p of (r, e) \<Rightarrow>
        if 4 * r + 1 \<le> 4 * e + c then (2 * r + 1, 4 * e + c - (4 * r + 1)) else (2 * r, 4 * e + c))"

lemma isqrt_rem_step:
  assumes "c < 4" "0 < 4 * m + c"
  shows "isqrt_rem (4 * m + c) = isqrt_digit (isqrt_rem m) c"
proof -
  have d: "(4 * m + c) div 4 = m" using assms(1) by simp
  have le: "isqrt m * isqrt m \<le> m" using isqrt_bounds [of m] by blast
  have sq: "Suc (2 * isqrt m) * Suc (2 * isqrt m) = 4 * (isqrt m * isqrt m) + (4 * isqrt m + 1)"
    by (simp add: algebra_simps)
  have r: "isqrt (4 * m + c) =
      (if 4 * isqrt m + 1 \<le> 4 * (m - isqrt m * isqrt m) + c then Suc (2 * isqrt m) else 2 * isqrt m)"
    using assms(2) le sq by (subst isqrt.simps) (auto simp: d Let_def)
  show ?thesis
  proof (cases "4 * isqrt m + 1 \<le> 4 * (m - isqrt m * isqrt m) + c")
    case True
    then show ?thesis using r le sq by (auto simp: isqrt_rem_def isqrt_digit_def)
  next
    case False
    then show ?thesis using r le by (auto simp: isqrt_rem_def isqrt_digit_def)
  qed
qed

lemma isqrt_rem_numeral:
  "isqrt_rem (numeral (num.Bit0 (num.Bit0 k))) = isqrt_digit (isqrt_rem (numeral k)) 0"
  "isqrt_rem (numeral (num.Bit1 (num.Bit0 k))) = isqrt_digit (isqrt_rem (numeral k)) 1"
  "isqrt_rem (numeral (num.Bit0 (num.Bit1 k))) = isqrt_digit (isqrt_rem (numeral k)) 2"
  "isqrt_rem (numeral (num.Bit1 (num.Bit1 k))) = isqrt_digit (isqrt_rem (numeral k)) 3"
proof -
  define x :: nat where "x = numeral k"
  have x: "0 < x" by (simp add: x_def)
  have e: "numeral (num.Bit0 (num.Bit0 k)) = 4 * x + 0" "numeral (num.Bit1 (num.Bit0 k)) = 4 * x + 1"
    "numeral (num.Bit0 (num.Bit1 k)) = 4 * x + 2" "numeral (num.Bit1 (num.Bit1 k)) = 4 * x + 3"
    by (simp_all only: numeral.simps x_def [symmetric]) simp_all
  show "isqrt_rem (numeral (num.Bit0 (num.Bit0 k))) = isqrt_digit (isqrt_rem (numeral k)) 0"
    "isqrt_rem (numeral (num.Bit1 (num.Bit0 k))) = isqrt_digit (isqrt_rem (numeral k)) 1"
    "isqrt_rem (numeral (num.Bit0 (num.Bit1 k))) = isqrt_digit (isqrt_rem (numeral k)) 2"
    "isqrt_rem (numeral (num.Bit1 (num.Bit1 k))) = isqrt_digit (isqrt_rem (numeral k)) 3"
    unfolding e x_def [symmetric] by (rule isqrt_rem_step; use x in simp)+
qed

lemma isqrt_rem_small:
  "isqrt_rem 0 = (0, 0)" "isqrt_rem (Suc 0) = (1, 0)" "isqrt_rem (numeral num.One) = (1, 0)"
  "isqrt_rem 2 = (1, 1)" "isqrt_rem 3 = (1, 2)"
proof -
  have z: "isqrt_rem 0 = (0, 0)" by (simp add: isqrt_rem_def isqrt.simps)
  show "isqrt_rem 0 = (0, 0)" "isqrt_rem (Suc 0) = (1, 0)" "isqrt_rem (numeral num.One) = (1, 0)"
    "isqrt_rem 2 = (1, 1)" "isqrt_rem 3 = (1, 2)"
    using isqrt_rem_step [of 1 0] isqrt_rem_step [of 2 0] isqrt_rem_step [of 3 0]
    by (simp_all add: z isqrt_digit_def numeral_2_eq_2)
qed

lemma sticky_sqrt_eval:
  "sticky_sqrt n = (case isqrt_rem (4 * n) of (r, e) \<Rightarrow> 2 * r + of_bool (0 < e))"
  using isqrt_bounds [of "4 * n"] by (auto simp: sticky_sqrt_def isqrt_rem_def Let_def)

lemmas format_simps = binary32_def binary64_def infm_def

lemmas float_eval =
  f32_norm_def f32_sum_def f32_neg_zero_def f32_mul_def f32_add_def f32_sub_def f32_div_def
  f32_sqrt_def f32_less_def f32_lit_def f32_of_nat_def f32_is_nan_def f32_is_finite_def
  f32_is_inf_def f32_key_def f32_nonneg_def f64_add_def f64_div_def f64_of_f32_def
  f32_of_f64_def f64_of_nat_def unpack32_def pack32_def unpack64_def pack64_def
  format_simps enc_def dec_def fdec_def fround_def rne_def nbits_numeral sticky_sqrt_eval
  isqrt_rem_numeral isqrt_rem_small isqrt_digit_def signed_def qnan_def

section \<open>Encoding\<close>

lemma infm32 [simp]: "infm binary32 = 2139095040"
  by (simp add: format_simps)

lemma infm64 [simp]: "infm binary64 = 9218868437227405312"
  by (simp add: format_simps)

lemma enc_le_infm [simp]: "enc f n d \<le> infm f"
  by (simp add: enc_def)

lemma enc_mono:
  "n1 * d2 \<le> n2 * d1 \<Longrightarrow> 0 < d1 \<Longrightarrow> 0 < d2 \<Longrightarrow> enc f n1 d1 \<le> enc f n2 d2"
  unfolding enc_def by (intro min.mono fround_mono) auto

lemma enc_exact [simp]: "a \<le> infm f \<Longrightarrow> enc f (dec f a) (Suc 0) = a"
  by (simp add: enc_def dec_def fround_exact)

lemma enc_le: "0 < d \<Longrightarrow> n \<le> dec f c * d \<Longrightarrow> enc f n d \<le> c"
  by (simp add: enc_def dec_def min.coboundedI2 fround_le)

lemma enc_ge: "0 < d \<Longrightarrow> c \<le> infm f \<Longrightarrow> dec f c * d \<le> n \<Longrightarrow> c \<le> enc f n d"
  by (simp add: enc_def dec_def fround_ge)

lemma dec_le_iff [simp]: "dec f a \<le> dec f b \<longleftrightarrow> a \<le> b"
  by (simp add: dec_def)

lemma dec_less_iff [simp]: "dec f a < dec f b \<longleftrightarrow> a < b"
  by (simp add: dec_def fdec_less_iff)

lemma dec_0 [simp]: "dec f 0 = 0"
  by (simp add: dec_def)

lemma dec_eq_0_iff [simp]: "dec f a = 0 \<longleftrightarrow> a = 0"
  by (simp add: dec_def)

lemma dec_pos_iff [simp]: "0 < dec f a \<longleftrightarrow> 0 < a"
  by (metis dec_eq_0_iff neq0_conv)

lemma enc_0 [simp]: "enc f 0 d = 0"
  by (cases "d = 0") (simp_all add: enc_def fround_def rne_def Let_def)

lemma sticky_sqrt_mono: "m \<le> n \<Longrightarrow> sticky_sqrt m \<le> sticky_sqrt n"
proof -
  assume le: "m \<le> n"
  define a b where "a = isqrt (4 * m)" and "b = isqrt (4 * n)"
  have ab: "a \<le> b" using le by (simp add: a_def b_def isqrt_mono)
  have b: "b * b \<le> 4 * n" using isqrt_bounds [of "4 * n"] by (simp add: b_def)
  show ?thesis
  proof (cases "a = b")
    case True
    have "a * a < 4 * m \<Longrightarrow> b * b < 4 * n" using le True by simp
    then show ?thesis using True unfolding sticky_sqrt_def Let_def a_def [symmetric] b_def [symmetric]
      by auto
  next
    case False
    with ab have "Suc a \<le> b" by simp
    then show ?thesis unfolding sticky_sqrt_def Let_def a_def [symmetric] b_def [symmetric]
      by auto
  qed
qed

section \<open>Packing\<close>

lemma snd_unpack32 [simp]: "snd (unpack32 x) < 2147483648"
  by (simp add: unpack32_def)

lemma unpack_pack32 [simp]:
  assumes "m < 2147483648" shows "unpack32 (pack32 (s, m)) = (s, m)"
proof -
  have "of_bool s * 2 ^ 31 + m < 2 ^ 32" using assms by auto
  then have "unat (pack32 (s, m)) = of_bool s * 2 ^ 31 + m"
    by (simp only: pack32_def unat_of_nat fst_conv snd_conv) (simp del: of_nat_add)
  then show ?thesis using assms by (auto simp: unpack32_def)
qed

lemma pack_unpack32 [simp]: "pack32 (unpack32 x) = x"
proof -
  have "unat x < 2 ^ 32" by (rule unat_u32_lt)
  then have "of_bool (2 ^ 31 \<le> unat x) * 2 ^ 31 + unat x mod 2 ^ 31 = unat x"
    by (simp add: mod_if [of "unat x"] mod_if [of "unat x - 2147483648"]) linarith
  then show ?thesis
    by (simp only: pack32_def unpack32_def fst_conv snd_conv) (simp del: of_nat_add of_nat_mult)
qed

lemma enc32_less [simp]: "enc binary32 n d < 2147483648"
  by (rule le_less_trans [OF enc_le_infm]) simp

lemma f32_cases:
  obtains s a where "unpack32 x = (s, a)" "x = pack32 (s, a)" "a < 2147483648"
  by (metis pack_unpack32 snd_unpack32 snd_conv surj_pair)

end
