(* ===== verification/Errors.thy ===== *)
theory Errors
  imports Text Floats
begin

text \<open>
  \<open>src/error.rs\<close>: the error type of the crate and its display strings. An error value of
  another crate is kept by its own text (\<open>capnp::Error\<close> apart, which the handlers also
  construct); how those crates and the float formatter print is a parameter.
\<close>

datatype io_error = IoError string
datatype capnp_error = Failed string | Foreign string
datatype not_in_schema = NotInSchemaValue u16

datatype aptp_error =
    Io io_error
  | Rpc capnp_error
  | NotInSchema not_in_schema
  | HandshakeRejected string
  | VersionMismatch u32 u32
  | OffManifold f32 f32
  | ProvenanceMismatch
  | FairnessBelowThreshold f32 f32
  | IncompatibleDimensions u32 u32
  | AdapterNotReady
  | Config string
  | BackendNotAvailable string
  | Internal string

type_synonym 'a result = "('a, aptp_error) outcome"

text \<open>How foreign values print: \<open>Display\<close> of the other crates, and \<open>{x:.N}\<close> of a float.\<close>

record display_env =
  show_io :: "io_error \<Rightarrow> string"
  show_capnp :: "capnp_error \<Rightarrow> string"
  show_not_in_schema :: "not_in_schema \<Rightarrow> string"
  show_float :: "nat \<Rightarrow> f32 \<Rightarrow> string"

fun aptp_display :: "display_env \<Rightarrow> aptp_error \<Rightarrow> string" where
  "aptp_display D (Io e) = ''TCP bind/connect failed: '' @ show_io D e"
| "aptp_display D (Rpc e) = ''Cap'' @ [CHR 0x27] @ ''n Proto RPC error: '' @ show_capnp D e"
| "aptp_display D (NotInSchema e) = ''Not in schema: '' @ show_not_in_schema D e"
| "aptp_display D (HandshakeRejected reason) = ''Handshake rejected by peer: '' @ reason"
| "aptp_display D (VersionMismatch local_v remote_v) =
     ''Protocol version mismatch: local='' @ show_u32 local_v @ '', remote='' @ show_u32 remote_v"
| "aptp_display D (OffManifold l2 cosine) =
     ''NeuralFirewall: off-manifold injection detected (l2='' @ show_float D 4 l2 @
     '', cosine='' @ show_float D 4 cosine @ '')''"
| "aptp_display D ProvenanceMismatch = ''NeuralFirewall: provenance hash mismatch''"
| "aptp_display D (FairnessBelowThreshold score threshold) =
     ''NeuralFirewall: fairness score below threshold ('' @ show_float D 3 score @
     '' < '' @ show_float D 3 threshold @ '')''"
| "aptp_display D (IncompatibleDimensions src dst) =
     ''ManifoldAdapter: incompatible dimensions (src='' @ show_u32 src @
     '', dst='' @ show_u32 dst @ '')''"
| "aptp_display D AdapterNotReady = ''ManifoldAdapter: adapter weights not yet negotiated''"
| "aptp_display D (Config s) = ''Configuration error: '' @ s"
| "aptp_display D (BackendNotAvailable s) = ''Backend not available: '' @ s"
| "aptp_display D (Internal s) = ''Internal error: '' @ s"

text \<open>
  The conversions of the question mark operator: \<open>#[from] ::capnp::Error\<close> in functions
  that return \<open>Result\<close> of the crate, and \<open>map_err(|e| Error::failed(e.to_string()))\<close>
  in the RPC methods.
\<close>

fun getter :: "capnp_error + 'a \<Rightarrow> 'a result" where
  "getter (Inl e) = Err (Rpc e)"
| "getter (Inr x) = Ok x"

definition text_of :: "string \<Rightarrow> string result" where
  "text_of s = map_err (\<lambda>e. Internal (show_utf8_error e)) (to_str s)"

fun rpc_getter :: "display_env \<Rightarrow> capnp_error + 'a \<Rightarrow> ('a, capnp_error) outcome" where
  "rpc_getter D (Inl e) = Err (Failed (show_capnp D e))"
| "rpc_getter D (Inr x) = Ok x"

definition rpc_result :: "display_env \<Rightarrow> 'a result \<Rightarrow> ('a, capnp_error) outcome" where
  "rpc_result D m = map_err (\<lambda>e. Failed (aptp_display D e)) m"

lemma getter_Ok_iff [simp]: "getter g = Ok x \<longleftrightarrow> g = Inr x"
  by (cases g) auto

lemma getter_returns [simp]: "returns (getter g)"
  by (cases g) auto

lemma text_of_Ok_iff [simp]: "text_of s = Ok t \<longleftrightarrow> utf8 s \<and> t = s"
  by (auto simp: text_of_def)

lemma text_of_utf8 [simp]: "utf8 s \<Longrightarrow> text_of s = Ok s"
  by simp

lemma text_of_returns [simp]: "returns (text_of s)"
  by (simp add: text_of_def)

lemma rpc_getter_Ok_iff [simp]: "rpc_getter D g = Ok x \<longleftrightarrow> g = Inr x"
  by (cases g) auto

lemma rpc_getter_returns [simp]: "returns (rpc_getter D g)"
  by (cases g) auto

lemma rpc_result_Ok_iff [simp]: "rpc_result D m = Ok x \<longleftrightarrow> m = Ok x"
  by (simp add: rpc_result_def)

lemma rpc_result_returns [simp]: "returns (rpc_result D m) = returns m"
  by (simp add: rpc_result_def)

lemma rpc_result_simps [simp]:
  "rpc_result D (Ok x) = Ok x" "rpc_result D (Err e) = Err (Failed (aptp_display D e))"
  by (simp_all add: rpc_result_def)

text \<open>The decimal printer is injective on the two versions of a mismatch.\<close>

lemma show_digits_nonempty [simp]: "show_digits n \<noteq> []"
  by (subst show_digits.simps) simp

end
