(* ===== verification/Config.thy ===== *)
theory Config
  imports Errors
begin

text \<open>
  \<open>src/config.rs\<close>: the configuration records, the defaults of the optional TOML keys, and
  \<open>AptpConfig::from_toml_file\<close> over the file read and the TOML parser.
\<close>

record tls_config =
  cert_pem_path :: string
  key_pem_path :: string
  ca_pem_path :: "string option"

record transport_config =
  bind_addr :: string
  connect_timeout_ms :: u64
  max_frame_bytes :: usize
  tls :: "tls_config option"

record validation_config =
  l2_norm_max :: f32
  cosine_sim_min :: f32
  fairness_threshold :: f32
  probe_vectors_path :: "string option"

record adapter_config =
  allow_dimension_mismatch_passthrough :: bool

record agent_config =
  cfg_agent_id :: string
  cfg_model_family :: string
  cfg_hidden_size :: u32
  cfg_num_layers :: u32
  cfg_num_heads :: u32
  cfg_vocab_size :: u32
  cfg_aptp_version :: u32

record backend_config =
  model_path :: string
  n_gpu_layers :: u32
  cfg_n_ctx :: u32
  enable_embeddings :: bool

record aptp_config =
  cfg_transport :: transport_config
  cfg_validation :: validation_config
  cfg_adapter :: adapter_config
  cfg_agent :: agent_config
  cfg_backend :: "backend_config option"

definition default_gpu_layers :: u32 where
  "default_gpu_layers = 0"

definition default_n_ctx :: u32 where
  "default_n_ctx = 2048"

text \<open>
  The \<open>[backend]\<close> table as the TOML parser reads it: \<open>model_path\<close> is required, the
  other keys carry \<open>#[serde(default)]\<close>; the whole table may be absent.
\<close>

record raw_backend =
  raw_model_path :: string
  raw_n_gpu_layers :: "u32 option"
  raw_n_ctx :: "u32 option"
  raw_enable_embeddings :: "bool option"

definition backend_of_raw :: "raw_backend \<Rightarrow> backend_config" where
  "backend_of_raw r =
     \<lparr>model_path = raw_model_path r,
      n_gpu_layers = (case raw_n_gpu_layers r of None \<Rightarrow> default_gpu_layers | Some n \<Rightarrow> n),
      cfg_n_ctx = (case raw_n_ctx r of None \<Rightarrow> default_n_ctx | Some n \<Rightarrow> n),
      enable_embeddings = (case raw_enable_embeddings r of None \<Rightarrow> False | Some b \<Rightarrow> b)\<rparr>"

text \<open>
  \<open>read\<close> is \<open>std::fs::read_to_string\<close> (its error by its text), \<open>parse\<close> the TOML
  parser with the derived deserializer.
\<close>

definition from_toml_file ::
  "(string \<Rightarrow> string + string) \<Rightarrow> (string \<Rightarrow> string + aptp_config) \<Rightarrow> string \<Rightarrow> aptp_config result"
where
  "from_toml_file read parse path =
     (case read path of
        Inl e \<Rightarrow> Err (Config e)
      | Inr raw \<Rightarrow> (case parse raw of Inl e \<Rightarrow> Err (Config e) | Inr cfg \<Rightarrow> Ok cfg))"

end
