(* ===== verification/Float_Facts.thy ===== *)
theory Float_Facts
  imports Floats
begin

text \<open>
  What the components rely on: NaN propagates through every operation, sums and roots of
  non-negative values are monotone in the key order, and products and quotients stay
  inside the bounds that the exact results respect.
\<close>

section \<open>Unpacking an operation\<close>

lemma enc32_le [simp]: "enc binary32 n d \<le> 2139095040"
  using enc_le_infm [of binary32 n d] by simp

lemma enc32_not_nan [simp]: "\<not> 2139095040 < enc binary32 n d"
  by (simp add: not_less)

lemma int_add_eq_0 [simp]: "int m + int n = 0 \<longleftrightarrow> m = 0 \<and> n = 0"
  by linarith

lemma fracw32 [simp]: "fracw binary32 = 23"
  by (simp add: binary32_def)

lemma scale32 [simp]: "scale binary32 = 149"
  by (simp add: binary32_def)

lemma unpack_pack32': "snd p < 2147483648 \<Longrightarrow> unpack32 (pack32 p) = p"
  by (cases p) simp

lemma snd_sm_neg [simp]: "snd (sm_neg p) = snd p"
  by (cases p) simp

lemma sm_add32_bound:
  "snd p < 2147483648 \<Longrightarrow> snd q < 2147483648 \<Longrightarrow> snd (sm_add binary32 p q) < 2147483648"
  by (cases p; cases q) (simp add: qnan_def Let_def)

lemma sm_mul32_bound: "snd (sm_mul binary32 p q) < 2147483648"
  by (cases p; cases q) (simp add: qnan_def)

lemma sm_div32_bound: "snd (sm_div binary32 p q) < 2147483648"
  by (cases p; cases q) (simp add: qnan_def)

lemma sm_sqrt32_bound: "snd (sm_sqrt binary32 p) < 2147483648"
  by (cases p) (simp add: qnan_def)

lemma unpack_f32_add: "unpack32 (f32_add x y) = sm_add binary32 (unpack32 x) (unpack32 y)"
  unfolding f32_add_def by (rule unpack_pack32') (simp add: sm_add32_bound)

lemma unpack_f32_sub: "unpack32 (f32_sub x y) = sm_add binary32 (unpack32 x) (sm_neg (unpack32 y))"
  unfolding f32_sub_def by (rule unpack_pack32') (simp add: sm_add32_bound)

lemma unpack_f32_mul: "unpack32 (f32_mul x y) = sm_mul binary32 (unpack32 x) (unpack32 y)"
  unfolding f32_mul_def by (rule unpack_pack32') (simp add: sm_mul32_bound)

lemma unpack_f32_div: "unpack32 (f32_div x y) = sm_div binary32 (unpack32 x) (unpack32 y)"
  unfolding f32_div_def by (rule unpack_pack32') (simp add: sm_div32_bound)

lemma unpack_f32_sqrt: "unpack32 (f32_sqrt x) = sm_sqrt binary32 (unpack32 x)"
  unfolding f32_sqrt_def by (rule unpack_pack32') (simp add: sm_sqrt32_bound)

lemma unpack_f32_of_nat:
  "unpack32 (f32_of_nat n) = (False, enc binary32 (n * 2 ^ 149) 1)"
  unfolding f32_of_nat_def by (simp add: unpack_pack32')

lemma unpack_f32_lit:
  "unpack32 (f32_lit n d) = (False, enc binary32 (n * 2 ^ 149) d)"
  unfolding f32_lit_def by (simp add: unpack_pack32')

lemmas unpack_ops =
  unpack_f32_add unpack_f32_sub unpack_f32_mul unpack_f32_div unpack_f32_sqrt
  unpack_f32_of_nat unpack_f32_lit

lemmas class_defs = f32_is_nan_def f32_is_finite_def f32_is_inf_def f32_nonneg_def f32_key_def

section \<open>NaN\<close>

lemma nan_add: "f32_is_nan (f32_add x y)" if "f32_is_nan x \<or> f32_is_nan y"
  using that by (cases x rule: f32_cases; cases y rule: f32_cases)
    (auto simp: f32_is_nan_def unpack_ops qnan_def)

lemma nan_mul: "f32_is_nan (f32_mul x y)" if "f32_is_nan x \<or> f32_is_nan y"
  using that by (cases x rule: f32_cases; cases y rule: f32_cases)
    (auto simp: f32_is_nan_def unpack_ops qnan_def)

lemma nan_div: "f32_is_nan (f32_div x y)" if "f32_is_nan x \<or> f32_is_nan y"
  using that by (cases x rule: f32_cases; cases y rule: f32_cases)
    (auto simp: f32_is_nan_def unpack_ops qnan_def)

lemma nan_sqrt: "f32_is_nan x \<Longrightarrow> f32_is_nan (f32_sqrt x)"
  by (cases x rule: f32_cases) (auto simp: f32_is_nan_def unpack_ops qnan_def)

lemma nan_not_less: "f32_is_nan x \<or> f32_is_nan y \<Longrightarrow> \<not> f32_less x y"
  by (cases x rule: f32_cases; cases y rule: f32_cases) (auto simp: f32_is_nan_def f32_less_def)

lemma nan_sum_start: "f32_is_nan a \<Longrightarrow> f32_is_nan (foldl f32_add a xs)"
  by (induction xs arbitrary: a) (auto intro: nan_add)

lemma nan_sum: "x \<in> set xs \<Longrightarrow> f32_is_nan x \<Longrightarrow> f32_is_nan (foldl f32_add a xs)"
  by (induction xs arbitrary: a) (auto intro: nan_add nan_sum_start)

lemma nan_norm: "x \<in> set v \<Longrightarrow> f32_is_nan x \<Longrightarrow> f32_is_nan (f32_norm v)"
  unfolding f32_norm_def f32_sum_def
  by (rule nan_sqrt, rule nan_sum [where x = "f32_mul x x"]) (auto intro: nan_mul)

section \<open>Order\<close>

lemma f32_less_iff:
  "f32_less x y \<longleftrightarrow> \<not> f32_is_nan x \<and> \<not> f32_is_nan y \<and> f32_key x < f32_key y"
  by (cases x rule: f32_cases; cases y rule: f32_cases)
    (auto simp: f32_less_def f32_is_nan_def f32_key_def not_less)

lemma f32_less_irrefl [simp]: "\<not> f32_less x x"
  by (simp add: f32_less_iff)

lemma f32_less_trans: "f32_less x y \<Longrightarrow> f32_less y z \<Longrightarrow> f32_less x z"
  by (auto simp: f32_less_iff)

section \<open>Sums and roots of non-negative values\<close>

text \<open>A non-negative value is \<open>-0\<close> or has no sign.\<close>

lemma nonneg_unpack:
  "f32_nonneg x \<longleftrightarrow> (\<exists>s a. unpack32 x = (s, a) \<and> a \<le> infm binary32 \<and> (s \<longrightarrow> a = 0))"
  by (cases x rule: f32_cases) (auto simp: class_defs signed_def)

lemma nonneg_key: "unpack32 x = (s, a) \<Longrightarrow> s \<longrightarrow> a = 0 \<Longrightarrow> f32_key x = int a"
  by (auto simp: f32_key_def signed_def)

lemma nonneg_add:
  assumes "f32_nonneg x" "f32_nonneg y"
  shows "f32_nonneg (f32_add x y)" and "f32_key x \<le> f32_key (f32_add x y)"
    and "f32_key y \<le> f32_key (f32_add x y)"
proof -
  obtain s a t b where x: "unpack32 x = (s, a)" "a \<le> infm binary32" "s \<longrightarrow> a = 0"
    and y: "unpack32 y = (t, b)" "b \<le> infm binary32" "t \<longrightarrow> b = 0"
    using assms unfolding nonneg_unpack by blast
  have k: "signed s (dec binary32 a) + signed t (dec binary32 b) = int (dec binary32 a + dec binary32 b)"
    using x(3) y(3) by (auto simp: signed_def)
  obtain r c where u: "unpack32 (f32_add x y) = (r, c)" "c \<le> infm binary32" "r \<longrightarrow> c = 0" "a \<le> c" "b \<le> c"
  proof (cases "a = infm binary32 \<or> b = infm binary32 \<or> dec binary32 a + dec binary32 b = 0")
    case True
    then show ?thesis using that x y k by (auto simp: unpack_ops)
  next
    case False
    have "a \<le> enc binary32 (dec binary32 a + dec binary32 b) 1"
      "b \<le> enc binary32 (dec binary32 a + dec binary32 b) 1"
      using x y by (auto intro!: enc_ge)
    moreover have "unpack32 (f32_add x y) = (False, enc binary32 (dec binary32 a + dec binary32 b) 1)"
      using x y k False by (auto simp: unpack_ops Let_def nat_add_distrib)
    ultimately show ?thesis using that by (metis enc_le_infm)
  qed
  show "f32_nonneg (f32_add x y)" using u unfolding nonneg_unpack by blast
  show "f32_key x \<le> f32_key (f32_add x y)" "f32_key y \<le> f32_key (f32_add x y)"
    using u x y by (simp_all add: nonneg_key)
qed

lemma nonneg_add_mono:
  assumes "f32_nonneg x" "f32_nonneg x'" "f32_nonneg y" "f32_key x \<le> f32_key x'"
  shows "f32_key (f32_add x y) \<le> f32_key (f32_add x' y)"
proof -
  have add: "f32_key (f32_add u y) =
      (if a = infm binary32 \<or> b = infm binary32 then int (infm binary32)
       else int (enc binary32 (dec binary32 a + dec binary32 b) 1))"
    if u: "unpack32 u = (s, a)" "a \<le> infm binary32" "s \<longrightarrow> a = 0"
      and y: "unpack32 y = (t, b)" "b \<le> infm binary32" "t \<longrightarrow> b = 0" for u s a t b
    using u y by (cases s; cases t) (auto simp: f32_key_def unpack_ops signed_def Let_def nat_add_distrib)
  obtain s a where x: "unpack32 x = (s, a)" "a \<le> infm binary32" "s \<longrightarrow> a = 0"
    using assms(1) unfolding nonneg_unpack by blast
  obtain s' a' where x': "unpack32 x' = (s', a')" "a' \<le> infm binary32" "s' \<longrightarrow> a' = 0"
    using assms(2) unfolding nonneg_unpack by blast
  obtain t b where y: "unpack32 y = (t, b)" "b \<le> infm binary32" "t \<longrightarrow> b = 0"
    using assms(3) unfolding nonneg_unpack by blast
  have "a \<le> a'" using assms(4) x x' by (simp add: nonneg_key)
  then have "enc binary32 (dec binary32 a + dec binary32 b) 1
      \<le> enc binary32 (dec binary32 a' + dec binary32 b) 1"
    by (intro enc_mono) auto
  moreover have "enc binary32 n 1 \<le> infm binary32" for n by (rule enc_le_infm)
  ultimately show ?thesis
    using add [OF x y] add [OF x' y] \<open>a \<le> a'\<close> x'(2) by auto
qed

lemma nonneg_square: "\<not> f32_is_nan x \<Longrightarrow> f32_nonneg (f32_mul x x)"
  by (cases x rule: f32_cases) (auto simp: class_defs unpack_ops signed_def)

lemma nonneg_sqrt: "f32_nonneg x \<Longrightarrow> f32_nonneg (f32_sqrt x)"
  by (cases x rule: f32_cases) (auto simp: class_defs unpack_ops signed_def split: if_splits)

lemma sqrt_mono:
  assumes "f32_nonneg x" "f32_nonneg y" "f32_key x \<le> f32_key y"
  shows "f32_key (f32_sqrt x) \<le> f32_key (f32_sqrt y)"
proof -
  have root: "f32_key (f32_sqrt u) =
      (if a = 0 then 0 else if a = infm binary32 then int (infm binary32)
       else int (enc binary32 (sticky_sqrt (dec binary32 a * 2 ^ 149)) 4))"
    if "unpack32 u = (s, a)" "a \<le> infm binary32" "s \<longrightarrow> a = 0" for u s a
    using that by (auto simp: f32_key_def unpack_ops signed_def)
  obtain s a where x: "unpack32 x = (s, a)" "a \<le> infm binary32" "s \<longrightarrow> a = 0"
    using assms(1) unfolding nonneg_unpack by blast
  obtain t b where y: "unpack32 y = (t, b)" "b \<le> infm binary32" "t \<longrightarrow> b = 0"
    using assms(2) unfolding nonneg_unpack by blast
  have "a \<le> b" using assms(3) x y by (simp add: nonneg_key)
  then have "enc binary32 (sticky_sqrt (dec binary32 a * 2 ^ 149)) 4
      \<le> enc binary32 (sticky_sqrt (dec binary32 b * 2 ^ 149)) 4"
    by (intro enc_mono mult_le_mono sticky_sqrt_mono) auto
  moreover have "enc binary32 n 4 \<le> infm binary32" for n by (rule enc_le_infm)
  ultimately show ?thesis using root [OF x] root [OF y] \<open>a \<le> b\<close> y(2) by auto
qed

lemma sqrt_inf: "f32_nonneg x \<Longrightarrow> f32_is_inf x \<Longrightarrow> f32_is_inf (f32_sqrt x)"
  by (auto simp: nonneg_unpack unpack_ops f32_is_inf_def)

lemma square_inf: "f32_is_inf x \<Longrightarrow> f32_is_inf (f32_mul x x)"
  by (cases x rule: f32_cases) (auto simp: unpack_ops f32_is_inf_def)

lemma nonneg_key_le: "f32_nonneg x \<Longrightarrow> f32_key x \<le> int (infm binary32)"
  by (auto simp: nonneg_unpack nonneg_key)

lemma nonneg_inf_iff: "f32_nonneg x \<Longrightarrow> f32_is_inf x \<longleftrightarrow> f32_key x = int (infm binary32)"
  by (auto simp: nonneg_unpack nonneg_key f32_is_inf_def simp del: infm32)

section \<open>The L2 norm of a vector without NaN\<close>

lemma neg_zero_nonneg [simp]: "f32_nonneg f32_neg_zero"
  by (simp add: float_eval)

lemma sum_from_nonneg:
  "f32_nonneg a \<Longrightarrow> \<forall>x \<in> set xs. f32_nonneg x \<Longrightarrow>
     f32_nonneg (foldl f32_add a xs) \<and> f32_key a \<le> f32_key (foldl f32_add a xs) \<and>
     (\<forall>x \<in> set xs. f32_key x \<le> f32_key (foldl f32_add a xs))"
proof (induction xs arbitrary: a)
  case (Cons y ys)
  have y: "f32_nonneg y" using Cons.prems by simp
  note step = nonneg_add [OF Cons.prems(1) y]
  have "f32_nonneg (foldl f32_add (f32_add a y) ys) \<and>
      f32_key (f32_add a y) \<le> f32_key (foldl f32_add (f32_add a y) ys) \<and>
      (\<forall>x \<in> set ys. f32_key x \<le> f32_key (foldl f32_add (f32_add a y) ys))"
    using Cons.prems step by (intro Cons.IH) auto
  then show ?case using step by auto
qed simp

lemma squares_nonneg:
  "\<forall>x \<in> set v. \<not> f32_is_nan x \<Longrightarrow> \<forall>y \<in> set (map (\<lambda>x. f32_mul x x) v). f32_nonneg y"
  by (auto intro: nonneg_square)

lemma norm_nonneg: "\<forall>x \<in> set v. \<not> f32_is_nan x \<Longrightarrow> f32_nonneg (f32_norm v)"
  unfolding f32_norm_def f32_sum_def
  by (intro nonneg_sqrt) (use sum_from_nonneg [OF neg_zero_nonneg squares_nonneg] in blast)

lemma norm_nan_iff: "f32_is_nan (f32_norm v) \<longleftrightarrow> (\<exists>x \<in> set v. f32_is_nan x)"
  using norm_nonneg [of v] nan_norm [of _ v] by (auto simp: f32_nonneg_def)

text \<open>Appending elements never lowers the norm, and no element's root of its square exceeds it.\<close>

lemma norm_append:
  assumes "\<forall>x \<in> set (v @ w). \<not> f32_is_nan x"
  shows "f32_key (f32_norm v) \<le> f32_key (f32_norm (v @ w))"
proof -
  have v: "\<forall>x \<in> set v. \<not> f32_is_nan x" and w: "\<forall>x \<in> set w. \<not> f32_is_nan x"
    using assms by auto
  let ?sq = "map (\<lambda>x. f32_mul x x)"
  have a: "f32_nonneg (foldl f32_add f32_neg_zero (?sq v))"
    using sum_from_nonneg [OF neg_zero_nonneg squares_nonneg [OF v]] by blast
  show ?thesis unfolding f32_norm_def f32_sum_def map_append foldl_append
    using a sum_from_nonneg [OF a squares_nonneg [OF w]] by (intro sqrt_mono) auto
qed

lemma norm_element:
  assumes "\<forall>x \<in> set v. \<not> f32_is_nan x" "x \<in> set v"
  shows "f32_key (f32_sqrt (f32_mul x x)) \<le> f32_key (f32_norm v)"
  unfolding f32_norm_def f32_sum_def
  using sum_from_nonneg [OF neg_zero_nonneg squares_nonneg [OF assms(1)]] assms
  by (intro sqrt_mono) (auto intro: nonneg_square)

lemma norm_inf:
  assumes "\<forall>x \<in> set v. \<not> f32_is_nan x" "x \<in> set v" "f32_is_inf x"
  shows "f32_is_inf (f32_norm v)"
proof -
  have n: "f32_nonneg (f32_mul x x)" using assms by (auto intro: nonneg_square)
  have "f32_is_inf (f32_sqrt (f32_mul x x))"
    using n assms(3) by (intro sqrt_inf square_inf)
  then have "f32_key (f32_sqrt (f32_mul x x)) = int (infm binary32)"
    using nonneg_sqrt [OF n] by (simp only: nonneg_inf_iff)
  then show ?thesis
    using norm_element [OF assms(1,2)] nonneg_key_le norm_nonneg [OF assms(1)]
    by (metis antisym nonneg_inf_iff)
qed

end
