(* ===== verification/Adapters.thy ===== *)
theory Adapters
  imports Config Float_Facts
begin

text \<open>
  \<open>src/adapter\<close>: the adapter trait, the two implementations and the factory \<open>from_spec\<close>.
  The trait is a locale: an adapter object that satisfies its own invariant maps a vector
  of its source dimension to a vector of its target dimension and never panics.
\<close>

datatype adapter_variant = Identity | LinearProjection | NormMatch

section \<open>The linear projection\<close>

record linear_adapter =
  lin_source_dim :: usize
  lin_target_dim :: usize
  lin_weights :: "f32 list"

definition u32_of_usize :: "usize \<Rightarrow> u32" where
  "u32_of_usize x = ucast x"

text \<open>\<open>source_dim * target_dim\<close> wraps around in the release profile.\<close>

definition linear_new :: "usize \<Rightarrow> usize \<Rightarrow> f32 list \<Rightarrow> linear_adapter result" where
  "linear_new source_dim target_dim weights =
     (let expected = source_dim * target_dim
      in if length weights \<noteq> unat expected
         then Err (IncompatibleDimensions (u32_of_usize source_dim) (u32_of_usize target_dim))
         else Ok \<lparr>lin_source_dim = source_dim, lin_target_dim = target_dim, lin_weights = weights\<rparr>)"

definition dot :: "f32 list \<Rightarrow> f32 list \<Rightarrow> f32" where
  "dot ws xs = f32_sum (map (\<lambda>(w, x). f32_mul w x) (zip ws xs))"

fun adapt_rows :: "linear_adapter \<Rightarrow> f32 list \<Rightarrow> nat list \<Rightarrow> f32 list \<Rightarrow> f32 list result" where
  "adapt_rows a input [] output = Ok output"
| "adapt_rows a input (i # is) output =
     (let row_start = word_of_nat i * lin_source_dim a
      in and_then (slice (lin_weights a) (unat row_start) (unat (row_start + lin_source_dim a)))
           (\<lambda>row. adapt_rows a input is (output[i := dot row input])))"

definition linear_adapt :: "linear_adapter \<Rightarrow> f32 list \<Rightarrow> f32 list result" where
  "linear_adapt a input =
     (if length input \<noteq> unat (lin_source_dim a)
      then Err (IncompatibleDimensions (len32 input) (u32_of_usize (lin_source_dim a)))
      else and_then (alloc_f32 (unat (lin_target_dim a))) (\<lambda>_.
             adapt_rows a input [0 ..< unat (lin_target_dim a)]
               (replicate (unat (lin_target_dim a)) 0)))"

section \<open>Norm matching\<close>

record norm_match_adapter =
  nm_dim :: usize
  nm_target_norm :: f32

definition f32_one :: f32 where
  "f32_one = 0x3F800000"

definition norm_match_adapt :: "norm_match_adapter \<Rightarrow> f32 list \<Rightarrow> f32 list result" where
  "norm_match_adapt a input =
     (let current_norm = f32_norm input;
          scale = (if f32_less (f32_lit 1 (10 ^ 9)) current_norm
                   then f32_div (nm_target_norm a) current_norm else f32_one)
      in Ok (map (\<lambda>x. f32_mul x scale) input))"

section \<open>The trait object and the factory\<close>

datatype adapter_obj = Linear linear_adapter | Norm norm_match_adapter

fun source_dim :: "adapter_obj \<Rightarrow> usize" where
  "source_dim (Linear a) = lin_source_dim a"
| "source_dim (Norm a) = nm_dim a"

fun target_dim :: "adapter_obj \<Rightarrow> usize" where
  "target_dim (Linear a) = lin_target_dim a"
| "target_dim (Norm a) = nm_dim a"

fun adapt :: "adapter_obj \<Rightarrow> f32 list \<Rightarrow> f32 list result" where
  "adapt (Linear a) input = linear_adapt a input"
| "adapt (Norm a) input = norm_match_adapt a input"

fun from_spec :: "adapter_variant \<Rightarrow> usize \<Rightarrow> usize \<Rightarrow> f32 list \<Rightarrow> adapter_obj result" where
  "from_spec Identity s t weights = Ok (Norm \<lparr>nm_dim = s, nm_target_norm = f32_one\<rparr>)"
| "from_spec LinearProjection s t weights = and_then (linear_new s t weights) (\<lambda>a. Ok (Linear a))"
| "from_spec NormMatch s t weights =
     (let target_norm = (if length weights = 1 then weights ! 0 else f32_one)
      in Ok (Norm \<lparr>nm_dim = s, nm_target_norm = target_norm\<rparr>))"

section \<open>The contract of the trait\<close>

locale manifold_adapter =
  fixes ok :: "'a \<Rightarrow> bool"
    and src_dim tgt_dim :: "'a \<Rightarrow> usize"
    and run :: "'a \<Rightarrow> f32 list \<Rightarrow> f32 list result"
  assumes run_ok: "ok a \<Longrightarrow> length x = unat (src_dim a) \<Longrightarrow>
      \<exists>y. run a x = Ok y \<and> length y = unat (tgt_dim a)"
    and run_total: "ok a \<Longrightarrow> returns (run a x)"
begin

lemma run_length: "ok a \<Longrightarrow> length x = unat (src_dim a) \<Longrightarrow> run a x = Ok y \<Longrightarrow>
    length y = unat (tgt_dim a)"
  using run_ok by fastforce

text \<open>Two adapters whose dimensions meet compose.\<close>

lemma run_chain:
  assumes "ok a" "ok b" "tgt_dim a = src_dim b" "length x = unat (src_dim a)"
  shows "\<exists>y. and_then (run a x) (run b) = Ok y \<and> length y = unat (tgt_dim b)"
  using run_ok [OF assms(1,4)] run_ok [OF assms(2)] assms(3) by force

text \<open>A whole pipeline of adapters.\<close>

lemma run_pipeline:
  "\<lbrakk>\<forall>a \<in> set as. ok a \<and> src_dim a = d \<and> tgt_dim a = d; length x = unat d\<rbrakk> \<Longrightarrow>
     \<exists>y. foldl (\<lambda>m a. and_then m (run a)) (Ok x) as = Ok y \<and> length y = unat d"
proof (induction "as" arbitrary: x)
  case (Cons a "as")
  then obtain y where "run a x = Ok y" "length y = unat d"
    using run_ok [of a x] by auto
  then show ?case using Cons by simp
qed simp

end

text \<open>
  A linear adapter is sound when its weights fill the matrix without wrap-around and its
  output vector can be allocated.
\<close>

definition linear_ok :: "linear_adapter \<Rightarrow> bool" where
  "linear_ok a \<longleftrightarrow>
     length (lin_weights a) = unat (lin_source_dim a) * unat (lin_target_dim a) \<and>
     unat (lin_source_dim a) * unat (lin_target_dim a) < 2 ^ 64 \<and>
     unat (lin_target_dim a) < 2 ^ 61"

fun adapter_ok :: "adapter_obj \<Rightarrow> bool" where
  "adapter_ok (Linear a) \<longleftrightarrow> linear_ok a"
| "adapter_ok (Norm a) \<longleftrightarrow> True"

text \<open>The rows as the source cuts them, without machine arithmetic.\<close>

definition matrix_row :: "linear_adapter \<Rightarrow> nat \<Rightarrow> f32 list" where
  "matrix_row a i = take (unat (lin_source_dim a)) (drop (i * unat (lin_source_dim a)) (lin_weights a))"

lemma row_slice:
  assumes "linear_ok a" "i < unat (lin_target_dim a)"
  defines "r \<equiv> word_of_nat i * lin_source_dim a"
  shows "slice (lin_weights a) (unat r) (unat (r + lin_source_dim a)) = Ok (matrix_row a i)"
proof -
  let ?s = "unat (lin_source_dim a)" and ?t = "unat (lin_target_dim a)"
  have i64: "i < 2 ^ 64" using assms(2) unat_u64_lt [of "lin_target_dim a"] by linarith
  have le: "i * ?s + ?s \<le> ?s * ?t"
    using assms(2) mult_le_mono1 [of "Suc i" ?t ?s] by (simp add: mult.commute)
  then have lt: "i * ?s + ?s < 2 ^ 64" using assms(1) by (simp add: linear_ok_def)
  have iw: "unat (word_of_nat i :: usize) = i" using i64 by (simp add: unat_of_nat)
  have r: "unat r = i * ?s" unfolding r_def using iw lt by (simp add: unat_word_ariths)
  moreover have "unat (r + lin_source_dim a) = i * ?s + ?s"
    using r lt by (simp add: unat_word_ariths)
  ultimately show ?thesis
    using le assms(1) by (simp add: slice_def matrix_row_def linear_ok_def)
qed

lemma adapt_rows_eq:
  assumes "linear_ok a" "\<forall>i \<in> set is. i < unat (lin_target_dim a)"
  shows "adapt_rows a x is out = Ok (fold (\<lambda>i out. out[i := dot (matrix_row a i) x]) is out)"
  using assms(2)
proof (induction "is" arbitrary: out)
  case (Cons i "is")
  then show ?case by (simp add: Let_def row_slice [OF assms(1)])
qed simp

lemma fold_update_upt:
  "n \<le> length out \<Longrightarrow>
     fold (\<lambda>i out. out[i := f i]) [0 ..< n] out = map f [0 ..< n] @ drop n out"
proof (induction n)
  case (Suc n)
  then obtain d ds where "drop n out = d # ds" "ds = drop (Suc n) out"
    by (metis Cons_nth_drop_Suc Suc_le_lessD)
  then show ?case using Suc by (simp add: list_update_append)
qed simp

lemma linear_adapt_eq:
  assumes "linear_ok a" "length x = unat (lin_source_dim a)"
  shows "linear_adapt a x = Ok (map (\<lambda>i. dot (matrix_row a i) x) [0 ..< unat (lin_target_dim a)])"
  using assms by (simp add: linear_adapt_def adapt_rows_eq fold_update_upt alloc_f32_def linear_ok_def)

lemma linear_adapt_returns: "linear_ok a \<Longrightarrow> returns (linear_adapt a x)"
  by (cases "length x = unat (lin_source_dim a)")
    (simp_all add: linear_adapt_eq, simp add: linear_adapt_def)

lemma norm_match_adapt_length: "norm_match_adapt a x = Ok y \<Longrightarrow> length y = length x"
  by (auto simp: norm_match_adapt_def Let_def)

interpretation linear: manifold_adapter linear_ok lin_source_dim lin_target_dim linear_adapt
  by unfold_locales (auto simp: linear_adapt_eq linear_adapt_returns)

interpretation norm: manifold_adapter "\<lambda>_. True" nm_dim nm_dim norm_match_adapt
  by unfold_locales (auto simp: norm_match_adapt_def Let_def)

interpretation dyn: manifold_adapter adapter_ok source_dim target_dim adapt
proof
  fix a :: adapter_obj and x :: "f32 list"
  assume ok: "adapter_ok a"
  show "returns (adapt a x)"
    using ok by (cases a) (auto simp: linear.run_total norm.run_total)
  show "\<exists>y. adapt a x = Ok y \<and> length y = unat (target_dim a)"
    if "length x = unat (source_dim a)"
    using ok that by (cases a) (auto intro: linear.run_ok norm.run_ok)
qed

text \<open>
  A constructor that succeeds gives a sound adapter as long as the product of its
  dimensions does not wrap, which dimensions from the wire (\<open>u32\<close>) guarantee.
\<close>

lemma linear_new_ok:
  "linear_new s t w = Ok a \<Longrightarrow> unat s * unat t < 2 ^ 64 \<Longrightarrow> unat t < 2 ^ 61 \<Longrightarrow> linear_ok a"
  by (auto simp: linear_new_def linear_ok_def Let_def unat_word_ariths split: if_splits)

lemma linear_new_iff:
  "unat s * unat t < 2 ^ 64 \<Longrightarrow> is_ok (linear_new s t w) \<longleftrightarrow> length w = unat s * unat t"
  by (auto simp: linear_new_def Let_def unat_word_ariths)

lemma from_spec_ok:
  "from_spec k s t w = Ok a \<Longrightarrow> unat s * unat t < 2 ^ 64 \<Longrightarrow> unat t < 2 ^ 61 \<Longrightarrow> adapter_ok a"
  by (cases k) (auto simp: Let_def linear_new_ok)

section \<open>What the adapters compute\<close>

lemma dec_one32: "dec binary32 1065353216 = 2 ^ 149"
  by (simp add: float_eval)

text \<open>Multiplying by 1.0 changes no number (a NaN becomes the canonical one).\<close>

lemma f32_mul_one:
  assumes "\<not> f32_is_nan x"
  shows "f32_mul x f32_one = x"
proof (cases x rule: f32_cases)
  case (1 s a)
  have one: "unpack32 f32_one = (False, 1065353216)" by (simp add: f32_one_def unpack32_def)
  have a: "a \<le> infm binary32" using assms 1 by (simp add: f32_is_nan_def)
  have "enc binary32 (dec binary32 a * 2 ^ 149) (2 ^ 149) = a"
  proof (rule antisym)
    show "enc binary32 (dec binary32 a * 2 ^ 149) (2 ^ 149) \<le> a" by (rule enc_le) simp_all
    show "a \<le> enc binary32 (dec binary32 a * 2 ^ 149) (2 ^ 149)" by (rule enc_ge) (use a in simp_all)
  qed
  then have "sm_mul binary32 (s, a) (False, 1065353216) = (s, a)"
    using a by (simp add: dec_one32)
  then show ?thesis using 1 by (metis f32_mul_def one pack_unpack32)
qed

text \<open>
  Property C18. A linear adapter is the matrix-vector product its weights describe: when the
  constructor accepts the weights (dimensions below the sizes that wrap or cannot be
  allocated), output \<open>i\<close> is the dot product of the input with the \<open>i\<close>-th block of
  \<open>source_dim\<close> weights, for each \<open>i\<close> below \<open>target_dim\<close>, and an input of any other
  length is refused with the two lengths.
\<close>

theorem linear_adapter_is_matrix:
  assumes "linear_new s t w = Ok a" and "unat s * unat t < 2 ^ 64" and "unat t < 2 ^ 61"
  shows "linear_adapt a x =
    (if length x = unat s
     then Ok (map (\<lambda>i. dot (take (unat s) (drop (i * unat s) w)) x) [0 ..< unat t])
     else Err (IncompatibleDimensions (len32 x) (u32_of_usize s)))"
proof -
  have ok: "linear_ok a" using assms by (rule linear_new_ok)
  have f: "lin_source_dim a = s" "lin_target_dim a = t" "lin_weights a = w"
    using assms(1) by (auto simp: linear_new_def Let_def split: if_splits)
  show ?thesis
    using linear_adapt_eq [OF ok] by (simp add: f matrix_row_def) (simp add: linear_adapt_def f)
qed

theorem linear_adapter_is_matrix_witness:
  "linear_adapt \<lparr>lin_source_dim = 2, lin_target_dim = 1, lin_weights = [f32_one, 0]\<rparr> [f32_one, f32_one] =
     Ok [dot [f32_one, 0] [f32_one, f32_one]]"
  by (subst linear_adapter_is_matrix [where s = 2 and t = 1 and w = "[f32_one, 0]"])
    (simp_all add: linear_new_def)

text \<open>
  The wrap-around in the size check: a linear adapter whose dimensions multiply
  to \<open>2 ^ 64\<close> is accepted with no weights at all, and then every input of the declared
  source length panics when its first row is cut out.
\<close>

lemma linear_new_wraps:
  assumes "length x = 2 ^ 32"
  shows "linear_new (2 ^ 32) (2 ^ 32) [] =
      Ok \<lparr>lin_source_dim = 2 ^ 32, lin_target_dim = 2 ^ 32, lin_weights = []\<rparr> \<and>
    linear_adapt \<lparr>lin_source_dim = 2 ^ 32, lin_target_dim = 2 ^ 32, lin_weights = []\<rparr> x = Panic"
proof -
  define a :: linear_adapter where
    "a = \<lparr>lin_source_dim = 2 ^ 32, lin_target_dim = 2 ^ 32, lin_weights = []\<rparr>"
  define n :: nat where "n = 2 ^ 32"
  have n: "unat (lin_source_dim a) = n" "unat (lin_target_dim a) = n" "0 < n" "4 * n < 2 ^ 63"
    by (simp_all add: a_def n_def)
  have "adapt_rows a x (0 # is) out = Panic" for "is" out
    by (simp add: a_def slice_def)
  moreover have "length x = n" using assms by (simp only: n_def)
  ultimately have "linear_adapt a x = Panic"
    using n by (simp add: linear_adapt_def alloc_f32_def upt_conv_Cons)
  then show ?thesis unfolding a_def by (simp add: linear_new_def)
qed

lemma linear_new_wraps_witness:
  "linear_adapt \<lparr>lin_source_dim = 2 ^ 32, lin_target_dim = 2 ^ 32, lin_weights = []\<rparr>
     (replicate (2 ^ 32) 0) = Panic"
  using linear_new_wraps [of "replicate (2 ^ 32) 0"] by (simp only: length_replicate simp_thms)

text \<open>
  The factory's contract: an adapter built from any specification whose
  dimensions neither wrap nor exceed an allocation maps every vector of its source dimension
  to a vector of its target dimension, and answers every other input without a panic.
\<close>

lemma from_spec_contract:
  assumes "from_spec k s t w = Ok a" and "unat s * unat t < 2 ^ 64" and "unat t < 2 ^ 61"
  shows "source_dim a = s \<and>
    (length x = unat s \<longrightarrow> (\<exists>y. adapt a x = Ok y \<and> length y = unat (target_dim a))) \<and>
    returns (adapt a x)"
proof -
  have ok: "adapter_ok a" using assms by (rule from_spec_ok)
  have "source_dim a = s"
    using assms(1) by (cases k) (auto simp: linear_new_def Let_def split: if_splits)
  then show ?thesis using dyn.run_ok [OF ok] dyn.run_total [OF ok] by auto
qed

lemma from_spec_contract_witness:
  "source_dim (Norm \<lparr>nm_dim = 2, nm_target_norm = f32_one\<rparr>) = 2 \<and>
   returns (adapt (Norm \<lparr>nm_dim = 2, nm_target_norm = f32_one\<rparr>) [f32_one, 0])"
  using from_spec_contract [where k = NormMatch and s = 2 and t = 2 and w = "[f32_one]"
      and a = "Norm \<lparr>nm_dim = 2, nm_target_norm = f32_one\<rparr>" and x = "[f32_one, 0]"]
  by simp

text \<open>
  Property C37. The specification \<open>Identity\<close> is not the identity: it is norm matching to
  1.0, and the adapter it builds maps the vector (3, 4) to (0.6, 0.8).
\<close>

theorem identity_spec_normalises:
  "from_spec Identity s t w = from_spec NormMatch s t [f32_one] \<and>
   (\<exists>a. from_spec Identity s t w = Ok a \<and>
      adapt a [0x40400000, 0x40800000] = Ok [0x3F19999A, 0x3F4CCCCD])"
proof -
  have norm: "f32_norm [0x40400000, 0x40800000] = 0x40A00000" by (simp add: float_eval)
  have gt: "f32_less (f32_lit (Suc 0) 1000000000) 0x40A00000" by (simp add: float_eval)
  have scale: "f32_div 0x3F800000 0x40A00000 = 0x3E4CCCCD" by (simp add: float_eval)
  have m3: "f32_mul 0x40400000 0x3E4CCCCD = 0x3F19999A" by (simp add: float_eval)
  have m4: "f32_mul 0x40800000 0x3E4CCCCD = 0x3F4CCCCD" by (simp add: float_eval)
  show ?thesis
    by (simp add: norm_match_adapt_def norm gt scale m3 m4 f32_one_def Let_def)
qed

text \<open>
  Norm matching leaves vectors of vanishing norm as they are: when the norm is
  not above \<open>1e-9\<close> and no element is NaN, the output is the input, bit for bit, whatever
  the target norm.
\<close>

lemma norm_match_small_unchanged:
  assumes "\<not> f32_less (f32_lit 1 (10 ^ 9)) (f32_norm x)" and "\<forall>e \<in> set x. \<not> f32_is_nan e"
  shows "norm_match_adapt a x = Ok x"
proof -
  have "map (\<lambda>e. f32_mul e f32_one) x = x"
    using assms(2) by (intro map_idI) (simp add: f32_mul_one)
  then show ?thesis using assms(1) by (simp add: norm_match_adapt_def)
qed

lemma norm_match_small_unchanged_witness:
  "norm_match_adapt \<lparr>nm_dim = 1, nm_target_norm = f32_one\<rparr> [0x80000000] = Ok [0x80000000]"
  by (rule norm_match_small_unchanged) (simp_all add: float_eval)

end
