(* ===== verification/Primitives.thy ===== *)
theory Primitives
  imports Config
begin

text \<open>
  The data model of \<open>src/primitives.rs\<close>: shapes, cache slices, payloads, packets,
  provenance tags and agent cards. SHA-256 is a parameter (\<open>sha\<close>, a function on byte
  strings), as are the clock and the UUID generator.
\<close>

definition APTP_VERSION :: u32 where
  "APTP_VERSION = 1"

section \<open>Shapes and payloads\<close>

record shape =
  dims :: "u32 list"

text \<open>\<open>product()\<close> over \<open>usize\<close> wraps in the release profile.\<close>

definition element_count :: "shape \<Rightarrow> usize" where
  "element_count s = foldl (\<lambda>a d. a * d) 1 (map usize_of_u32 (dims s))"

record kv_cache =
  layer_idx :: u16
  keys :: "f32 list"
  kv_values :: "f32 list"
  kv_shape :: shape

datatype primitive_payload =
    HiddenState "f32 list"
  | KvCache kv_cache
  | LatentThought "f32 list"

record metadata =
  timestamp_ns :: u64
  sequence_id :: u64
  session_id :: string
  compression_alg :: string

text \<open>
  The clock: nanoseconds since the epoch, \<open>None\<close> when the system time is before it
  (\<open>duration_since\<close> fails). \<open>as_nanos() as u64\<close> keeps the low 64 bits.
\<close>

definition nanos_u64 :: "nat option \<Rightarrow> u64" where
  "nanos_u64 clock = (case clock of None \<Rightarrow> 0 | Some ns \<Rightarrow> word_of_nat ns)"

definition metadata_new_now :: "nat option \<Rightarrow> string \<Rightarrow> u64 \<Rightarrow> metadata" where
  "metadata_new_now clock sid seq =
     \<lparr>timestamp_ns = nanos_u64 clock, sequence_id = seq, session_id = sid,
      compression_alg = ''none''\<rparr>"

record primitive_packet =
  version :: u32
  sender_id :: string
  model_fingerprint :: "u8 list"
  layer_index :: u16
  payload :: primitive_payload
  pkt_shape :: shape
  pkt_metadata :: metadata

section \<open>Provenance\<close>

text \<open>The memory of a \<open>Vec<f32>\<close> on a little-endian target: four bytes per element.\<close>

definition le_bytes :: "u32 \<Rightarrow> u8 list" where
  "le_bytes x = [ucast x, ucast (drop_bit 8 x), ucast (drop_bit 16 x), ucast (drop_bit 24 x)]"

definition f32_memory :: "f32 list \<Rightarrow> u8 list" where
  "f32_memory v = concat (map le_bytes v)"

definition string_bytes :: "string \<Rightarrow> u8 list" where
  "string_bytes s = map of_char s"

fun payload_bytes :: "primitive_payload \<Rightarrow> u8 list result" where
  "payload_bytes (HiddenState v) = from_raw_parts (f32_memory v) (min (length v) 256 * 4)"
| "payload_bytes (LatentThought v) = from_raw_parts (f32_memory v) (min (length v) 256 * 4)"
| "payload_bytes (KvCache kv) =
     from_raw_parts (f32_memory (keys kv)) (min (length (keys kv)) 64 * 4)"

text \<open>\<open>h.update\<close> three times, then \<open>finalize\<close>: the digest of the concatenation.\<close>

definition provenance_hash :: "(u8 list \<Rightarrow> u8 list) \<Rightarrow> primitive_packet \<Rightarrow> u8 list result" where
  "provenance_hash sha p =
     and_then (payload_bytes (payload p))
       (\<lambda>bytes. Ok (sha (string_bytes (sender_id p) @ model_fingerprint p @ bytes)))"

record tagged_primitive =
  tag_hash :: "u8 list"
  fairness_score :: f32
  tag_packet :: primitive_packet

definition tagged_new ::
  "(u8 list \<Rightarrow> u8 list) \<Rightarrow> primitive_packet \<Rightarrow> f32 \<Rightarrow> tagged_primitive result" where
  "tagged_new sha p score =
     and_then (provenance_hash sha p)
       (\<lambda>h. Ok \<lparr>tag_hash = h, fairness_score = score, tag_packet = p\<rparr>)"

definition verify_provenance :: "(u8 list \<Rightarrow> u8 list) \<Rightarrow> tagged_primitive \<Rightarrow> bool result" where
  "verify_provenance sha t =
     and_then (provenance_hash sha (tag_packet t)) (\<lambda>expected. Ok (expected = tag_hash t))"

section \<open>Agent cards\<close>

record agent_card =
  agent_id :: string
  aptp_version :: u32
  hidden_size :: u32
  num_layers :: u32
  num_heads :: u32
  vocab_size :: u32
  model_family :: string
  capabilities :: "string list"

definition new_from_config :: "string \<Rightarrow> agent_config \<Rightarrow> agent_card" where
  "new_from_config uuid cfg =
     \<lparr>agent_id = (if cfg_agent_id cfg = [] then uuid else cfg_agent_id cfg),
      aptp_version = cfg_aptp_version cfg,
      hidden_size = cfg_hidden_size cfg,
      num_layers = cfg_num_layers cfg,
      num_heads = cfg_num_heads cfg,
      vocab_size = cfg_vocab_size cfg,
      model_family = cfg_model_family cfg,
      capabilities = [''hidden_state'', ''kv_cache'', ''latent_thought'']\<rparr>"

section \<open>The unsafe slices stay inside their allocations\<close>

lemma length_le_bytes [simp]: "length (le_bytes x) = 4"
  by (simp add: le_bytes_def)

lemma length_f32_memory [simp]: "length (f32_memory v) = 4 * length v"
  by (induction v) (simp_all add: f32_memory_def)

lemma take_f32_memory: "take (4 * n) (f32_memory v) = f32_memory (take n v)"
proof (induction v arbitrary: n)
  case (Cons x v)
  show ?case
  proof (cases n)
    case (Suc m)
    have "take (4 + 4 * m) (le_bytes x @ f32_memory v) = le_bytes x @ take (4 * m) (f32_memory v)"
      by simp
    then show ?thesis using Cons.IH [of m] Suc by (simp add: f32_memory_def)
  qed (simp add: f32_memory_def)
qed (simp add: f32_memory_def)

text \<open>The part of a payload that the provenance hash covers.\<close>

fun hashed_part :: "primitive_payload \<Rightarrow> f32 list" where
  "hashed_part (HiddenState v) = take 256 v"
| "hashed_part (LatentThought v) = take 256 v"
| "hashed_part (KvCache kv) = take 64 (keys kv)"

lemma payload_bytes_eq [simp]: "payload_bytes pl = Ok (f32_memory (hashed_part pl))"
proof -
  have "take (4 * min (length v) k) (f32_memory v) = f32_memory (take k v)" for v :: "f32 list" and k
    by (simp add: take_f32_memory min_def)
  then show ?thesis by (cases pl) (simp_all add: from_raw_parts_def mult.commute)
qed

definition provenance_input :: "primitive_packet \<Rightarrow> u8 list" where
  "provenance_input p =
     string_bytes (sender_id p) @ model_fingerprint p @ f32_memory (hashed_part (payload p))"

lemma provenance_hash_eq [simp]: "provenance_hash sha p = Ok (sha (provenance_input p))"
  by (simp add: provenance_hash_def provenance_input_def)

lemma tagged_new_eq [simp]:
  "tagged_new sha p score =
     Ok \<lparr>tag_hash = sha (provenance_input p), fairness_score = score, tag_packet = p\<rparr>"
  by (simp add: tagged_new_def)

lemma verify_provenance_eq [simp]:
  "verify_provenance sha t = Ok (sha (provenance_input (tag_packet t)) = tag_hash t)"
  by (simp add: verify_provenance_def)

lemma le_bytes_inj: "le_bytes x = le_bytes y \<longleftrightarrow> x = y"
proof
  assume "le_bytes x = le_bytes y"
  then have b: "(ucast x :: u8) = ucast y" "(ucast (drop_bit 8 x) :: u8) = ucast (drop_bit 8 y)"
    "(ucast (drop_bit 16 x) :: u8) = ucast (drop_bit 16 y)"
    "(ucast (drop_bit 24 x) :: u8) = ucast (drop_bit 24 y)"
    by (simp_all add: le_bytes_def)
  show "x = y"
  proof (rule bit_word_eqI)
    fix n assume n: "n < LENGTH(32)"
    have part: "bit x (k + m) = bit y (k + m)"
      if "(ucast (drop_bit k x) :: u8) = ucast (drop_bit k y)" "m < 8" for k m
      using arg_cong [OF that(1), of "\<lambda>w. bit w m"] that(2)
      by (simp add: bit_ucast_iff bit_drop_bit_eq)
    consider "n < 8" | m where "n = 8 + m" "m < 8" | m where "n = 16 + m" "m < 8"
      | m where "n = 24 + m" "m < 8"
    proof -
      assume *: "n < 8 \<Longrightarrow> thesis" "\<And>m. n = 8 + m \<Longrightarrow> m < 8 \<Longrightarrow> thesis"
        "\<And>m. n = 16 + m \<Longrightarrow> m < 8 \<Longrightarrow> thesis" "\<And>m. n = 24 + m \<Longrightarrow> m < 8 \<Longrightarrow> thesis"
      have "n < 32" using n by simp
      then show thesis using *(1) *(2) [of "n - 8"] *(3) [of "n - 16"] *(4) [of "n - 24"]
        by linarith
    qed
    then show "bit x n = bit y n"
      using part [of 0 n] part [of 8] part [of 16] part [of 24] b by cases auto
  qed
qed simp

lemma of_char_u8_inj: "(of_char c :: u8) = of_char d \<longleftrightarrow> c = d"
proof
  have u: "unat (of_char x :: u8) = of_char x" for x
  proof -
    have "(of_char x :: u8) = of_nat (of_char x)" by (rule of_nat_of_char [symmetric])
    moreover have "(of_char x :: nat) mod 256 = of_char x" by simp
    ultimately show ?thesis by (simp add: unat_of_nat take_bit_eq_mod del: of_nat_of_char)
  qed
  assume "(of_char c :: u8) = of_char d"
  then have "(of_char c :: nat) = of_char d" by (metis u)
  then show "c = d" by simp
qed simp

lemma string_bytes_inj: "string_bytes s = string_bytes t \<longleftrightarrow> s = t"
  unfolding string_bytes_def by (rule inj_map_eq_map) (simp add: inj_def of_char_u8_inj)

lemma f32_memory_inj: "f32_memory v = f32_memory w \<longleftrightarrow> v = w"
proof
  show "f32_memory v = f32_memory w \<Longrightarrow> v = w"
  proof (induction v arbitrary: w)
    case Nil
    then have "length (f32_memory w) = length (f32_memory [])" by simp
    then show ?case by (simp del: list.map)
  next
    case (Cons x v)
    then obtain y u where w: "w = y # u"
      using length_f32_memory [of w] by (cases w) (auto simp: f32_memory_def le_bytes_def)
    have "le_bytes x @ f32_memory v = le_bytes y @ f32_memory u"
      using Cons.prems w by (simp add: f32_memory_def)
    then have "le_bytes x = le_bytes y" "f32_memory v = f32_memory u"
      by (simp_all add: append_eq_append_conv)
    then show ?case using Cons.IH w le_bytes_inj by simp
  qed
qed simp

section \<open>Properties of the data model\<close>

lemma element_count_fold:
  "foldl (\<lambda>a d. a * d) (word_of_nat k) (map usize_of_u32 ds) =
     (word_of_nat (k * prod_list (map unat ds)) :: usize)"
proof (induction ds arbitrary: k)
  case (Cons d ds)
  have "word_of_nat k * usize_of_u32 d = (word_of_nat (k * unat d) :: usize)"
    by (simp add: usize_of_u32_def flip: unat_usize_of_u32)
  then show ?case using Cons.IH [of "k * unat d"] by (simp add: mult.assoc)
qed simp

lemma element_count_eq: "element_count s = word_of_nat (prod_list (map unat (dims s)))"
  using element_count_fold [of 1] by (simp add: element_count_def)

text \<open>
  The \<open>unsafe\<close> byte view of a payload stays inside its vector: it is always
  defined and is the little-endian memory of exactly the first 256 elements (64 keys of a
  cache slice), so at most 1024 bytes are hashed.
\<close>

lemma payload_view_in_bounds:
  "payload_bytes pl = Ok (f32_memory (hashed_part pl)) \<and> length (f32_memory (hashed_part pl)) \<le> 1024"
  by (cases pl) auto

text \<open>A fresh tag verifies, whatever the packet, the score and the digest.\<close>

lemma fresh_tag_verifies:
  "and_then (tagged_new sha p score) (verify_provenance sha) = Ok True"
  by simp

text \<open>
  Property C25. What a tag protects: if a tag made for one packet verifies for another with
  the same sender and a fingerprint of the same length, and the digest does not collide on
  the two inputs, then the fingerprints agree and so does the hashed prefix of the payload,
  bit for bit.
\<close>

theorem tag_protects_prefix:
  assumes "tagged_new sha p score = Ok t" and "verify_provenance sha (t\<lparr>tag_packet := q\<rparr>) = Ok True"
    and "sha (provenance_input q) = sha (provenance_input p) \<Longrightarrow> provenance_input q = provenance_input p"
    and "sender_id q = sender_id p"
    and "length (model_fingerprint q) = length (model_fingerprint p)"
  shows "model_fingerprint q = model_fingerprint p \<and> hashed_part (payload q) = hashed_part (payload p)"
proof -
  have "sha (provenance_input q) = sha (provenance_input p)"
    using assms(1,2) by auto
  then have "provenance_input q = provenance_input p" by (rule assms(3))
  then have "model_fingerprint q @ f32_memory (hashed_part (payload q)) =
      model_fingerprint p @ f32_memory (hashed_part (payload p))"
    using assms(4) by (simp add: provenance_input_def)
  then show ?thesis using assms(5) by (simp add: append_eq_append_conv f32_memory_inj)
qed

definition sample_packet :: primitive_packet where
  "sample_packet =
     \<lparr>version = APTP_VERSION, sender_id = ''a'', model_fingerprint = [7], layer_index = 1,
      payload = HiddenState [0], pkt_shape = \<lparr>dims = [1, 1, 1]\<rparr>,
      pkt_metadata = \<lparr>timestamp_ns = 0, sequence_id = 0, session_id = ''s'', compression_alg = ''none''\<rparr>\<rparr>"

theorem tag_protects_prefix_witness:
  "model_fingerprint (sample_packet\<lparr>layer_index := 2\<rparr>) = model_fingerprint sample_packet \<and>
   hashed_part (payload (sample_packet\<lparr>layer_index := 2\<rparr>)) = hashed_part (payload sample_packet)"
  by (rule tag_protects_prefix [where sha = id and score = 0 and p = sample_packet
        and t = "\<lparr>tag_hash = provenance_input sample_packet, fairness_score = 0, tag_packet = sample_packet\<rparr>"])
    (simp_all add: provenance_input_def sample_packet_def)

text \<open>
  Property C38. What a tag leaves open: the version, the layer, the shape, the metadata and
  every part of the payload beyond the hashed prefix can be replaced without any effect on
  the verification, even the kind of the payload.
\<close>

theorem tag_ignores_rest:
  assumes "hashed_part pl = hashed_part (payload (tag_packet t))"
  shows "verify_provenance sha (t\<lparr>tag_packet := (tag_packet t)\<lparr>version := v, layer_index := l, payload := pl,
      pkt_shape := s, pkt_metadata := m\<rparr>\<rparr>) = verify_provenance sha t"
  using assms by (simp add: provenance_input_def)

theorem tag_ignores_rest_witness:
  "verify_provenance id \<lparr>tag_hash = [], fairness_score = 0, tag_packet = sample_packet\<lparr>version := 9,
      layer_index := 9, payload := KvCache \<lparr>layer_idx = 3, keys = [0], kv_values = [1, 2], kv_shape = \<lparr>dims = []\<rparr>\<rparr>,
      pkt_shape := \<lparr>dims = []\<rparr>, pkt_metadata := pkt_metadata sample_packet\<rparr>\<rparr> =
   verify_provenance id \<lparr>tag_hash = [], fairness_score = 0, tag_packet = sample_packet\<rparr>"
  using tag_ignores_rest [where t = "\<lparr>tag_hash = [], fairness_score = 0, tag_packet = sample_packet\<rparr>"
      and pl = "KvCache \<lparr>layer_idx = 3, keys = [0], kv_values = [1, 2], kv_shape = \<lparr>dims = []\<rparr>\<rparr>"
      and sha = id and v = 9 and l = 9 and s = "\<lparr>dims = []\<rparr>" and m = "pkt_metadata sample_packet"]
  by (simp add: sample_packet_def)

text \<open>
  The hash input has no field boundary: moving the last byte of the sender id to
  the front of the fingerprint gives another packet with the same provenance hash.
\<close>

lemma provenance_boundary_ambiguous:
  "provenance_hash sha (p\<lparr>sender_id := s @ [c], model_fingerprint := fp\<rparr>) =
   provenance_hash sha (p\<lparr>sender_id := s, model_fingerprint := of_char c # fp\<rparr>)"
  by (simp add: provenance_input_def string_bytes_def)

end
