(* ===== verification/Sessions.thy ===== *)
theory Sessions
  imports Adapters Primitives
begin

text \<open>
  The session registry of \<open>src/rpc/mod.rs\<close>: a hash map from session ids to session
  states with the operations \<open>open\<close>, \<open>increment\<close> and \<open>drain\<close>. Its contract is the
  locale \<open>session_store\<close>, stated over the received count that the protocol exposes; the
  counting lemmas are proved once from the contract.
\<close>

section \<open>The registry\<close>

record session_state =
  ss_session_id :: string
  ss_peer_agent_id :: string
  ss_received_count :: u64
  ss_adapter :: "adapter_variant option"
  ss_opened_at_ns :: u64

type_synonym registry = "string \<rightharpoonup> session_state"

definition unknown_session :: "string \<Rightarrow> aptp_error" where
  "unknown_session sid = Internal (''unknown session: '' @ sid)"

text \<open>\<open>uuid\<close> is the text of \<open>Uuid::new_v4()\<close>, \<open>clock\<close> the system time.\<close>

definition reg_open ::
  "string \<Rightarrow> nat option \<Rightarrow> string \<Rightarrow> adapter_variant option \<Rightarrow> registry \<Rightarrow> string \<times> registry" where
  "reg_open uuid clock peer_agent_id adapter reg =
     (uuid, reg(uuid \<mapsto> \<lparr>ss_session_id = uuid, ss_peer_agent_id = peer_agent_id,
        ss_received_count = 0, ss_adapter = adapter, ss_opened_at_ns = nanos_u64 clock\<rparr>))"

definition reg_increment :: "string \<Rightarrow> registry \<Rightarrow> unit result \<times> registry" where
  "reg_increment sid reg =
     (case reg sid of
        None \<Rightarrow> (Err (unknown_session sid), reg)
      | Some s \<Rightarrow> (Ok (), reg(sid \<mapsto> s\<lparr>ss_received_count := ss_received_count s + 1\<rparr>)))"

definition reg_drain :: "string \<Rightarrow> registry \<Rightarrow> u64 result \<times> registry" where
  "reg_drain sid reg =
     (case reg sid of
        None \<Rightarrow> (Err (unknown_session sid), reg)
      | Some s \<Rightarrow> (Ok (ss_received_count s), reg(sid := None)))"

section \<open>The contract of a session store\<close>

locale session_store =
  fixes count :: "'s \<Rightarrow> string \<Rightarrow> u64 option"
    and opn :: "string \<Rightarrow> 's \<Rightarrow> 's"
    and inc :: "string \<Rightarrow> 's \<Rightarrow> unit result \<times> 's"
    and drain :: "string \<Rightarrow> 's \<Rightarrow> u64 result \<times> 's"
  assumes count_open: "count (opn k s) = (count s)(k \<mapsto> 0)"
    and inc_known: "count s k = Some n \<Longrightarrow>
      fst (inc k s) = Ok () \<and> count (snd (inc k s)) = (count s)(k \<mapsto> n + 1)"
    and inc_unknown: "count s k = None \<Longrightarrow> inc k s = (Err (unknown_session k), s)"
    and drain_known: "count s k = Some n \<Longrightarrow>
      fst (drain k s) = Ok n \<and> count (snd (drain k s)) = (count s)(k := None)"
    and drain_unknown: "count s k = None \<Longrightarrow> drain k s = (Err (unknown_session k), s)"
begin

text \<open>Every increment counts for its own session only; unknown sessions change nothing.\<close>

lemma count_inc:
  "count (snd (inc k s)) j = (if j = k then map_option (\<lambda>n. n + 1) (count s k) else count s j)"
  using inc_known [of s k] inc_unknown [of s k] by (cases "count s k") auto

lemma count_incs:
  "count (foldl (\<lambda>s k. snd (inc k s)) s ks) j =
     map_option (\<lambda>n. n + word_of_nat (count_list ks j)) (count s j)"
proof (induction ks arbitrary: s)
  case Nil
  then show ?case by (simp add: option.map_ident)
next
  case (Cons k ks)
  then show ?case by (auto simp: count_inc option.map_comp comp_def ac_simps)
qed

text \<open>A session lives from its opening to its draining, and the drain returns its count.\<close>

lemma drain_after_incs:
  "fst (drain k (foldl (\<lambda>s k. snd (inc k s)) (opn k s) ks)) = Ok (word_of_nat (count_list ks k))"
  using drain_known [of "foldl (\<lambda>s k. snd (inc k s)) (opn k s) ks" k] by (simp add: count_incs count_open)

lemma drain_twice:
  "fst (drain k (snd (drain k s))) = Err (unknown_session k)"
  using drain_known [of s k] drain_unknown [of s k] drain_unknown [of "snd (drain k s)" k]
  by (cases "count s k") auto

lemma drain_frame: "j \<noteq> k \<Longrightarrow> count (snd (drain k s)) j = count s j"
  using drain_known [of s k] drain_unknown [of s k] by (cases "count s k") auto

end

text \<open>A store with an invariant that every operation keeps.\<close>

locale session_store_inv = session_store count opn inc drain
  for count :: "'s \<Rightarrow> string \<Rightarrow> u64 option" and opn inc drain +
  fixes inv :: "'s \<Rightarrow> bool"
  assumes inv_open: "inv s \<Longrightarrow> inv (opn k s)"
    and inv_inc: "inv s \<Longrightarrow> inv (snd (inc k s))"
    and inv_drain: "inv s \<Longrightarrow> inv (snd (drain k s))"
begin

lemma inv_incs: "inv s \<Longrightarrow> inv (foldl (\<lambda>s k. snd (inc k s)) s ks)"
  by (induction ks arbitrary: s) (auto intro: inv_inc)

end

section \<open>The registry keeps the contract\<close>

definition reg_count :: "registry \<Rightarrow> string \<Rightarrow> u64 option" where
  "reg_count reg sid = map_option ss_received_count (reg sid)"

text \<open>Each session state is stored under its own id.\<close>

definition reg_inv :: "registry \<Rightarrow> bool" where
  "reg_inv reg \<longleftrightarrow> (\<forall>sid s. reg sid = Some s \<longrightarrow> ss_session_id s = sid)"

lemma reg_inv_empty [simp]: "reg_inv Map.empty"
  by (simp add: reg_inv_def)

lemma reg_count_upd [simp]: "reg_count (reg(k := v)) = (reg_count reg)(k := map_option ss_received_count v)"
  by (auto simp: reg_count_def)

lemma reg_count_None [simp]: "reg_count reg k = None \<longleftrightarrow> reg k = None"
  by (simp add: reg_count_def)

lemma reg_count_Some: "reg_count reg k = Some n \<longleftrightarrow> (\<exists>s. reg k = Some s \<and> ss_received_count s = n)"
  by (auto simp: reg_count_def)

lemmas reg_defs [handler_simps] = reg_open_def reg_increment_def reg_drain_def

interpretation reg: session_store_inv reg_count
  "\<lambda>uuid reg. snd (reg_open uuid clock peer adapter reg)" reg_increment reg_drain reg_inv
  for clock peer adapter
  by unfold_locales
    (auto simp: reg_defs reg_count_Some reg_inv_def split: option.splits if_splits)

lemma reg_increment_returns: "returns (fst (reg_increment sid reg))"
  by (simp add: reg_increment_def split: option.splits)

text \<open>
  A session counts its own packets: after opening a session and any sequence of
  increments on any sessions, draining it returns how often it was incremented, modulo
  \<open>2 ^ 64\<close>, independently of the other sessions.
\<close>

lemma registry_counts:
  "fst (reg_drain uuid
     (foldl (\<lambda>reg sid. snd (reg_increment sid reg))
        (snd (reg_open uuid clock peer adapter reg)) sids)) =
   Ok (word_of_nat (count_list sids uuid))"
  by (rule reg.drain_after_incs)

text \<open>
  Draining ends a session: a second drain and any later increment of the same id
  fail with "unknown session" and leave the registry alone, and the drained registry agrees
  with the old one on every other session.
\<close>

lemma registry_drain_ends:
  "fst (reg_drain sid (snd (reg_drain sid reg))) = Err (unknown_session sid) \<and>
   reg_increment sid (snd (reg_drain sid reg)) =
     (Err (unknown_session sid), snd (reg_drain sid reg)) \<and>
   (snd (reg_drain sid reg))(sid := reg sid) = reg"
proof -
  have "(snd (reg_drain sid reg)) sid = None"
    by (simp add: reg_drain_def split: option.splits)
  then show ?thesis
    using reg.drain_twice [of sid reg]
    by (auto simp: reg_increment_def reg_drain_def fun_eq_iff split: option.splits)
qed

end
