(* ===== verification/Negotiate.thy ===== *)
theory Negotiate
  imports Adapters Primitives
begin

text \<open>
  \<open>src/rpc/negotiate.rs\<close>: the negotiation of an alignment and the Kaiming-uniform
  initial weights drawn from a 64-bit xorshift generator. The clock is a parameter; the
  global call counter is state that each call returns updated.
\<close>

section \<open>The generator\<close>

definition xorshift :: "u64 \<Rightarrow> u64" where
  "xorshift s0 =
     (let s1 = s0 XOR push_bit 13 s0;
          s2 = s1 XOR drop_bit 7 s1
      in s2 XOR push_bit 17 s2)"

definition f32_two :: f32 where
  "f32_two = 0x40000000"

definition f32_three :: f32 where
  "f32_three = 0x40400000"

definition kaiming_weight :: "f32 \<Rightarrow> u64 \<Rightarrow> f32" where
  "kaiming_weight bound state =
     (let t = f32_sub (f32_mul (f32_div (f32_of_nat (unat state)) (f32_of_nat (2 ^ 64 - 1))) f32_two) f32_one
      in f32_mul t bound)"

fun kaiming_loop :: "nat \<Rightarrow> f32 \<Rightarrow> u64 \<Rightarrow> f32 list" where
  "kaiming_loop 0 bound state = []"
| "kaiming_loop (Suc n) bound state =
     (let state = xorshift state in kaiming_weight bound state # kaiming_loop n bound state)"

definition kaiming_bound :: "usize \<Rightarrow> f32" where
  "kaiming_bound in_dim = f32_sqrt (f32_div f32_three (f32_of_nat (unat in_dim)))"

definition kaiming_uniform_weights ::
  "nat option \<Rightarrow> u64 \<Rightarrow> usize \<Rightarrow> usize \<Rightarrow> f32 list result \<times> u64" where
  "kaiming_uniform_weights clock counter in_dim out_dim =
     (let bound = kaiming_bound in_dim;
          n = in_dim * out_dim;
          time_seed = nanos_u64 clock;
          seed = time_seed XOR counter;
          state = seed XOR 0xdeadbeefcafebabe
      in (and_then (alloc_f32 (unat n)) (\<lambda>_. Ok (kaiming_loop (unat n) bound state)), counter + 1))"

definition negotiate_handle ::
  "nat option \<Rightarrow> u64 \<Rightarrow> u32 \<Rightarrow> u32 \<Rightarrow> string \<Rightarrow> string
     \<Rightarrow> (adapter_variant \<times> f32 list) result \<times> u64" where
  "negotiate_handle clock counter source_d target_d source_family target_family =
     (if source_d = 0 \<or> target_d = 0 then (Err (IncompatibleDimensions source_d target_d), counter)
      else if source_d = target_d then (Ok (NormMatch, [f32_one]), counter)
      else let (weights, counter') =
             kaiming_uniform_weights clock counter (usize_of_u32 source_d) (usize_of_u32 target_d)
           in (and_then weights (\<lambda>w. Ok (LinearProjection, w)), counter'))"

section \<open>The generator is a bijection\<close>

lemma shift_left_fixpoint: "z = push_bit k z \<Longrightarrow> 0 < k \<Longrightarrow> z = 0" for z :: u64
proof -
  assume z: "z = push_bit k z" and k: "0 < k"
  have "\<not> bit z n" for n
  proof (induction n rule: less_induct)
    case (less n)
    show ?case
    proof
      assume "bit z n"
      then have "bit (push_bit k z) n" using z by simp
      then have "k \<le> n" "bit z (n - k)" by (simp_all add: bit_push_bit_iff)
      with less [of "n - k"] k show False by simp
    qed
  qed
  then show "z = 0" by (simp add: bit_eq_iff)
qed

lemma shift_right_fixpoint: "z = drop_bit k z \<Longrightarrow> 0 < k \<Longrightarrow> z = 0" for z :: u64
proof -
  assume z: "z = drop_bit k z" and k: "0 < k"
  have "n \<le> 64 \<Longrightarrow> \<not> bit z (64 - n)" for n
  proof (induction n rule: less_induct)
    case (less n)
    show ?case
    proof
      assume b: "bit z (64 - n)"
      then have "bit (drop_bit k z) (64 - n)" using z by simp
      then have b': "bit z (k + (64 - n))" by (simp add: bit_drop_bit_eq)
      then have lt: "k + (64 - n) < 64" using bit_imp_le_length by fastforce
      then have "64 - (n - k) = k + (64 - n)" "n - k < n" using k less.prems by auto
      with less.IH [of "n - k"] less.prems b' show False by simp
    qed
  qed
  from this [of "64 - n" for n] have "\<not> bit z n" if "n \<le> 64" for n
    using that by (metis diff_diff_cancel diff_le_self)
  moreover have "\<not> bit z n" if "64 < n" for n using that bit_imp_le_length by fastforce
  ultimately show "z = 0" by (metis bit_eq_iff bit_0_eq linorder_not_le bot_apply bot_bool_def)
qed

lemma xor_zero_iff: "x XOR y = 0 \<longleftrightarrow> x = y" for x y :: u64
  by (auto simp: bit_eq_iff bit_xor_iff)

lemma xor_shift_inj:
  assumes "\<And>x y. f (x XOR y) = f x XOR f y" "\<And>z. z = f z \<Longrightarrow> z = 0"
    and "x XOR f x = y XOR f y"
  shows "x = (y :: u64)"
proof -
  have "(x XOR y) XOR f (x XOR y) = (x XOR f x) XOR (y XOR f y)"
    by (simp add: assms(1) ac_simps)
  also have "\<dots> = 0" using assms(3) by simp
  finally have "x XOR y = f (x XOR y)" by (simp only: xor_zero_iff)
  then have "x XOR y = 0" by (rule assms(2))
  then show ?thesis by (simp only: xor_zero_iff)
qed

lemma left_shift_inj: "x XOR push_bit k x = y XOR push_bit k y \<Longrightarrow> 0 < k \<Longrightarrow> x = y"
  for x y :: u64
  by (rule xor_shift_inj [of "push_bit k"]) (simp_all add: push_bit_xor shift_left_fixpoint)

lemma right_shift_inj: "x XOR drop_bit k x = y XOR drop_bit k y \<Longrightarrow> 0 < k \<Longrightarrow> x = y"
  for x y :: u64
  by (rule xor_shift_inj [of "drop_bit k"]) (simp_all add: drop_bit_xor shift_right_fixpoint)

lemma xorshift_inj: "xorshift x = xorshift y \<longleftrightarrow> x = y"
proof
  assume eq: "xorshift x = xorshift y"
  define s1 where "s1 z = z XOR push_bit 13 z" for z :: u64
  define s2 where "s2 z = s1 z XOR drop_bit 7 (s1 z)" for z
  have "s2 x XOR push_bit 17 (s2 x) = s2 y XOR push_bit 17 (s2 y)"
    using eq by (simp only: xorshift_def Let_def s1_def s2_def)
  then have "s2 x = s2 y" by (rule left_shift_inj) simp
  then have "s1 x = s1 y" unfolding s2_def by (rule right_shift_inj) simp
  then show "x = y" unfolding s1_def by (rule left_shift_inj) simp
qed simp

lemma xorshift_0 [simp]: "xorshift 0 = 0"
  by (simp add: xorshift_def)

lemma xorshift_eq_0_iff [simp]: "xorshift s = 0 \<longleftrightarrow> s = 0"
  using xorshift_inj [of s 0] by simp

section \<open>The weights stay inside the bound\<close>

lemma dec_two: "dec binary32 1073741824 = 2 ^ 150"
  by (simp add: float_eval)

lemma unpack_one: "unpack32 f32_one = (False, 1065353216)"
  by (simp add: f32_one_def unpack32_def)

lemma unpack_two: "unpack32 f32_two = (False, 1073741824)"
  by (simp add: f32_two_def unpack32_def)

lemma unpack_three: "unpack32 f32_three = (False, 1077936128)"
  by (simp add: f32_three_def unpack32_def)

lemma unpack_u64_max: "unpack32 (f32_of_nat (2 ^ 64 - 1)) = (False, 1602224128)"
proof -
  have "f32_of_nat (2 ^ 64 - 1) = 0x5F800000" by (simp add: float_eval)
  then show ?thesis by (simp add: unpack32_def)
qed

text \<open>A quotient of ordered values is at most one.\<close>

lemma quotient_le_one:
  assumes "unpack32 x = (s, a)" "unpack32 y = (t, b)" "a \<le> b" "0 < b" "b < infm binary32"
  shows "\<exists>c. unpack32 (f32_div x y) = (s \<noteq> t, c) \<and> c \<le> 1065353216"
proof -
  have "enc binary32 (dec binary32 a * 2 ^ 149) (dec binary32 b) \<le> 1065353216"
    using assms(3,4) by (intro enc_le) (simp_all add: dec_one32)
  then show ?thesis using assms by (simp add: unpack_ops)
qed

lemma shift_to_unit:
  assumes "unpack32 q = (False, a)" "a \<le> 1065353216"
  shows "\<exists>s c. unpack32 (f32_sub (f32_mul q f32_two) f32_one) = (s, c) \<and> c \<le> 1065353216"
proof -
  define m where "m = enc binary32 (dec binary32 a * dec binary32 1073741824) (2 ^ 149)"
  have "dec binary32 a * dec binary32 1073741824 \<le> dec binary32 1073741824 * 2 ^ 149"
    using dec_le_iff [of binary32 a 1065353216] assms(2)
    by (simp only: dec_one32 mult.commute [of "dec binary32 a"] mult_le_mono2)
  then have m2: "m \<le> 1073741824" unfolding m_def by (intro enc_le) simp_all
  have m: "unpack32 (f32_mul q f32_two) = (False, m)"
    using assms by (simp add: unpack_ops unpack_two m_def)
  have dm: "dec binary32 m \<le> 2 ^ 150"
    using m2 dec_le_iff [of binary32 m 1073741824] by (simp only: dec_two)
  define k where "k = int (dec binary32 m) - 2 ^ 149"
  have "nat \<bar>k\<bar> \<le> dec binary32 1065353216"
  proof -
    have "int (dec binary32 m) \<le> 2 ^ 150" using dm by (metis of_nat_le_iff of_nat_numeral of_nat_power)
    then have "\<bar>k\<bar> \<le> 2 ^ 149" by (simp add: k_def)
    then show ?thesis by (simp add: dec_one32 nat_le_iff)
  qed
  then have c: "enc binary32 (nat \<bar>k\<bar>) 1 \<le> 1065353216" by (intro enc_le) simp_all
  have "unpack32 (f32_sub (f32_mul q f32_two) f32_one) =
      (if k = 0 then (False, 0) else (k < 0, enc binary32 (nat \<bar>k\<bar>) 1))"
    using m2 by (simp add: unpack_ops(2) m unpack_one signed_def dec_one32 k_def Let_def)
  then show ?thesis using c by (auto split: if_splits)
qed

lemma scaled_le:
  assumes "unpack32 t = (s, c)" "c \<le> 1065353216" "unpack32 b = (False, m)" "m < infm binary32"
  shows "\<exists>w. unpack32 (f32_mul t b) = (s, w) \<and> w \<le> m"
proof -
  have "dec binary32 c * dec binary32 m \<le> dec binary32 m * 2 ^ 149"
    using dec_le_iff [of binary32 c 1065353216] assms(2)
    by (simp only: dec_one32 mult.commute [of "dec binary32 c"] mult_le_mono2)
  then have "enc binary32 (dec binary32 c * dec binary32 m) (2 ^ 149) \<le> m"
    by (intro enc_le) simp_all
  then show ?thesis using assms by (simp add: unpack_ops)
qed

lemma kaiming_weight_bounded:
  assumes "unpack32 b = (False, m)" "m < infm binary32"
  shows "\<exists>s w. unpack32 (kaiming_weight b state) = (s, w) \<and> w \<le> m"
proof -
  have "enc binary32 (unat state * 2 ^ 149) 1 \<le> enc binary32 ((2 ^ 64 - 1) * 2 ^ 149) 1"
    using unat_u64_lt [of state] by (intro enc_mono) auto
  then have le: "snd (unpack32 (f32_of_nat (unat state))) \<le> 1602224128"
    using unpack_u64_max by (simp add: unpack_ops)
  obtain a where a: "unpack32 (f32_of_nat (unat state)) = (False, a)" by (simp add: unpack_ops)
  obtain c where c: "unpack32 (f32_div (f32_of_nat (unat state)) (f32_of_nat (2 ^ 64 - 1))) = (False, c)"
    "c \<le> 1065353216"
    using quotient_le_one [OF a unpack_u64_max] le a by auto
  obtain s d where d: "unpack32 (f32_sub (f32_mul (f32_div (f32_of_nat (unat state))
      (f32_of_nat (2 ^ 64 - 1))) f32_two) f32_one) = (s, d)" "d \<le> 1065353216"
    using shift_to_unit [OF c] by blast
  from scaled_le [OF d assms] show ?thesis by (auto simp: kaiming_weight_def Let_def)
qed

lemma kaiming_bound_finite:
  assumes "in_dim \<noteq> 0"
  shows "\<exists>m. unpack32 (kaiming_bound in_dim) = (False, m) \<and> m < infm binary32"
proof -
  define b where "b = enc binary32 (unat in_dim * 2 ^ 149) 1"
  have d: "unpack32 (f32_of_nat (unat in_dim)) = (False, b)" by (simp add: unpack_ops b_def)
  have "0 < unat in_dim" using assms by (simp add: unat_gt_0)
  then have one: "1065353216 \<le> b" unfolding b_def by (intro enc_ge) (simp_all add: dec_one32)
  have "b \<le> enc binary32 ((2 ^ 64 - 1) * 2 ^ 149) 1"
    unfolding b_def using unat_u64_lt [of in_dim] by (intro enc_mono) auto
  then have lt: "b < infm binary32" using unpack_u64_max by (simp add: unpack_ops)
  define q where "q = enc binary32 (dec binary32 1077936128 * 2 ^ 149) (dec binary32 b)"
  have "2 ^ 149 \<le> dec binary32 b" using one dec_le_iff [of binary32 1065353216 b] by (simp only: dec_one32)
  then have q3: "q \<le> 1077936128" unfolding q_def using one by (intro enc_le mult_le_mono2) simp_all
  have q: "unpack32 (f32_div f32_three (f32_of_nat (unat in_dim))) = (False, q)"
    using lt one by (simp add: unpack_ops(4) unpack_three d q_def)
  have "f32_key (kaiming_bound in_dim) \<le> f32_key (f32_sqrt f32_three)"
    unfolding kaiming_bound_def
    by (rule sqrt_mono) (use q q3 in \<open>auto simp: class_defs unpack_three signed_def\<close>)
  moreover have "f32_key (f32_sqrt f32_three) < int (infm binary32)"
    by (simp add: f32_three_def float_eval)
  moreover have "fst (unpack32 (kaiming_bound in_dim)) = False"
    using q q3 by (simp add: kaiming_bound_def unpack_ops(5))
  ultimately show ?thesis
    by (cases "kaiming_bound in_dim" rule: f32_cases) (auto simp: f32_key_def signed_def)
qed

lemma length_kaiming_loop [simp]: "length (kaiming_loop n b s) = n"
  by (induction n arbitrary: s) (auto simp: Let_def)

lemma kaiming_loop_bounded:
  assumes "unpack32 b = (False, m)" "m < infm binary32"
  shows "\<forall>w \<in> set (kaiming_loop n b s). snd (unpack32 w) \<le> m"
proof (induction n arbitrary: s)
  case (Suc n)
  then show ?case using kaiming_weight_bounded [OF assms, of "xorshift s"] by (auto simp: Let_def)
qed simp

section \<open>What a negotiation gives\<close>

lemma negotiate_linear:
  assumes "sd \<noteq> 0" "td \<noteq> 0" "sd \<noteq> td" "unat sd * unat td < 2 ^ 61"
  shows "negotiate_handle clock counter sd td sf tf =
    (Ok (LinearProjection, kaiming_loop (unat sd * unat td) (kaiming_bound (usize_of_u32 sd))
       ((nanos_u64 clock XOR counter) XOR 0xdeadbeefcafebabe)), counter + 1)"
  using assms
  by (simp add: negotiate_handle_def kaiming_uniform_weights_def Let_def unat_mult_u32 alloc_f32_def)

text \<open>
  A negotiated alignment is usable: for non-zero dimensions whose product can be
  allocated, the negotiation succeeds, and the factory accepts its variant and weights and
  gives an adapter that maps every vector of the source dimension to one of the target
  dimension.
\<close>

lemma negotiated_alignment_usable:
  assumes "sd \<noteq> 0" and "td \<noteq> 0" and "unat sd * unat td < 2 ^ 61" and "length x = unat sd"
  shows "\<exists>variant weights a y.
    fst (negotiate_handle clock counter sd td sf tf) = Ok (variant, weights) \<and>
    from_spec variant (usize_of_u32 sd) (usize_of_u32 td) weights = Ok a \<and>
    adapt a x = Ok y \<and> length y = unat td"
proof (cases "sd = td")
  case True
  then show ?thesis using assms by (simp add: negotiate_handle_def norm_match_adapt_def Let_def)
next
  case False
  let ?s = "usize_of_u32 sd" and ?t = "usize_of_u32 td"
  let ?w = "kaiming_loop (unat sd * unat td) (kaiming_bound ?s) ((nanos_u64 clock XOR counter) XOR 0xdeadbeefcafebabe)"
  have small: "unat ?s * unat ?t < 2 ^ 64" using assms(3) by simp
  obtain a where a: "linear_new ?s ?t ?w = Ok a"
    using linear_new_iff [OF small, of ?w] by (auto simp: is_ok_iff)
  have "adapter_ok (Linear a)"
    using linear_new_ok [OF a small] unat_u32_lt [of td] by simp
  moreover have "lin_source_dim a = ?s" "lin_target_dim a = ?t"
    using a by (auto simp: linear_new_def Let_def split: if_splits)
  ultimately show ?thesis
    using negotiate_linear [OF assms(1,2) False assms(3)] a assms(4) dyn.run_ok [of "Linear a" x]
    by auto
qed

lemma negotiated_alignment_usable_witness:
  "\<exists>variant weights a y.
    fst (negotiate_handle None 0 2 3 [] []) = Ok (variant, weights) \<and>
    from_spec variant (usize_of_u32 2) (usize_of_u32 3) weights = Ok a \<and>
    adapt a [0, 0] = Ok y \<and> length y = unat (3 :: u32)"
  by (rule negotiated_alignment_usable) simp_all

text \<open>
  Property C23. Initial weights stay inside the Kaiming bound: every weight of a successful
  negotiation between different dimensions is a number whose magnitude is at most
  \<open>sqrt(3 / source_dim)\<close> as the code rounds it, and there are exactly
  \<open>source_dim * target_dim\<close> of them, whatever the clock and the counter.
\<close>

theorem negotiated_weights_bounded:
  assumes "fst (negotiate_handle clock counter sd td sf tf) = Ok (LinearProjection, w)"
  shows "length w = unat sd * unat td \<and> \<not> f32_is_nan (kaiming_bound (usize_of_u32 sd)) \<and>
    (\<forall>x \<in> set w. \<not> f32_is_nan x \<and>
       snd (unpack32 x) \<le> snd (unpack32 (kaiming_bound (usize_of_u32 sd))))"
proof -
  have sd: "sd \<noteq> 0" and w: "\<exists>st. w = kaiming_loop (unat sd * unat td) (kaiming_bound (usize_of_u32 sd)) st"
    using assms
    by (auto simp: negotiate_handle_def kaiming_uniform_weights_def Let_def unat_mult_u32 split: if_splits)
  have "usize_of_u32 sd \<noteq> 0" using sd unat_usize_of_u32 [of sd] by (metis unat_eq_zero unat_0)
  then obtain m where m: "unpack32 (kaiming_bound (usize_of_u32 sd)) = (False, m)" "m < infm binary32"
    using kaiming_bound_finite by blast
  obtain st where st: "w = kaiming_loop (unat sd * unat td) (kaiming_bound (usize_of_u32 sd)) st"
    using w by blast
  have le: "\<forall>x \<in> set w. snd (unpack32 x) \<le> m" unfolding st by (rule kaiming_loop_bounded [OF m])
  then have "\<forall>x \<in> set w. \<not> f32_is_nan x" using m(2) by (fastforce simp: f32_is_nan_def)
  then show ?thesis using le m st by (simp add: f32_is_nan_def)
qed

theorem negotiated_weights_bounded_witness:
  "\<exists>w. fst (negotiate_handle None 0 1 2 [] []) = Ok (LinearProjection, w) \<and> length w = 2"
proof -
  obtain w where w: "fst (negotiate_handle None 0 1 2 [] []) = Ok (LinearProjection, w)"
    by (simp add: negotiate_linear)
  from negotiated_weights_bounded [OF this] w show ?thesis by simp
qed

text \<open>
  The generator behind the weights is a permutation of the 64-bit states whose
  only possible absorbing state is zero: different states have different successors, a
  non-zero state never becomes zero, and from the zero state (clock and counter cancelling
  the seed constant) every weight is the same.
\<close>

lemma weight_generator:
  "inj xorshift \<and> (\<forall>s. xorshift s = 0 \<longleftrightarrow> s = 0) \<and>
   kaiming_loop n bound 0 = replicate n (kaiming_weight bound 0)"
proof -
  have "kaiming_loop n bound 0 = replicate n (kaiming_weight bound 0)" by (induction n) simp_all
  then show ?thesis by (simp add: inj_def xorshift_inj)
qed

end
