(* ===== verification/Validation.thy ===== *)
theory Validation
  imports Primitives Float_Facts
begin

text \<open>
  \<open>src/validation\<close>: the safety probe (\<open>probe.rs\<close>: the mean direction of reference
  vectors read from an NDJSON file) and the neural firewall (\<open>gate.rs\<close>: a bound on the
  L2 norm and, with a probe, on the cosine similarity). File reading and the JSON parser
  are parameters.
\<close>

section \<open>The safety probe\<close>

record safety_probe =
  centroid :: "f32 list"
  probe_dim :: nat

text \<open>\<open>for (s, &v) in sum.iter_mut().zip(vec.iter()) { *s += v as f64; }\<close>\<close>

fun zip_add :: "f64 list \<Rightarrow> f32 list \<Rightarrow> f64 list" where
  "zip_add (s # ss) (v # vs) = f64_add s (f64_of_f32 v) # zip_add ss vs"
| "zip_add ss vs = ss"

fun probe_loop ::
  "(string \<Rightarrow> string + f32 list) \<Rightarrow> string list \<Rightarrow> f64 list \<Rightarrow> nat \<Rightarrow> (f64 list \<times> nat) result"
where
  "probe_loop json [] sums count = Ok (sums, count)"
| "probe_loop json (line # ls) sums count =
     (case json line of
        Inl e \<Rightarrow> Err (Config (''probe parse: '' @ e))
      | Inr vec \<Rightarrow>
          let sums = (if sums = [] then replicate (length vec) 0 else sums)
          in probe_loop json ls (zip_add sums vec) (count + 1))"

definition normalise :: "f32 list \<Rightarrow> f32 list" where
  "normalise c = (let norm = f32_norm c in if f32_less 0 norm then map (\<lambda>x. f32_div x norm) c else c)"

definition probe_load ::
  "(string \<Rightarrow> string + string) \<Rightarrow> (string \<Rightarrow> string + f32 list) \<Rightarrow> string \<Rightarrow> safety_probe result"
where
  "probe_load read json path =
     (case read path of
        Inl e \<Rightarrow> Err (Config (''probe load: '' @ e))
      | Inr raw \<Rightarrow>
          and_then (probe_loop json (filter (\<lambda>l. \<not> blank_line l) (str_lines raw)) [] 0)
            (\<lambda>(sums, count).
              if count = 0 then Err (Config ''probe file is empty'')
              else Ok \<lparr>centroid = normalise (map (\<lambda>s. f32_of_f64 (f64_div s (f64_of_nat count))) sums),
                       probe_dim = length sums\<rparr>))"

definition cosine_similarity :: "safety_probe \<Rightarrow> f32 list \<Rightarrow> f32" where
  "cosine_similarity p v =
     (if length v \<noteq> probe_dim p then 0
      else let d = f32_sum (map (\<lambda>(a, b). f32_mul a b) (zip v (centroid p)));
               norm_v = f32_norm v
           in if f32_less norm_v (f32_lit 1 (10 ^ 9)) then 0 else f32_div d norm_v)"

section \<open>The neural firewall\<close>

record neural_firewall =
  fw_cfg :: validation_config
  fw_probe :: "safety_probe option"

definition firewall_new ::
  "(string \<Rightarrow> string + string) \<Rightarrow> (string \<Rightarrow> string + f32 list) \<Rightarrow> validation_config
     \<Rightarrow> neural_firewall result" where
  "firewall_new read json cfg =
     (case probe_vectors_path cfg of
        Some path \<Rightarrow>
          and_then (probe_load read json path) (\<lambda>p. Ok \<lparr>fw_cfg = cfg, fw_probe = Some p\<rparr>)
      | None \<Rightarrow> Ok \<lparr>fw_cfg = cfg, fw_probe = None\<rparr>)"

definition check_vector :: "neural_firewall \<Rightarrow> f32 list \<Rightarrow> unit result" where
  "check_vector fw v =
     (let l2 = f32_norm v
      in if f32_less (l2_norm_max (fw_cfg fw)) l2 then Err (OffManifold l2 0)
         else case fw_probe fw of
           Some probe \<Rightarrow>
             let cosine = cosine_similarity probe v
             in if f32_less cosine (cosine_sim_min (fw_cfg fw)) then Err (OffManifold l2 cosine)
                else Ok ()
         | None \<Rightarrow> Ok ())"

fun validate :: "neural_firewall \<Rightarrow> primitive_payload \<Rightarrow> unit result" where
  "validate fw (HiddenState v) = check_vector fw v"
| "validate fw (LatentThought v) = check_vector fw v"
| "validate fw (KvCache kv) =
     and_then (check_vector fw (keys kv)) (\<lambda>_. check_vector fw (kv_values kv))"

section \<open>The contract of a gate\<close>

text \<open>
  \<open>ValidationGate::validate\<close> answers with \<open>Ok\<close> or an error: the stream handler
  relies on nothing else of the trait object it is given.
\<close>

locale validation_gate =
  fixes gate :: "primitive_payload \<Rightarrow> unit result"
  assumes gate_returns: "returns (gate pl)"
begin

lemma gate_cases: obtains "gate pl = Ok ()" | e where "gate pl = Err e"
  using gate_returns [of pl] by (cases "gate pl") auto

end

lemma check_vector_returns [simp]: "returns (check_vector fw v)"
  by (simp add: check_vector_def Let_def split: option.splits)

lemma validate_returns: "returns (validate fw pl)"
  by (cases pl) (auto simp: returns_and_then)

interpretation firewall: validation_gate "validate fw"
  by unfold_locales (rule validate_returns)

section \<open>What the probe is after loading\<close>

lemma length_zip_add [simp]: "length (zip_add ss vs) = length ss"
  by (induction ss vs rule: zip_add.induct) auto

lemma zip_add_eq_Nil [simp]: "zip_add ss vs = [] \<longleftrightarrow> ss = []"
  by (metis length_0_conv length_zip_add)

lemma length_normalise [simp]: "length (normalise c) = length c"
  by (simp add: normalise_def Let_def)

text \<open>The dimension is that of the first vector that is not empty; every line must parse.\<close>

fun parse_all :: "(string \<Rightarrow> string + f32 list) \<Rightarrow> string list \<Rightarrow> f32 list list option" where
  "parse_all json [] = Some []"
| "parse_all json (l # ls) =
     (case json l of Inl e \<Rightarrow> None | Inr v \<Rightarrow> map_option ((#) v) (parse_all json ls))"

fun first_dim :: "f32 list list \<Rightarrow> nat" where
  "first_dim [] = 0"
| "first_dim (v # vs) = (if v = [] then first_dim vs else length v)"

lemma parse_all_length: "parse_all json ls = Some vs \<Longrightarrow> length vs = length ls"
  by (induction ls arbitrary: vs) (auto split: sum.splits)

lemma probe_loop_Ok:
  "probe_loop json ls sums n = Ok (sums', n') \<Longrightarrow>
     \<exists>vs. parse_all json ls = Some vs \<and> n' = n + length ls \<and>
       length sums' = (if sums = [] then first_dim vs else length sums)"
proof (induction ls arbitrary: sums n)
  case (Cons l ls)
  then obtain v where v: "json l = Inr v" by (auto split: sum.splits)
  let ?s = "zip_add (if sums = [] then replicate (length v) 0 else sums) v"
  have "probe_loop json ls ?s (n + 1) = Ok (sums', n')" using Cons.prems v by (simp add: Let_def)
  from Cons.IH [OF this] show ?case using v by auto
qed auto

lemma probe_loop_returns [simp]: "returns (probe_loop json ls sums n)"
  by (induction ls arbitrary: sums n) (auto split: sum.splits simp: Let_def)

lemma probe_load_returns [simp]: "returns (probe_load read json path)"
  by (auto simp: probe_load_def returns_and_then split: sum.splits prod.splits)

lemma probe_load_Ok:
  assumes "probe_load read json path = Ok p"
  shows "\<exists>raw vs. read path = Inr raw \<and>
    parse_all json (filter (\<lambda>l. \<not> blank_line l) (str_lines raw)) = Some vs \<and> vs \<noteq> [] \<and>
    probe_dim p = first_dim vs \<and> length (centroid p) = probe_dim p"
proof -
  obtain raw sums n where raw: "read path = Inr raw"
    and l: "probe_loop json (filter (\<lambda>l. \<not> blank_line l) (str_lines raw)) [] 0 = Ok (sums, n)"
    and n: "n \<noteq> 0" and p: "probe_dim p = length sums" "length (centroid p) = length sums"
    using assms by (auto simp: probe_load_def split: sum.splits if_splits)
  let ?ls = "filter (\<lambda>l. \<not> blank_line l) (str_lines raw)"
  obtain vs where vs: "parse_all json ?ls = Some vs" "n = length ?ls" "length sums = first_dim vs"
    using probe_loop_Ok [OF l] by auto
  have "length vs = length ?ls" using vs(1) by (rule parse_all_length)
  then show ?thesis using raw vs n p by auto
qed

section \<open>What the firewall lets through\<close>

fun payload_vectors :: "primitive_payload \<Rightarrow> f32 list list" where
  "payload_vectors (HiddenState v) = [v]"
| "payload_vectors (LatentThought v) = [v]"
| "payload_vectors (KvCache kv) = [keys kv, kv_values kv]"

lemma check_vector_Ok_iff:
  "check_vector fw v = Ok () \<longleftrightarrow>
     \<not> f32_less (l2_norm_max (fw_cfg fw)) (f32_norm v) \<and>
     (\<forall>p. fw_probe fw = Some p \<longrightarrow> \<not> f32_less (cosine_similarity p v) (cosine_sim_min (fw_cfg fw)))"
  by (auto simp: check_vector_def Let_def split: option.splits)

lemma validate_Ok_iff: "validate fw pl = Ok () \<longleftrightarrow> (\<forall>v \<in> set (payload_vectors pl). check_vector fw v = Ok ())"
  by (cases pl) auto

lemma check_vector_l2_Err:
  "f32_less (l2_norm_max (fw_cfg fw)) (f32_norm v) \<Longrightarrow>
     check_vector fw v = Err (OffManifold (f32_norm v) 0)"
  by (simp add: check_vector_def)

lemma cosine_nan:
  "x \<in> set v \<Longrightarrow> f32_is_nan x \<Longrightarrow> length v = probe_dim p \<Longrightarrow> f32_is_nan (cosine_similarity p v)"
  using nan_norm [of x v] by (auto simp: cosine_similarity_def Let_def nan_not_less intro: nan_div)

text \<open>A firewall without a probe and with the norm bound of the default configuration.\<close>

definition plain_firewall :: neural_firewall where
  "plain_firewall =
     \<lparr>fw_cfg = \<lparr>l2_norm_max = 0x447A0000, cosine_sim_min = 0xBF733333,
                fairness_threshold = 0x3DCCCCCD, probe_vectors_path = None\<rparr>,
      fw_probe = None\<rparr>"

text \<open>
  Property C4. The firewall accepts a payload exactly when, for each vector it carries (one
  for hidden states and latent thoughts, keys and values of a cache slice), the L2 norm is
  not above the bound and, with a probe, the cosine similarity is not below its minimum;
  "above" and "below" are the float comparisons, false on NaN.
\<close>

theorem firewall_accepts_iff:
  "validate fw pl = Ok () \<longleftrightarrow>
     (\<forall>v \<in> set (payload_vectors pl).
        \<not> f32_less (l2_norm_max (fw_cfg fw)) (f32_norm v) \<and>
        (\<forall>p. fw_probe fw = Some p \<longrightarrow>
           \<not> f32_less (cosine_similarity p v) (cosine_sim_min (fw_cfg fw))))"
  by (simp add: validate_Ok_iff check_vector_Ok_iff)

theorem firewall_accepts_iff_witness:
  "validate plain_firewall (HiddenState [0x40400000, 0x40800000]) = Ok ()"
  by (subst firewall_accepts_iff) (simp add: plain_firewall_def float_eval)

text \<open>
  Property C26. Appending elements cannot hide an off-manifold vector: if no element is NaN
  and the norm of a prefix is above the bound, the whole vector is rejected with its own
  norm, whatever the probe says.
\<close>

theorem firewall_no_dilution:
  assumes "\<forall>x \<in> set (v @ w). \<not> f32_is_nan x"
    and "f32_less (l2_norm_max (fw_cfg fw)) (f32_norm v)"
  shows "check_vector fw (v @ w) = Err (OffManifold (f32_norm (v @ w)) 0)"
proof (rule check_vector_l2_Err)
  have "f32_key (f32_norm v) \<le> f32_key (f32_norm (v @ w))" using assms(1) by (rule norm_append)
  moreover have "\<not> f32_is_nan (f32_norm (v @ w))" using assms(1) by (simp only: norm_nan_iff) blast
  ultimately show "f32_less (l2_norm_max (fw_cfg fw)) (f32_norm (v @ w))"
    using assms(2) by (auto simp: f32_less_iff)
qed

theorem firewall_no_dilution_witness:
  "check_vector plain_firewall ([0x44FA0000] @ [0x3F800000]) =
     Err (OffManifold (f32_norm ([0x44FA0000] @ [0x3F800000])) 0)"
  by (rule firewall_no_dilution) (simp_all add: plain_firewall_def float_eval)

text \<open>
  Property C33. Every element of an accepted vector is bounded: with a bound that is not NaN
  and no NaN in the vector, the root of each element's square is at most \<open>l2_norm_max\<close> in
  the order of float values.
\<close>

theorem firewall_bounds_elements:
  assumes "check_vector fw v = Ok ()" and "\<forall>x \<in> set v. \<not> f32_is_nan x"
    and "\<not> f32_is_nan (l2_norm_max (fw_cfg fw))" and "x \<in> set v"
  shows "f32_key (f32_sqrt (f32_mul x x)) \<le> f32_key (l2_norm_max (fw_cfg fw))"
proof -
  have "\<not> f32_is_nan (f32_norm v)" using assms(2) by (auto simp: norm_nan_iff)
  with assms(1,3) have "f32_key (f32_norm v) \<le> f32_key (l2_norm_max (fw_cfg fw))"
    by (auto simp: check_vector_Ok_iff f32_less_iff)
  with norm_element [OF assms(2,4)] show ?thesis by simp
qed

theorem firewall_bounds_elements_witness:
  "f32_key (f32_sqrt (f32_mul 0x40800000 0x40800000)) \<le> f32_key (l2_norm_max (fw_cfg plain_firewall))"
  by (rule firewall_bounds_elements [where v = "[0x40400000, 0x40800000]"])
    (simp_all add: check_vector_def plain_firewall_def float_eval)

text \<open>
  Infinities are caught: a vector with an infinite element and no NaN is
  rejected whenever the bound is an ordinary number.
\<close>

lemma firewall_rejects_infinity:
  assumes "\<forall>y \<in> set v. \<not> f32_is_nan y" and "x \<in> set v" and "f32_is_inf x"
    and "f32_is_finite (l2_norm_max (fw_cfg fw))"
  shows "check_vector fw v = Err (OffManifold (f32_norm v) 0)"
proof (rule check_vector_l2_Err)
  have "f32_key (f32_norm v) = int (infm binary32)"
    using norm_inf [OF assms(1-3)] norm_nonneg [OF assms(1)] by (simp add: nonneg_inf_iff)
  moreover have "f32_key m < int (infm binary32)" if "f32_is_finite m" for m
    using that by (cases m rule: f32_cases) (auto simp: f32_is_finite_def f32_key_def signed_def)
  moreover have "\<not> f32_is_nan m" if "f32_is_finite m" for m
    using that by (simp add: f32_is_finite_def f32_is_nan_def)
  moreover have "\<not> f32_is_nan (f32_norm v)" using assms(1) by (auto simp: norm_nan_iff)
  ultimately show "f32_less (l2_norm_max (fw_cfg fw)) (f32_norm v)"
    using assms(4) by (simp only: f32_less_iff) blast
qed

lemma firewall_rejects_infinity_witness:
  "check_vector plain_firewall [0, 0x7F800000] = Err (OffManifold (f32_norm [0, 0x7F800000]) 0)"
  by (rule firewall_rejects_infinity [where x = "0x7F800000"])
    (simp_all add: plain_firewall_def float_eval)

text \<open>
  Property C34. NaN passes: a vector with a NaN element is accepted by every firewall whose
  probe, if any, has the vector's dimension. Both gates compare with NaN, and both
  comparisons are false.
\<close>

theorem firewall_accepts_nan:
  assumes "x \<in> set v" and "f32_is_nan x"
    and "\<forall>p. fw_probe fw = Some p \<longrightarrow> length v = probe_dim p"
  shows "check_vector fw v = Ok ()"
  using assms nan_norm [of x v] cosine_nan [of x v]
  by (auto simp: check_vector_Ok_iff f32_less_iff)

theorem firewall_accepts_nan_witness:
  "check_vector plain_firewall [0x7FC00000, 0x7F7FFFFF] = Ok ()"
  by (rule firewall_accepts_nan [where x = "0x7FC00000"]) (simp_all add: plain_firewall_def float_eval)

text \<open>
  Property C35. The cosine gate does not look at vectors of another dimension: their
  similarity is 0, so with a minimum of at most 0 (the default is -0.95) the probe has no
  say and only the norm gate is left.
\<close>

theorem firewall_skips_other_dimensions:
  assumes "fw_probe fw = Some p" and "length v \<noteq> probe_dim p"
    and "\<not> f32_less 0 (cosine_sim_min (fw_cfg fw))"
  shows "check_vector fw v = check_vector (fw\<lparr>fw_probe := None\<rparr>) v"
  using assms by (simp add: check_vector_def cosine_similarity_def Let_def)

theorem firewall_skips_other_dimensions_witness:
  "check_vector (plain_firewall\<lparr>fw_probe := Some \<lparr>centroid = [0x3F800000], probe_dim = 1\<rparr>\<rparr>)
     [0x3F800000, 0x3F800000] =
   check_vector (plain_firewall\<lparr>fw_probe := Some \<lparr>centroid = [0x3F800000], probe_dim = 1\<rparr>,
     fw_probe := None\<rparr>) [0x3F800000, 0x3F800000]"
  by (rule firewall_skips_other_dimensions [where p = "\<lparr>centroid = [0x3F800000], probe_dim = 1\<rparr>"])
    (simp_all add: plain_firewall_def float_eval)

text \<open>
  Property C36. A probe that loads comes from a readable file whose non-blank lines all parse,
  and there is at least one; its dimension is that of the first vector that is not empty,
  and its centroid has exactly that length.
\<close>

theorem probe_load_sound:
  assumes "probe_load read json path = Ok p"
  shows "\<exists>raw vs. read path = Inr raw \<and>
    parse_all json (filter (\<lambda>l. \<not> blank_line l) (str_lines raw)) = Some vs \<and> vs \<noteq> [] \<and>
    probe_dim p = first_dim vs \<and> length (centroid p) = probe_dim p"
  using assms by (rule probe_load_Ok)

definition sample_probe_json :: "string \<Rightarrow> string + f32 list" where
  "sample_probe_json l = (if l = ''[2.0]'' then Inr [0x40000000] else Inl ''expected value'')"

theorem probe_load_sound_witness:
  "\<exists>p. probe_load (\<lambda>_. Inr ''[2.0]'') sample_probe_json ''probes.ndjson'' = Ok p \<and>
     length (centroid p) = probe_dim p"
proof -
  have ls: "filter (\<lambda>l. \<not> blank_line l) (str_lines ''[2.0]'') = [''[2.0]'']"
    by (simp add: str_lines_def blank_line_def bytes_of_def strip_cr_def)
  obtain p where p: "probe_load (\<lambda>_. Inr ''[2.0]'') sample_probe_json ''probes.ndjson'' = Ok p"
    by (simp add: probe_load_def ls sample_probe_json_def)
  with probe_load_sound [OF this] show ?thesis by auto
qed

end
