(* ===== verification/Wire.thy ===== *)
theory Wire
  imports Primitives
begin

text \<open>
  The bridge between the mirror structs and Cap'n Proto (\<open>src/primitives.rs\<close>, schema
  \<open>schemas/aptp.capnp\<close>). A reader is the record of what its generated getters return: a
  plain value for a scalar field, a value or an error for a pointer field (the bytes come
  from a peer). A message under construction is the record of what the generated setters
  stored. The packed serializer is a parameter.
\<close>

section \<open>Readers\<close>

record shape_reader =
  get_dims :: "capnp_error + u32 list"

record kv_reader =
  get_layer_idx :: u16
  get_keys :: "capnp_error + f32 list"
  get_values :: "capnp_error + f32 list"
  get_kv_shape :: "capnp_error + shape_reader"

datatype primitive_which =
    HiddenStateR "capnp_error + f32 list"
  | LatentThoughtR "capnp_error + f32 list"
  | KvCacheR "capnp_error + kv_reader"

record metadata_reader =
  get_timestamp_ns :: u64
  get_sequence_id :: u64
  get_session_id :: "capnp_error + string"
  get_compression_alg :: "capnp_error + string"

record packet_reader =
  get_version :: u32
  get_sender_id :: "capnp_error + string"
  get_model_fingerprint :: "capnp_error + u8 list"
  get_layer_index :: u16
  get_which :: "not_in_schema + primitive_which"
  get_shape :: "capnp_error + shape_reader"
  get_metadata :: "capnp_error + metadata_reader"

record invariants_reader =
  get_hidden_size :: u32
  get_num_layers :: u32
  get_num_heads :: u32
  get_vocab_size :: u32
  get_model_family :: "capnp_error + string"

record card_reader =
  get_agent_id :: "capnp_error + string"
  get_aptp_version :: u32
  get_invariants :: "capnp_error + invariants_reader"
  get_capabilities :: "capnp_error + (capnp_error + string) list"

section \<open>Reading\<close>

definition shape_from_capnp :: "shape_reader \<Rightarrow> shape result" where
  "shape_from_capnp r = and_then (getter (get_dims r)) (\<lambda>ds. Ok \<lparr>dims = ds\<rparr>)"

definition text_getter :: "capnp_error + string \<Rightarrow> string result" where
  "text_getter g = and_then (getter g) text_of"

definition kv_from_capnp :: "kv_reader \<Rightarrow> primitive_payload result" where
  "kv_from_capnp kv =
     and_then (getter (get_keys kv)) (\<lambda>ks.
     and_then (getter (get_values kv)) (\<lambda>vs.
     and_then (getter (get_kv_shape kv)) (\<lambda>sr.
     and_then (shape_from_capnp sr) (\<lambda>sh.
       Ok (KvCache \<lparr>layer_idx = get_layer_idx kv, keys = ks, kv_values = vs, kv_shape = sh\<rparr>)))))"

fun payload_from_capnp :: "not_in_schema + primitive_which \<Rightarrow> primitive_payload result" where
  "payload_from_capnp (Inl e) = Err (NotInSchema e)"
| "payload_from_capnp (Inr (HiddenStateR r)) = and_then (getter r) (\<lambda>v. Ok (HiddenState v))"
| "payload_from_capnp (Inr (LatentThoughtR r)) = and_then (getter r) (\<lambda>v. Ok (LatentThought v))"
| "payload_from_capnp (Inr (KvCacheR r)) = and_then (getter r) kv_from_capnp"

definition packet_from_capnp :: "packet_reader \<Rightarrow> primitive_packet result" where
  "packet_from_capnp r =
     and_then (text_getter (get_sender_id r)) (\<lambda>sender.
     and_then (getter (get_model_fingerprint r)) (\<lambda>fp.
     and_then (payload_from_capnp (get_which r)) (\<lambda>pl.
     and_then (getter (get_shape r)) (\<lambda>sr.
     and_then (shape_from_capnp sr) (\<lambda>sh.
     and_then (getter (get_metadata r)) (\<lambda>mr.
     and_then (text_getter (get_session_id mr)) (\<lambda>sid.
     and_then (text_getter (get_compression_alg mr)) (\<lambda>alg.
       Ok \<lparr>version = get_version r, sender_id = sender, model_fingerprint = fp,
           layer_index = get_layer_index r, payload = pl, pkt_shape = sh,
           pkt_metadata = \<lparr>timestamp_ns = get_timestamp_ns mr, sequence_id = get_sequence_id mr,
                           session_id = sid, compression_alg = alg\<rparr>\<rparr>))))))))"

text \<open>The loop over the capability list: each entry can fail on its own.\<close>

fun capabilities_from_capnp :: "(capnp_error + string) list \<Rightarrow> string list result" where
  "capabilities_from_capnp [] = Ok []"
| "capabilities_from_capnp (g # gs) =
     and_then (text_getter g) (\<lambda>c.
     and_then (capabilities_from_capnp gs) (\<lambda>cs. Ok (c # cs)))"

definition agent_card_from_capnp :: "card_reader \<Rightarrow> agent_card result" where
  "agent_card_from_capnp r =
     and_then (getter (get_invariants r)) (\<lambda>inv.
     and_then (text_getter (get_agent_id r)) (\<lambda>aid.
     and_then (text_getter (get_model_family inv)) (\<lambda>fam.
     and_then (getter (get_capabilities r)) (\<lambda>cap_list.
     and_then (capabilities_from_capnp cap_list) (\<lambda>caps.
       Ok \<lparr>agent_id = aid, aptp_version = get_aptp_version r,
           hidden_size = get_hidden_size inv, num_layers = get_num_layers inv,
           num_heads = get_num_heads inv, vocab_size = get_vocab_size inv,
           model_family = fam, capabilities = caps\<rparr>)))))"

section \<open>Messages under construction\<close>

record kv_msg =
  m_layer_idx :: u16
  m_keys :: "f32 list"
  m_values :: "f32 list"
  m_kv_dims :: "u32 list"

datatype primitive_msg =
    HiddenStateM "f32 list"
  | LatentThoughtM "f32 list"
  | KvCacheM kv_msg

record packet_msg =
  m_version :: u32
  m_sender_id :: string
  m_model_fingerprint :: "u8 list"
  m_layer_index :: u16
  m_primitive :: primitive_msg
  m_dims :: "u32 list"
  m_timestamp_ns :: u64
  m_sequence_id :: u64
  m_session_id :: string
  m_compression_alg :: string

text \<open>
  \<open>init_x(v.len() as u32)\<close> asks the builder for a list of zeros whose size is the length
  modulo \<open>2 ^ 32\<close>. A list pointer of the encoding has 29 bits for the number of elements,
  and the builder panics when it is asked for more. \<open>set(i as u32, val)\<close> panics when
  \<open>i\<close> is not an index of the list; the first index out of it is its size, below
  \<open>2 ^ 29\<close>, so the cast of the index never matters. A list of \<open>2 ^ 29\<close> elements or more
  thus panics at \<open>init_x\<close>, unless its length wraps to a small size: then it panics at
  \<open>set\<close>. The memory of a message, and the same limit on the bytes of one text or one
  blob of data, are not modelled.
\<close>

definition list_limit :: nat where
  "list_limit = 2 ^ 29"

definition init_elements :: "'a \<Rightarrow> 'a list \<Rightarrow> 'a list result" where
  "init_elements z v =
     (if unat (len32 v) < list_limit then Ok (replicate (unat (len32 v)) z) else Panic)"

definition init_list :: "('a::zero) list \<Rightarrow> 'a list result" where
  "init_list v = init_elements 0 v"

definition set_list :: "('a::zero) list \<Rightarrow> 'a list result" where
  "set_list v = and_then (init_list v) (fill 0 v)"

fun build_primitive :: "primitive_payload \<Rightarrow> primitive_msg result" where
  "build_primitive (HiddenState v) = and_then (set_list v) (\<lambda>l. Ok (HiddenStateM l))"
| "build_primitive (LatentThought v) = and_then (set_list v) (\<lambda>l. Ok (LatentThoughtM l))"
| "build_primitive (KvCache kv) =
     and_then (set_list (keys kv)) (\<lambda>ks.
     and_then (set_list (kv_values kv)) (\<lambda>vs.
     and_then (set_list (dims (kv_shape kv))) (\<lambda>ds.
       Ok (KvCacheM \<lparr>m_layer_idx = layer_idx kv, m_keys = ks, m_values = vs, m_kv_dims = ds\<rparr>))))"

definition build_packet :: "primitive_packet \<Rightarrow> packet_msg result" where
  "build_packet p =
     and_then (build_primitive (payload p)) (\<lambda>prim.
     and_then (set_list (dims (pkt_shape p))) (\<lambda>ds.
       Ok \<lparr>m_version = version p, m_sender_id = sender_id p,
           m_model_fingerprint = model_fingerprint p, m_layer_index = layer_index p,
           m_primitive = prim, m_dims = ds,
           m_timestamp_ns = timestamp_ns (pkt_metadata p),
           m_sequence_id = sequence_id (pkt_metadata p),
           m_session_id = session_id (pkt_metadata p),
           m_compression_alg = compression_alg (pkt_metadata p)\<rparr>))"

text \<open>\<open>write\<close> is \<open>serialize_packed::write_message\<close> into a fresh buffer.\<close>

definition packet_to_bytes ::
  "(packet_msg \<Rightarrow> capnp_error + u8 list) \<Rightarrow> primitive_packet \<Rightarrow> u8 list result" where
  "packet_to_bytes write p = and_then (build_packet p) (\<lambda>msg. getter (write msg))"

section \<open>What a built message holds\<close>

text \<open>
  What a packet has to satisfy to be written: every list is below the limit of the
  encoding, and every string is UTF-8 (a Rust \<open>String\<close> always is).
\<close>

fun payload_fits :: "primitive_payload \<Rightarrow> bool" where
  "payload_fits (HiddenState v) \<longleftrightarrow> length v < list_limit"
| "payload_fits (LatentThought v) \<longleftrightarrow> length v < list_limit"
| "payload_fits (KvCache kv) \<longleftrightarrow>
     length (keys kv) < list_limit \<and> length (kv_values kv) < list_limit \<and>
     length (dims (kv_shape kv)) < list_limit"

definition packet_fits :: "primitive_packet \<Rightarrow> bool" where
  "packet_fits p \<longleftrightarrow> payload_fits (payload p) \<and> length (dims (pkt_shape p)) < list_limit"

definition packet_utf8 :: "primitive_packet \<Rightarrow> bool" where
  "packet_utf8 p \<longleftrightarrow>
     utf8 (sender_id p) \<and> utf8 (session_id (pkt_metadata p)) \<and>
     utf8 (compression_alg (pkt_metadata p))"

fun msg_of_payload :: "primitive_payload \<Rightarrow> primitive_msg" where
  "msg_of_payload (HiddenState v) = HiddenStateM v"
| "msg_of_payload (LatentThought v) = LatentThoughtM v"
| "msg_of_payload (KvCache kv) =
     KvCacheM \<lparr>m_layer_idx = layer_idx kv, m_keys = keys kv, m_values = kv_values kv,
               m_kv_dims = dims (kv_shape kv)\<rparr>"

definition msg_of_packet :: "primitive_packet \<Rightarrow> packet_msg" where
  "msg_of_packet p =
     \<lparr>m_version = version p, m_sender_id = sender_id p,
      m_model_fingerprint = model_fingerprint p, m_layer_index = layer_index p,
      m_primitive = msg_of_payload (payload p), m_dims = dims (pkt_shape p),
      m_timestamp_ns = timestamp_ns (pkt_metadata p),
      m_sequence_id = sequence_id (pkt_metadata p),
      m_session_id = session_id (pkt_metadata p),
      m_compression_alg = compression_alg (pkt_metadata p)\<rparr>"

text \<open>
  Any list of elements, whatever fills a fresh one: stored below the limit, a panic from
  it on (refused by the builder, or filled past the end of a list whose size has wrapped).
\<close>

lemma fill_panics: "length buf - i < length xs \<Longrightarrow> i \<le> length buf \<Longrightarrow> fill i xs buf = Panic"
  by (induction xs arbitrary: i buf) (auto simp: Suc_diff_le not_less)

lemma set_elements_fits:
  assumes "length v < 2 ^ 29"
  shows "and_then (init_elements z v) (fill 0 v) = Ok v"
proof -
  have n: "unat (len32 v) = length v" using assms by (simp add: unat_len32)
  then have "init_elements z v = Ok (replicate (length v) z)"
    using assms by (simp add: init_elements_def list_limit_def)
  moreover have "fill 0 v (replicate (length v) z) = Ok v" by (rule fill_all) simp
  ultimately show ?thesis by simp
qed

lemma set_elements_too_long:
  assumes "2 ^ 29 \<le> length v"
  shows "and_then (init_elements z v) (fill 0 v) = Panic"
proof (cases "unat (len32 v) < list_limit")
  case True
  then have "unat (len32 v) < length v" using assms by (simp add: list_limit_def)
  then have "fill 0 v (replicate (unat (len32 v)) z) = Panic" by (intro fill_panics) simp_all
  then show ?thesis using True by (simp add: init_elements_def)
qed (simp add: init_elements_def)

lemma set_elements_eq:
  "and_then (init_elements z v) (fill 0 v) = (if length v < 2 ^ 29 then Ok v else Panic)"
proof (cases "length v < 2 ^ 29")
  case True
  then show ?thesis using set_elements_fits [OF True] by simp
next
  case False
  then show ?thesis using set_elements_too_long [of v z] by simp
qed

lemma set_list_eq: "set_list v = (if length v < 2 ^ 29 then Ok v else Panic)"
  unfolding set_list_def init_list_def by (rule set_elements_eq)

lemma set_list_fits: "length v < 2 ^ 29 \<Longrightarrow> set_list v = Ok v"
  by (simp only: set_list_eq if_True)

lemma set_list_too_long: "2 ^ 29 \<le> length v \<Longrightarrow> set_list v = Panic"
  unfolding set_list_def init_list_def by (rule set_elements_too_long)

lemma build_primitive_eq:
  "build_primitive pl = (if payload_fits pl then Ok (msg_of_payload pl) else Panic)"
  by (cases pl) (simp_all add: set_list_eq list_limit_def)

lemma build_packet_eq:
  "build_packet p = (if packet_fits p then Ok (msg_of_packet p) else Panic)"
  by (simp add: packet_fits_def build_packet_def msg_of_packet_def build_primitive_eq set_list_eq
      list_limit_def)

section \<open>A reader on a message\<close>

text \<open>
  What Cap'n Proto documents of a message that a builder produced: each getter returns
  what the setter of the same field stored.
\<close>

fun reads_primitive :: "not_in_schema + primitive_which \<Rightarrow> primitive_msg \<Rightarrow> bool" where
  "reads_primitive (Inr (HiddenStateR r)) (HiddenStateM v) \<longleftrightarrow> r = Inr v"
| "reads_primitive (Inr (LatentThoughtR r)) (LatentThoughtM v) \<longleftrightarrow> r = Inr v"
| "reads_primitive (Inr (KvCacheR r)) (KvCacheM kv) \<longleftrightarrow>
     (case r of Inl e \<Rightarrow> False
      | Inr k \<Rightarrow> get_layer_idx k = m_layer_idx kv \<and> get_keys k = Inr (m_keys kv) \<and>
          get_values k = Inr (m_values kv) \<and>
          get_kv_shape k = Inr \<lparr>get_dims = Inr (m_kv_dims kv)\<rparr>)"
| "reads_primitive w m \<longleftrightarrow> False"

definition reads_packet :: "packet_reader \<Rightarrow> packet_msg \<Rightarrow> bool" where
  "reads_packet r m \<longleftrightarrow>
     get_version r = m_version m \<and> get_sender_id r = Inr (m_sender_id m) \<and>
     get_model_fingerprint r = Inr (m_model_fingerprint m) \<and>
     get_layer_index r = m_layer_index m \<and> reads_primitive (get_which r) (m_primitive m) \<and>
     get_shape r = Inr \<lparr>get_dims = Inr (m_dims m)\<rparr> \<and>
     get_metadata r = Inr \<lparr>get_timestamp_ns = m_timestamp_ns m, get_sequence_id = m_sequence_id m,
        get_session_id = Inr (m_session_id m), get_compression_alg = Inr (m_compression_alg m)\<rparr>"

lemma payload_from_reads:
  "reads_primitive w (msg_of_payload pl) \<Longrightarrow> payload_from_capnp w = Ok pl"
proof (cases pl)
  case (KvCache kv)
  assume "reads_primitive w (msg_of_payload pl)"
  then show ?thesis using KvCache
    by (cases w; simp; cases "projr w"; simp split: sum.splits)
      (auto simp: kv_from_capnp_def shape_from_capnp_def)
qed (cases w rule: payload_from_capnp.cases; simp)+

lemma packet_from_reads:
  "reads_packet r (msg_of_packet p) \<Longrightarrow> packet_utf8 p \<Longrightarrow> packet_from_capnp r = Ok p"
  by (cases p; cases "pkt_metadata p"; cases "pkt_shape p")
    (simp add: reads_packet_def msg_of_packet_def packet_from_capnp_def packet_utf8_def
      text_getter_def shape_from_capnp_def payload_from_reads)

section \<open>Reading never panics\<close>

lemma text_getter_returns [simp]: "returns (text_getter g)"
  by (simp add: text_getter_def returns_and_then)

lemma shape_from_capnp_returns [simp]: "returns (shape_from_capnp r)"
  by (simp add: shape_from_capnp_def returns_and_then)

lemma kv_from_capnp_returns [simp]: "returns (kv_from_capnp r)"
  by (simp add: kv_from_capnp_def returns_and_then)

lemma payload_from_capnp_returns [simp]: "returns (payload_from_capnp w)"
  by (cases w rule: payload_from_capnp.cases) (auto simp: returns_and_then)

lemma packet_from_capnp_returns [simp]: "returns (packet_from_capnp r)"
  by (simp add: packet_from_capnp_def returns_and_then)

lemma capabilities_returns [simp]: "returns (capabilities_from_capnp gs)"
  by (induction gs) (auto simp: returns_and_then)

lemma agent_card_from_capnp_returns [simp]: "returns (agent_card_from_capnp r)"
  by (simp add: agent_card_from_capnp_def returns_and_then)

text \<open>Every string of a packet that was read is UTF-8, whatever the peer sent.\<close>

lemma text_getter_Ok_iff [simp]: "text_getter g = Ok s \<longleftrightarrow> g = Inr s \<and> utf8 s"
  by (auto simp: text_getter_def)

lemma text_getter_utf8 [simp]: "utf8 s \<Longrightarrow> text_getter (Inr s) = Ok s"
  by simp

lemma packet_from_capnp_utf8: "packet_from_capnp r = Ok p \<Longrightarrow> packet_utf8 p"
  by (auto simp: packet_from_capnp_def packet_utf8_def)

lemma capabilities_from_capnp_Ok_iff:
  "capabilities_from_capnp gs = Ok cs \<longleftrightarrow> gs = map Inr cs \<and> (\<forall>c \<in> set cs. utf8 c)"
  by (induction gs arbitrary: cs) auto

section \<open>Properties of the bridge\<close>

lemma agent_card_Ok_iff:
  "agent_card_from_capnp r = Ok c \<longleftrightarrow>
     (\<exists>inv. get_invariants r = Inr inv \<and> get_agent_id r = Inr (agent_id c) \<and>
        get_model_family inv = Inr (model_family c) \<and>
        get_capabilities r = Inr (map Inr (capabilities c)) \<and>
        utf8 (agent_id c) \<and> utf8 (model_family c) \<and> (\<forall>s \<in> set (capabilities c). utf8 s) \<and>
        aptp_version c = get_aptp_version r \<and> hidden_size c = get_hidden_size inv \<and>
        num_layers c = get_num_layers inv \<and> num_heads c = get_num_heads inv \<and>
        vocab_size c = get_vocab_size inv)"
  by (cases c) (auto simp: agent_card_from_capnp_def capabilities_from_capnp_Ok_iff)

text \<open>
  Property C16. Packets survive the wire: if a packet's strings are UTF-8 and it serialises,
  then a reader whose getters return what the message's setters stored gives back the same
  packet, field by field and float bit by float bit.
\<close>

theorem packet_round_trip:
  assumes "packet_utf8 p" and "packet_to_bytes write p = Ok bytes"
    and "\<And>m. write m = Inr bytes \<Longrightarrow> reads_packet (decode bytes) m"
  shows "packet_from_capnp (decode bytes) = Ok p"
proof -
  have "packet_fits p" "write (msg_of_packet p) = Inr bytes"
    using assms(2) by (auto simp: packet_to_bytes_def build_packet_eq split: if_splits)
  then show ?thesis using assms(1,3) packet_from_reads by blast
qed

definition sample_reader :: packet_reader where
  "sample_reader =
     \<lparr>get_version = 1, get_sender_id = Inr ''a'', get_model_fingerprint = Inr [7],
      get_layer_index = 1, get_which = Inr (HiddenStateR (Inr [0])),
      get_shape = Inr \<lparr>get_dims = Inr [1, 1, 1]\<rparr>,
      get_metadata = Inr \<lparr>get_timestamp_ns = 0, get_sequence_id = 0, get_session_id = Inr ''s'',
        get_compression_alg = Inr ''none''\<rparr>\<rparr>"

lemma sample_packet_utf8: "packet_utf8 sample_packet"
  by (simp add: packet_utf8_def sample_packet_def utf8_def bytes_of_def)

lemma sample_reads: "reads_packet sample_reader (msg_of_packet sample_packet)"
  by (simp add: reads_packet_def sample_reader_def msg_of_packet_def sample_packet_def APTP_VERSION_def)

lemma sample_packet_fits: "packet_fits sample_packet"
  by (simp add: packet_fits_def sample_packet_def list_limit_def)

theorem packet_round_trip_witness:
  "packet_from_capnp ((\<lambda>bytes :: u8 list. sample_reader) []) = Ok sample_packet"
  by (rule packet_round_trip [of sample_packet
        "\<lambda>m. if m = msg_of_packet sample_packet then Inr [] else Inl (Failed [])" "[]"
        "\<lambda>bytes. sample_reader"])
    (auto simp: packet_to_bytes_def build_packet_eq sample_packet_utf8 sample_packet_fits sample_reads
      split: if_splits)

text \<open>
  Serialising a packet panics exactly when one of its lists has
  \<open>2 ^ 29\<close> elements or more; otherwise the serializer gets a message that holds every field of the
  packet, and its error is passed on.
\<close>

lemma packet_to_bytes_outcome:
  "packet_to_bytes write p =
     (if packet_fits p then getter (write (msg_of_packet p)) else Panic)"
  by (simp add: packet_to_bytes_def build_packet_eq)

text \<open>
  Reading an untrusted packet never panics, and a packet that was read has valid
  UTF-8 in each of its strings: what the getters return, errors included, is all that can be
  wrong.
\<close>

lemma packet_reading_safe:
  "returns (packet_from_capnp r) \<and> (packet_from_capnp r = Ok p \<longrightarrow> packet_utf8 p)"
  by (simp add: packet_from_capnp_utf8)

lemma packet_reading_safe_witness:
  "packet_from_capnp sample_reader = Ok sample_packet \<and> packet_utf8 sample_packet"
  using packet_reading_safe [of sample_reader sample_packet] packet_from_reads [OF sample_reads sample_packet_utf8]
  by simp

text \<open>
  An agent card is read exactly when every part of it is there and every string
  of it, each capability included, is UTF-8; then it holds the values of the message.
\<close>

lemma agent_card_reading:
  "agent_card_from_capnp r = Ok c \<longleftrightarrow>
     (\<exists>inv. get_invariants r = Inr inv \<and> get_agent_id r = Inr (agent_id c) \<and>
        get_model_family inv = Inr (model_family c) \<and>
        get_capabilities r = Inr (map Inr (capabilities c)) \<and>
        list_all utf8 (agent_id c # model_family c # capabilities c) \<and>
        aptp_version c = get_aptp_version r \<and> hidden_size c = get_hidden_size inv \<and>
        num_layers c = get_num_layers inv \<and> num_heads c = get_num_heads inv \<and>
        vocab_size c = get_vocab_size inv)"
  by (auto simp: agent_card_Ok_iff list_all_iff)

end
