(* ===== verification/Rpc.thy ===== *)
theory Rpc
  imports Sessions Negotiate Validation Wire
begin

text \<open>
  The RPC server of \<open>src/rpc\<close>: the handlers \<open>handshake::handle\<close> and
  \<open>stream::handle\<close>, the packet sink, the server object and the four methods of the
  Cap'n Proto interface. A handler takes the state it locks or sends to and returns it
  updated beside its outcome. Parameters: how foreign errors print, SHA-256, UUIDs, the
  clock, the file reader and JSON parser behind the probe, and the \<open>mpsc\<close> channel.
\<close>

section \<open>Handshake\<close>

datatype handshake_status = Accepted | Rejected | NeedsAdapter

type_synonym handshake_answer = "handshake_status \<times> string \<times> adapter_variant \<times> string"

definition version_reason :: "u32 \<Rightarrow> string" where
  "version_reason remote =
     ''version mismatch: remote='' @ show_u32 remote @ '', local='' @ show_u32 APTP_VERSION"

definition handshake_handle ::
  "string \<Rightarrow> nat option \<Rightarrow> agent_card \<Rightarrow> aptp_config \<Rightarrow> registry \<Rightarrow> handshake_answer result \<times> registry"
where
  "handshake_handle uuid clock remote_card cfg reg =
     (if aptp_version remote_card \<noteq> APTP_VERSION
      then (Ok (Rejected, [], Identity, version_reason (aptp_version remote_card)), reg)
      else
        let local_hidden = cfg_hidden_size (cfg_agent cfg);
            remote_hidden = hidden_size remote_card;
            (status, adp) =
              (if local_hidden = remote_hidden then (Accepted, Identity)
               else if \<not> allow_dimension_mismatch_passthrough (cfg_adapter cfg)
                 then (NeedsAdapter, LinearProjection)
               else (Accepted, Identity));
            (sid, reg') = reg_open uuid clock (agent_id remote_card) (Some adp) reg
        in (Ok (status, sid, adp, []), reg'))"

section \<open>The packet sink\<close>

text \<open>
  \<open>tokio::sync::mpsc\<close>: \<open>channel(n)\<close> (\<open>None\<close>: it panics), \<open>send(x).await\<close> once it
  resolves (\<open>None\<close>: the error of a closed channel), and the receiver being dropped.
\<close>

record 'ch mpsc =
  chan_new :: "usize \<Rightarrow> 'ch option"
  chan_send :: "tagged_primitive \<Rightarrow> 'ch \<Rightarrow> 'ch option"
  chan_drop_rx :: "'ch \<Rightarrow> 'ch"

definition sink_closed :: aptp_error where
  "sink_closed = Internal ''PacketSink channel closed''"

definition sink_new :: "'ch mpsc \<Rightarrow> usize \<Rightarrow> 'ch result" where
  "sink_new M buffer = (case chan_new M buffer of None \<Rightarrow> Panic | Some ch \<Rightarrow> Ok ch)"

definition sink_send :: "'ch mpsc \<Rightarrow> tagged_primitive \<Rightarrow> 'ch \<Rightarrow> unit result \<times> 'ch" where
  "sink_send M tagged ch =
     (case chan_send M tagged ch of None \<Rightarrow> (Err sink_closed, ch) | Some ch' \<Rightarrow> (Ok (), ch'))"

section \<open>Streaming a primitive\<close>

text \<open>
  The handler after the packet has been read: validate, tag and verify, send to the sink,
  then count. \<open>gate\<close> is the trait object's \<open>validate\<close>.
\<close>

definition stream_accept ::
  "(u8 list \<Rightarrow> u8 list) \<Rightarrow> 'ch mpsc \<Rightarrow> primitive_packet \<Rightarrow> registry \<Rightarrow> 'ch
     \<Rightarrow> bool result \<times> registry \<times> 'ch" where
  "stream_accept sha M packet reg ch =
     (case and_then (tagged_new sha packet f32_one)
             (\<lambda>tagged. and_then (verify_provenance sha tagged) (\<lambda>ok. Ok (tagged, ok))) of
        Ok (tagged, ok) \<Rightarrow>
          if \<not> ok then (Err ProvenanceMismatch, reg, ch)
          else (case sink_send M tagged ch of
              (Ok u, ch') \<Rightarrow>
                let (r, reg') = reg_increment (session_id (pkt_metadata packet)) reg
                in (and_then r (\<lambda>_. Ok True), reg', ch')
            | (e, ch') \<Rightarrow> (and_then e (\<lambda>_. Ok True), reg, ch'))
      | Err e \<Rightarrow> (Err e, reg, ch)
      | Panic \<Rightarrow> (Panic, reg, ch)
      | UB \<Rightarrow> (UB, reg, ch))"

definition stream_handle ::
  "(u8 list \<Rightarrow> u8 list) \<Rightarrow> (primitive_payload \<Rightarrow> unit result) \<Rightarrow> 'ch mpsc \<Rightarrow> packet_reader
     \<Rightarrow> registry \<Rightarrow> 'ch \<Rightarrow> bool result \<times> registry \<times> 'ch" where
  "stream_handle sha gate M reader reg ch =
     (case packet_from_capnp reader of
        Err e \<Rightarrow> (Ok False, reg, ch)
      | Panic \<Rightarrow> (Panic, reg, ch)
      | UB \<Rightarrow> (UB, reg, ch)
      | Ok packet \<Rightarrow>
          (case gate (payload packet) of
             Err e \<Rightarrow> (Ok False, reg, ch)
           | Panic \<Rightarrow> (Panic, reg, ch)
           | UB \<Rightarrow> (UB, reg, ch)
           | Ok u \<Rightarrow> stream_accept sha M packet reg ch))"

section \<open>The server object\<close>

record 'ch rpc_server =
  srv_cfg :: aptp_config
  srv_firewall :: neural_firewall
  srv_sessions :: registry
  srv_sink :: 'ch

text \<open>The receiver half is bound to \<open>_rx\<close> and dropped when \<open>new\<close> returns.\<close>

definition rpc_server_new ::
  "(string \<Rightarrow> string + string) \<Rightarrow> (string \<Rightarrow> string + f32 list) \<Rightarrow> 'ch mpsc \<Rightarrow> aptp_config
     \<Rightarrow> usize \<Rightarrow> 'ch rpc_server result" where
  "rpc_server_new read json M cfg sink_buffer =
     and_then (firewall_new read json (cfg_validation cfg)) (\<lambda>firewall.
     and_then (sink_new M sink_buffer) (\<lambda>ch.
       Ok \<lparr>srv_cfg = cfg, srv_firewall = firewall, srv_sessions = Map.empty,
           srv_sink = chan_drop_rx M ch\<rparr>))"

section \<open>The interface methods\<close>

text \<open>The card as the setters write it, in a handshake request or answer.\<close>

record card_msg =
  cm_agent_id :: string
  cm_aptp_version :: u32
  cm_public_key :: "u8 list"
  cm_hidden_size :: u32
  cm_num_layers :: u32
  cm_num_heads :: u32
  cm_vocab_size :: u32
  cm_model_family :: string
  cm_capabilities :: "string list"

datatype adapter_type = IdentityT | LinearProjectionT | NormMatchT

fun adapter_type_of :: "adapter_variant \<Rightarrow> adapter_type" where
  "adapter_type_of Identity = IdentityT"
| "adapter_type_of LinearProjection = LinearProjectionT"
| "adapter_type_of NormMatch = NormMatchT"

record handshake_msg =
  hm_assigned_session :: string
  hm_rejection_reason :: string
  hm_status :: handshake_status
  hm_server_card :: card_msg
  hm_adapter_required :: adapter_type

definition server_card :: "aptp_config \<Rightarrow> card_msg" where
  "server_card cfg =
     \<lparr>cm_agent_id = cfg_agent_id (cfg_agent cfg), cm_aptp_version = APTP_VERSION,
      cm_public_key = [],
      cm_hidden_size = cfg_hidden_size (cfg_agent cfg),
      cm_num_layers = cfg_num_layers (cfg_agent cfg),
      cm_num_heads = cfg_num_heads (cfg_agent cfg),
      cm_vocab_size = cfg_vocab_size (cfg_agent cfg),
      cm_model_family = cfg_model_family (cfg_agent cfg),
      cm_capabilities = [''hidden_state'', ''kv_cache'', ''latent_thought'']\<rparr>"

definition rpc_handshake ::
  "display_env \<Rightarrow> string \<Rightarrow> nat option \<Rightarrow> capnp_error + (capnp_error + card_reader)
     \<Rightarrow> 'ch rpc_server \<Rightarrow> (handshake_msg, capnp_error) outcome \<times> 'ch rpc_server" where
  "rpc_handshake D uuid clock params srv =
     (case and_then (rpc_getter D params) (\<lambda>reader.
           and_then (rpc_getter D reader) (\<lambda>card_reader.
             rpc_result D (agent_card_from_capnp card_reader))) of
        Ok remote_card \<Rightarrow>
          let (answer, reg') = handshake_handle uuid clock remote_card (srv_cfg srv) (srv_sessions srv)
          in (and_then (rpc_result D answer) (\<lambda>(status, sid, adp, reason).
                Ok \<lparr>hm_assigned_session = sid, hm_rejection_reason = reason, hm_status = status,
                    hm_server_card = server_card (srv_cfg srv),
                    hm_adapter_required = adapter_type_of adp\<rparr>),
              srv\<lparr>srv_sessions := reg'\<rparr>)
      | Err e \<Rightarrow> (Err e, srv)
      | Panic \<Rightarrow> (Panic, srv)
      | UB \<Rightarrow> (UB, srv))"

definition rpc_stream_primitive ::
  "display_env \<Rightarrow> (u8 list \<Rightarrow> u8 list) \<Rightarrow> 'ch mpsc \<Rightarrow> capnp_error + (capnp_error + packet_reader)
     \<Rightarrow> 'ch rpc_server \<Rightarrow> (bool, capnp_error) outcome \<times> 'ch rpc_server" where
  "rpc_stream_primitive D sha M params srv =
     (case and_then (rpc_getter D params) (rpc_getter D) of
        Ok reader \<Rightarrow>
          let (r, reg', ch') =
            stream_handle sha (validate (srv_firewall srv)) M reader (srv_sessions srv) (srv_sink srv)
          in (rpc_result D r, srv\<lparr>srv_sessions := reg', srv_sink := ch'\<rparr>)
      | Err e \<Rightarrow> (Err e, srv)
      | Panic \<Rightarrow> (Panic, srv)
      | UB \<Rightarrow> (UB, srv))"

record negotiate_reader =
  get_source_dim :: u32
  get_target_dim :: u32
  get_source_family :: "capnp_error + string"
  get_target_family :: "capnp_error + string"

record alignment_msg =
  am_adapter_type :: adapter_type
  am_source_dim :: u32
  am_target_dim :: u32
  am_weights :: "f32 list"

text \<open>\<open>to_str().unwrap_or("unknown")\<close>\<close>

definition str_or_unknown :: "string \<Rightarrow> string" where
  "str_or_unknown s = (case to_str s of Ok t \<Rightarrow> t | _ \<Rightarrow> ''unknown'')"

text \<open>The method touches no server state; the weight counter is global to the process.\<close>

definition rpc_negotiate_alignment ::
  "display_env \<Rightarrow> nat option \<Rightarrow> capnp_error + negotiate_reader \<Rightarrow> u64
     \<Rightarrow> (alignment_msg, capnp_error) outcome \<times> u64" where
  "rpc_negotiate_alignment D clock params counter =
     (case and_then (rpc_getter D params) (\<lambda>p.
           and_then (rpc_getter D (get_source_family p)) (\<lambda>sf.
           and_then (rpc_getter D (get_target_family p)) (\<lambda>tf.
             Ok (p, str_or_unknown sf, str_or_unknown tf)))) of
        Ok (p, source_family, target_family) \<Rightarrow>
          let (answer, counter') =
            negotiate_handle clock counter (get_source_dim p) (get_target_dim p)
              source_family target_family
          in (and_then (rpc_result D answer) (\<lambda>(variant, weights).
              and_then (rpc_result D (set_list weights)) (\<lambda>w.
                Ok \<lparr>am_adapter_type = adapter_type_of variant, am_source_dim = get_source_dim p,
                    am_target_dim = get_target_dim p, am_weights = w\<rparr>)), counter')
      | Err e \<Rightarrow> (Err e, counter)
      | Panic \<Rightarrow> (Panic, counter)
      | UB \<Rightarrow> (UB, counter))"

definition rpc_finalize ::
  "display_env \<Rightarrow> capnp_error + (capnp_error + string) \<Rightarrow> 'ch rpc_server
     \<Rightarrow> (u64, capnp_error) outcome \<times> 'ch rpc_server" where
  "rpc_finalize D params srv =
     (case and_then (rpc_getter D params) (\<lambda>info.
           and_then (rpc_getter D info) (\<lambda>s. map_err (\<lambda>e. Failed (show_utf8_error e)) (to_str s))) of
        Ok sid \<Rightarrow>
          let (r, reg') = reg_drain sid (srv_sessions srv)
          in (rpc_result D r, srv\<lparr>srv_sessions := reg'\<rparr>)
      | Err e \<Rightarrow> (Err e, srv)
      | Panic \<Rightarrow> (Panic, srv)
      | UB \<Rightarrow> (UB, srv))"

text \<open>
  A concrete channel for examples: the values sent so far and whether the receiver is alive.
\<close>

definition list_mpsc :: "(tagged_primitive list \<times> bool) mpsc" where
  "list_mpsc =
     \<lparr>chan_new = (\<lambda>n. if n = 0 then None else Some ([], True)),
      chan_send = (\<lambda>t (sent, alive). if alive then Some (sent @ [t], True) else None),
      chan_drop_rx = (\<lambda>(sent, alive). (sent, False))\<rparr>"

definition no_env :: display_env where
  "no_env = \<lparr>show_io = \<lambda>_. [], show_capnp = \<lambda>_. [], show_not_in_schema = \<lambda>_. [], show_float = \<lambda>_ _. []\<rparr>"

lemma read_sample: "packet_from_capnp sample_reader = Ok sample_packet"
  by (rule packet_from_reads [OF sample_reads sample_packet_utf8])

lemma plain_accepts_sample: "validate plain_firewall (payload sample_packet) = Ok ()"
  by (simp add: sample_packet_def check_vector_def plain_firewall_def float_eval)

lemma session_of_sample: "session_id (pkt_metadata sample_packet) = ''s''"
  by (simp add: sample_packet_def)

section \<open>Simplified forms\<close>

lemma sink_send_simps [handler_simps]:
  "chan_send M t ch = None \<Longrightarrow> sink_send M t ch = (Err sink_closed, ch)"
  "chan_send M t ch = Some ch' \<Longrightarrow> sink_send M t ch = (Ok (), ch')"
  by (simp_all add: sink_send_def)

text \<open>The tag of a packet accepted by the handler, with the fixed fairness score 1.0.\<close>

definition tag_of :: "(u8 list \<Rightarrow> u8 list) \<Rightarrow> primitive_packet \<Rightarrow> tagged_primitive" where
  "tag_of sha p =
     \<lparr>tag_hash = sha (provenance_input p), fairness_score = f32_one, tag_packet = p\<rparr>"

lemma stream_accept_eq [handler_simps]:
  "stream_accept sha M p reg ch =
     (case chan_send M (tag_of sha p) ch of
        None \<Rightarrow> (Err sink_closed, reg, ch)
      | Some ch' \<Rightarrow>
          (and_then (fst (reg_increment (session_id (pkt_metadata p)) reg)) (\<lambda>_. Ok True),
           snd (reg_increment (session_id (pkt_metadata p)) reg), ch'))"
  by (simp add: stream_accept_def tag_of_def sink_send_def split: option.splits prod.splits)

text \<open>The outcomes of the handler, one per way through it.\<close>

lemma stream_handle_malformed:
  "packet_from_capnp r = Err e \<Longrightarrow> stream_handle sha gate M r reg ch = (Ok False, reg, ch)"
  by (simp add: stream_handle_def)

lemma stream_handle_rejected:
  "packet_from_capnp r = Ok p \<Longrightarrow> gate (payload p) = Err e \<Longrightarrow>
     stream_handle sha gate M r reg ch = (Ok False, reg, ch)"
  by (simp add: stream_handle_def)

lemma stream_handle_valid:
  "packet_from_capnp r = Ok p \<Longrightarrow> gate (payload p) = Ok () \<Longrightarrow>
     stream_handle sha gate M r reg ch = stream_accept sha M p reg ch"
  by (simp add: stream_handle_def)

context validation_gate
begin

text \<open>Every run of the handler over any gate takes one of five ways.\<close>

lemma stream_cases:
  obtains
    (malformed) e where "packet_from_capnp r = Err e"
      "stream_handle sha gate M r reg ch = (Ok False, reg, ch)"
  | (rejected) p e where "packet_from_capnp r = Ok p" "gate (payload p) = Err e"
      "stream_handle sha gate M r reg ch = (Ok False, reg, ch)"
  | (closed) p where "packet_from_capnp r = Ok p" "gate (payload p) = Ok ()"
      "chan_send M (tag_of sha p) ch = None"
      "stream_handle sha gate M r reg ch = (Err sink_closed, reg, ch)"
  | (unknown) p ch' where "packet_from_capnp r = Ok p" "gate (payload p) = Ok ()"
      "chan_send M (tag_of sha p) ch = Some ch'" "reg (session_id (pkt_metadata p)) = None"
      "stream_handle sha gate M r reg ch =
         (Err (unknown_session (session_id (pkt_metadata p))), reg, ch')"
  | (acked) p ch' s where "packet_from_capnp r = Ok p" "gate (payload p) = Ok ()"
      "chan_send M (tag_of sha p) ch = Some ch'" "reg (session_id (pkt_metadata p)) = Some s"
      "stream_handle sha gate M r reg ch =
         (Ok True, reg(session_id (pkt_metadata p) \<mapsto> s\<lparr>ss_received_count := ss_received_count s + 1\<rparr>), ch')"
proof (cases "packet_from_capnp r")
  case (Err e)
  then show thesis using that(1) by (simp add: stream_handle_malformed)
next
  case (Ok p)
  show thesis
  proof (cases "gate (payload p)" rule: outcome.exhaust)
    case (Err e)
    then show thesis using that(2) Ok by (simp add: stream_handle_rejected)
  next
    case v: (Ok u)
    then have eq: "stream_handle sha gate M r reg ch = stream_accept sha M p reg ch"
      using Ok by (simp add: stream_handle_valid)
    show thesis
    proof (cases "chan_send M (tag_of sha p) ch")
      case None
      then show thesis using that(3) Ok v eq by (simp add: handler_simps)
    next
      case (Some ch')
      then show thesis using that(4,5) Ok v eq
        by (cases "reg (session_id (pkt_metadata p))")
          (simp_all add: handler_simps)
    qed
  qed (use gate_returns [of "payload p"] in auto)
qed (use packet_from_capnp_returns [of r] in auto)

lemma stream_returns: "returns (fst (stream_handle sha gate M r reg ch))"
  by (cases r reg ch rule: stream_cases [where sha = sha and M = M]) auto

text \<open>An acknowledged packet passed the gate and is in the sink with its own tag.\<close>

lemma stream_ack_valid:
  assumes "stream_handle sha gate M r reg ch = (Ok True, reg', ch')"
  shows "\<exists>p. packet_from_capnp r = Ok p \<and> gate (payload p) = Ok () \<and>
    chan_send M (tag_of sha p) ch = Some ch' \<and> session_id (pkt_metadata p) \<in> dom reg"
  using assms
  by (cases r reg ch rule: stream_cases [where sha = sha and M = M]) auto

lemma stream_reg_inv:
  "reg_inv reg \<Longrightarrow> reg_inv (fst (snd (stream_handle sha gate M r reg ch)))"
  by (cases r reg ch rule: stream_cases [where sha = sha and M = M]) (auto simp: reg_inv_def)

end

lemma handshake_returns: "returns (fst (handshake_handle uuid clock remote cfg reg))"
  by (simp add: handshake_handle_def Let_def handler_simps)

section \<open>The handlers over a server\<close>

text \<open>
  Property C17. The version gate and the dimension rule of the handshake: the answer is never
  an error; it rejects exactly the cards of another protocol version, and then opens no
  session and names a reason; otherwise the peer's new session is registered under the
  assigned id with count 0 and every other session is untouched; an adapter is required
  exactly when the hidden sizes differ and passthrough is off.
\<close>

theorem handshake_contract:
  "\<exists>status sid adp reason.
     fst (handshake_handle uuid clock remote cfg reg) = Ok (status, sid, adp, reason) \<and>
     (let reg' = snd (handshake_handle uuid clock remote cfg reg) in
        (if aptp_version remote \<noteq> APTP_VERSION
         then status = Rejected \<and> sid = [] \<and> adp = Identity \<and> reason \<noteq> [] \<and> reg' = reg
         else status \<noteq> Rejected \<and> sid = uuid \<and> reason = [] \<and>
              reg_count reg' = (reg_count reg)(uuid \<mapsto> 0) \<and>
              map_option ss_peer_agent_id (reg' uuid) = Some (agent_id remote) \<and>
              map_option ss_adapter (reg' uuid) = Some (Some adp) \<and>
              (status = NeedsAdapter) = (adp = LinearProjection) \<and>
              (status = NeedsAdapter) =
                (cfg_hidden_size (cfg_agent cfg) \<noteq> hidden_size remote \<and>
                 \<not> allow_dimension_mismatch_passthrough (cfg_adapter cfg))))"
  by (auto simp: handshake_handle_def Let_def handler_simps version_reason_def)

text \<open>
  Property C27. A request cannot crash the handshake, the stream or the finalize method:
  whatever the reader getters return, each answers with a result or an RPC error.
\<close>

theorem rpc_methods_return:
  "returns (fst (rpc_handshake D uuid clock card_params srv)) \<and>
   returns (fst (rpc_stream_primitive D sha M packet_params srv)) \<and>
   returns (fst (rpc_finalize D sid_params srv))"
proof (intro conjI)
  let ?h = "and_then (rpc_getter D card_params) (\<lambda>reader. and_then (rpc_getter D reader)
      (\<lambda>card_reader. rpc_result D (agent_card_from_capnp card_reader)))"
  have "returns ?h" by (simp add: returns_and_then)
  then show "returns (fst (rpc_handshake D uuid clock card_params srv))"
    unfolding rpc_handshake_def
    by (cases ?h) (auto simp: returns_and_then split: prod.splits, metis fst_conv handshake_returns)
next
  let ?s = "and_then (rpc_getter D packet_params) (rpc_getter D)"
  have "returns ?s" by (simp add: returns_and_then)
  then show "returns (fst (rpc_stream_primitive D sha M packet_params srv))"
    unfolding rpc_stream_primitive_def
    by (cases ?s) (auto split: prod.splits, metis firewall.stream_returns fst_conv)
next
  let ?f = "and_then (rpc_getter D sid_params) (\<lambda>info. and_then (rpc_getter D info)
      (\<lambda>s. map_err (\<lambda>e. Failed (show_utf8_error e)) (to_str s)))"
  have "returns ?f" by (simp add: returns_and_then)
  then show "returns (fst (rpc_finalize D sid_params srv))"
    unfolding rpc_finalize_def
    by (cases ?f) (auto simp: handler_simps split: option.splits)
qed

text \<open>
  Property C3. An acknowledgement means what it promises: the handler answers \<open>true\<close>
  exactly when the packet was well formed, the gate accepted it, the sink took it under its
  own provenance tag and its session was open; then the session's count grew by one.
\<close>

theorem stream_ack_iff:
  "stream_handle sha (validate fw) M r reg ch = (Ok True, reg', ch') \<longleftrightarrow>
     (\<exists>p s. packet_from_capnp r = Ok p \<and> validate fw (payload p) = Ok () \<and>
        chan_send M (tag_of sha p) ch = Some ch' \<and>
        reg (session_id (pkt_metadata p)) = Some s \<and>
        reg' = reg(session_id (pkt_metadata p) \<mapsto> s\<lparr>ss_received_count := ss_received_count s + 1\<rparr>))"
  by (cases r reg ch rule: firewall.stream_cases [where sha = sha and M = M and fw = fw]) auto

text \<open>
  The provenance check of the handler never fails: the handler computes the tag
  from the packet itself, so \<open>ProvenanceMismatch\<close> is not among its outcomes.
\<close>

lemma stream_never_mismatches:
  "fst (stream_handle sha (validate fw) M r reg ch) \<noteq> Err ProvenanceMismatch"
  by (cases r reg ch rule: firewall.stream_cases [where sha = sha and M = M and fw = fw])
    (auto simp: sink_closed_def unknown_session_def)

text \<open>
  Property C32. Delivery comes before the session check: a valid packet that names a session
  that is not open is sent to the sink all the same; only then the call fails.
\<close>

theorem stream_delivers_unknown_session:
  assumes "packet_from_capnp r = Ok p" and "validate fw (payload p) = Ok ()"
    and "chan_send M (tag_of sha p) ch = Some ch'"
    and "session_id (pkt_metadata p) \<notin> dom reg"
  shows "stream_handle sha (validate fw) M r reg ch =
     (Err (unknown_session (session_id (pkt_metadata p))), reg, ch')"
  using assms by (auto simp: stream_handle_valid handler_simps split: option.splits)

theorem stream_delivers_unknown_session_witness:
  "stream_handle id (validate plain_firewall) list_mpsc sample_reader Map.empty ([], True) =
     (Err (unknown_session ''s''), Map.empty, ([tag_of id sample_packet], True))"
  using stream_delivers_unknown_session [of sample_reader sample_packet plain_firewall list_mpsc id
      "([], True)" "([tag_of id sample_packet], True)" Map.empty]
  by (simp add: read_sample plain_accepts_sample session_of_sample list_mpsc_def)

text \<open>
  The fairness threshold of the configuration has no effect on validation: two
  firewalls that differ in it only accept and reject the same payloads with the same errors.
\<close>

lemma fairness_threshold_ignored:
  "validate (fw\<lparr>fw_cfg := (fw_cfg fw)\<lparr>fairness_threshold := x\<rparr>\<rparr>) pl = validate fw pl"
proof -
  have "check_vector (fw\<lparr>fw_cfg := (fw_cfg fw)\<lparr>fairness_threshold := x\<rparr>\<rparr>) v = check_vector fw v" for v
    by (simp add: check_vector_def Let_def split: option.splits)
  then show ?thesis by (cases pl) simp_all
qed

text \<open>
  The adapter a handshake asks for is recorded in the session and read by no one: with the
  adapters of all sessions forgotten the handler answers the same, sends the same packets, as
  they were read, and counts the same.
\<close>

definition forget_adapters :: "registry \<Rightarrow> registry" where
  "forget_adapters reg sid = map_option (\<lambda>s. s\<lparr>ss_adapter := None\<rparr>) (reg sid)"

lemma session_adapter_ignored:
  "stream_handle sha (validate fw) M r (forget_adapters reg) ch =
     (case stream_handle sha (validate fw) M r reg ch of (a, reg', ch') \<Rightarrow> (a, forget_adapters reg', ch'))"
  by (cases r reg ch rule: firewall.stream_cases [where sha = sha and M = M and fw = fw])
    (auto simp: stream_handle_malformed stream_handle_rejected stream_handle_valid handler_simps
      forget_adapters_def fun_eq_iff)

section \<open>Negotiation over the interface\<close>

lemma rpc_negotiate_eq:
  assumes "get_source_family p = Inr sf" "get_target_family p = Inr tf"
  shows "rpc_negotiate_alignment D clock (Inr p) counter =
    (let (answer, counter') = negotiate_handle clock counter (get_source_dim p) (get_target_dim p)
           (str_or_unknown sf) (str_or_unknown tf)
     in (and_then (rpc_result D answer) (\<lambda>(variant, weights).
          and_then (rpc_result D (set_list weights)) (\<lambda>w.
            Ok \<lparr>am_adapter_type = adapter_type_of variant, am_source_dim = get_source_dim p,
                am_target_dim = get_target_dim p, am_weights = w\<rparr>)), counter'))"
  using assms by (simp add: rpc_negotiate_alignment_def)

text \<open>
  Property C24. A peer can crash the negotiation: for different non-zero dimensions whose
  product is \<open>2 ^ 29\<close> or more the call panics: the builder refuses a list of that size, or the
  size was cut to 32 bits and the weights are written past the end of the list, or the
  weights cannot be allocated at all.
\<close>

theorem negotiation_panics:
  assumes "get_source_family p = Inr sf" and "get_target_family p = Inr tf"
    and "get_source_dim p \<noteq> 0" and "get_target_dim p \<noteq> 0" and "get_source_dim p \<noteq> get_target_dim p"
    and "2 ^ 29 \<le> unat (get_source_dim p) * unat (get_target_dim p)"
  shows "fst (rpc_negotiate_alignment D clock (Inr p) counter) = Panic"
proof -
  let ?n = "unat (get_source_dim p) * unat (get_target_dim p)"
  have "rpc_result D (set_list (kaiming_loop ?n b st)) = Panic" for b st
    using assms(6) by (simp add: set_list_too_long rpc_result_def)
  then show ?thesis using assms(3-5)
    by (simp add: rpc_negotiate_eq [OF assms(1,2)] negotiate_handle_def kaiming_uniform_weights_def
        Let_def unat_mult_u32 alloc_f32_def rpc_result_def)
qed

theorem negotiation_panics_witness:
  "fst (rpc_negotiate_alignment no_env None
     (Inr \<lparr>get_source_dim = 32768, get_target_dim = 16384, get_source_family = Inr [],
           get_target_family = Inr []\<rparr>) 0) = Panic"
  by (rule negotiation_panics) simp_all

text \<open>
  Below that size the answer is complete: for non-zero dimensions with a product
  below \<open>2 ^ 29\<close> (the most elements a Cap'n Proto list can have) and readable family names
  the call answers with the dimensions it was given and either norm matching to one
  target norm (equal dimensions) or a linear projection with one weight per matrix entry.
\<close>

lemma negotiation_complete:
  assumes "get_source_family p = Inr sf" and "get_target_family p = Inr tf"
    and "get_source_dim p \<noteq> 0" and "get_target_dim p \<noteq> 0"
    and "unat (get_source_dim p) * unat (get_target_dim p) < 2 ^ 29"
  shows "\<exists>m. fst (rpc_negotiate_alignment D clock (Inr p) counter) = Ok m \<and>
    am_source_dim m = get_source_dim p \<and> am_target_dim m = get_target_dim p \<and>
    (if get_source_dim p = get_target_dim p
     then am_adapter_type m = NormMatchT \<and> am_weights m = [f32_one]
     else am_adapter_type m = LinearProjectionT \<and>
          length (am_weights m) = unat (get_source_dim p) * unat (get_target_dim p))"
proof (cases "get_source_dim p = get_target_dim p")
  case True
  then show ?thesis using assms(3)
    by (simp add: rpc_negotiate_eq [OF assms(1,2)] negotiate_handle_def set_list_fits)
next
  case False
  have "unat (get_source_dim p) * unat (get_target_dim p) < 2 ^ 61" using assms(5) by simp
  then show ?thesis using False assms(5)
    by (simp add: rpc_negotiate_eq [OF assms(1,2)] negotiate_linear [OF assms(3,4) False] set_list_fits)
qed

end
