(* ===== verification/Server.thy ===== *)
theory Server
  imports Rpc
begin

text \<open>
  \<open>src/transport/server.rs\<close>: a connection owns one \<open>AptpRpcServer\<close> and serves the
  calls that arrive on it; the process accepts connections and shares nothing between them
  but the weight counter. The TCP stream and the RPC system are the source of the calls: a
  request carries the readers of its message and what the call draws from the environment
  (a UUID, the clock). Calls of one connection are served one after the other.
\<close>

section \<open>Serving a call\<close>

datatype request =
    HandshakeReq string "nat option" "capnp_error + (capnp_error + card_reader)"
  | StreamReq "capnp_error + (capnp_error + packet_reader)"
  | NegotiateReq "nat option" "capnp_error + negotiate_reader"
  | FinalizeReq "capnp_error + (capnp_error + string)"

datatype reply =
    HandshakeRep handshake_msg
  | StreamRep bool
  | NegotiateRep alignment_msg
  | FinalizeRep u64

fun map_ok :: "('a \<Rightarrow> 'b) \<Rightarrow> ('a, 'e) outcome \<Rightarrow> ('b, 'e) outcome" where
  "map_ok f (Ok x) = Ok (f x)"
| "map_ok f (Err e) = Err e"
| "map_ok f Panic = Panic"
| "map_ok f UB = UB"

fun serve ::
  "display_env \<Rightarrow> (u8 list \<Rightarrow> u8 list) \<Rightarrow> 'ch mpsc \<Rightarrow> request \<Rightarrow> 'ch rpc_server \<Rightarrow> u64
     \<Rightarrow> (reply, capnp_error) outcome \<times> 'ch rpc_server \<times> u64" where
  "serve D sha M (HandshakeReq uuid clock params) srv counter =
     (let (r, srv') = rpc_handshake D uuid clock params srv in (map_ok HandshakeRep r, srv', counter))"
| "serve D sha M (StreamReq params) srv counter =
     (let (r, srv') = rpc_stream_primitive D sha M params srv in (map_ok StreamRep r, srv', counter))"
| "serve D sha M (NegotiateReq clock params) srv counter =
     (let (r, counter') = rpc_negotiate_alignment D clock params counter
      in (map_ok NegotiateRep r, srv, counter'))"
| "serve D sha M (FinalizeReq params) srv counter =
     (let (r, srv') = rpc_finalize D params srv in (map_ok FinalizeRep r, srv', counter))"

text \<open>A panic ends the task of the connection, and with it the calls after it.\<close>

fun serve_all ::
  "display_env \<Rightarrow> (u8 list \<Rightarrow> u8 list) \<Rightarrow> 'ch mpsc \<Rightarrow> request list \<Rightarrow> 'ch rpc_server \<Rightarrow> u64
     \<Rightarrow> (reply, capnp_error) outcome list \<times> 'ch rpc_server \<times> u64" where
  "serve_all D sha M [] srv counter = ([], srv, counter)"
| "serve_all D sha M (q # qs) srv counter =
     (case serve D sha M q srv counter of
        (r, srv', counter') \<Rightarrow>
          if returns r
          then (case serve_all D sha M qs srv' counter' of (rs, st) \<Rightarrow> (r # rs, st))
          else ([r], srv', counter'))"

definition sink_buffer_size :: usize where
  "sink_buffer_size = 1024"

definition handle_connection ::
  "display_env \<Rightarrow> (u8 list \<Rightarrow> u8 list) \<Rightarrow> 'ch mpsc \<Rightarrow> (string \<Rightarrow> string + string)
     \<Rightarrow> (string \<Rightarrow> string + f32 list) \<Rightarrow> aptp_config \<Rightarrow> request list \<Rightarrow> u64
     \<Rightarrow> ((reply, capnp_error) outcome list \<times> 'ch rpc_server \<times> u64) result" where
  "handle_connection D sha M read json cfg requests counter =
     and_then (rpc_server_new read json M cfg sink_buffer_size)
       (\<lambda>srv. Ok (serve_all D sha M requests srv counter))"

section \<open>The process\<close>

text \<open>
  \<open>run_server\<close> accepts in a loop; each accepted connection is a task of its own, and the
  calls of the tasks interleave. A failing \<open>AptpRpcServer::new\<close> is logged and ends its task
  only; an error of \<open>accept\<close> (or of \<open>set_nodelay\<close>) ends the loop and with it every task.
\<close>

record 'ch process =
  pr_conns :: "nat \<rightharpoonup> 'ch rpc_server"
  pr_counter :: u64
  pr_next :: nat
  pr_listening :: bool

datatype event =
    Accepted_conn nat
  | Failed_conn aptp_error
  | Served nat request "(reply, capnp_error) outcome"
  | Closed nat
  | Stopped io_error

inductive proc_step ::
  "display_env \<Rightarrow> (u8 list \<Rightarrow> u8 list) \<Rightarrow> 'ch mpsc \<Rightarrow> (string \<Rightarrow> string + string)
     \<Rightarrow> (string \<Rightarrow> string + f32 list) \<Rightarrow> aptp_config \<Rightarrow> 'ch process \<Rightarrow> event \<Rightarrow> 'ch process \<Rightarrow> bool"
  for D sha M read json cfg where
  accept: "pr_listening p \<Longrightarrow> rpc_server_new read json M cfg sink_buffer_size = Ok srv \<Longrightarrow>
     proc_step D sha M read json cfg p (Accepted_conn (pr_next p))
       (p\<lparr>pr_conns := (pr_conns p)(pr_next p \<mapsto> srv), pr_next := pr_next p + 1\<rparr>)"
| accept_fails: "pr_listening p \<Longrightarrow> rpc_server_new read json M cfg sink_buffer_size = Err e \<Longrightarrow>
     proc_step D sha M read json cfg p (Failed_conn e) (p\<lparr>pr_next := pr_next p + 1\<rparr>)"
| call: "pr_conns p i = Some srv \<Longrightarrow> serve D sha M q srv (pr_counter p) = (r, srv', counter') \<Longrightarrow>
     returns r \<Longrightarrow>
     proc_step D sha M read json cfg p (Served i q r)
       (p\<lparr>pr_conns := (pr_conns p)(i \<mapsto> srv'), pr_counter := counter'\<rparr>)"
| crash: "pr_conns p i = Some srv \<Longrightarrow> serve D sha M q srv (pr_counter p) = (r, srv', counter') \<Longrightarrow>
     \<not> returns r \<Longrightarrow>
     proc_step D sha M read json cfg p (Served i q r)
       (p\<lparr>pr_conns := (pr_conns p)(i := None), pr_counter := counter'\<rparr>)"
| hangup: "pr_conns p i = Some srv \<Longrightarrow>
     proc_step D sha M read json cfg p (Closed i) (p\<lparr>pr_conns := (pr_conns p)(i := None)\<rparr>)"
| stop: "pr_listening p \<Longrightarrow>
     proc_step D sha M read json cfg p (Stopped e) (p\<lparr>pr_conns := Map.empty, pr_listening := False\<rparr>)"

text \<open>
  Before the loop the address is parsed and bound; the counter is a static of the process.
\<close>

definition run_server ::
  "(string \<Rightarrow> string + 'a) \<Rightarrow> ('a \<Rightarrow> io_error + unit) \<Rightarrow> aptp_config \<Rightarrow> 'ch process result" where
  "run_server parse_addr bind cfg =
     (case parse_addr (bind_addr (cfg_transport cfg)) of
        Inl e \<Rightarrow> Err (Config (''invalid bind addr: '' @ e))
      | Inr addr \<Rightarrow> (case bind addr of Inl e \<Rightarrow> Err (Io e)
          | Inr u \<Rightarrow> Ok \<lparr>pr_conns = Map.empty, pr_counter = 0, pr_next = 0, pr_listening = True\<rparr>))"

text \<open>The program \<open>bin/aptp-server.rs\<close> up to its accept loop.\<close>

definition server_main ::
  "(string \<Rightarrow> string + string) \<Rightarrow> (string \<Rightarrow> string + aptp_config) \<Rightarrow> (string \<Rightarrow> string + 'a)
     \<Rightarrow> ('a \<Rightarrow> io_error + unit) \<Rightarrow> string option \<Rightarrow> 'ch process result" where
  "server_main read parse parse_addr bind arg =
     and_then (from_toml_file read parse (case arg of None \<Rightarrow> ''aptp.toml'' | Some path \<Rightarrow> path))
       (run_server parse_addr bind)"

definition proc_start :: "'ch process" where
  "proc_start = \<lparr>pr_conns = Map.empty, pr_counter = 0, pr_next = 0, pr_listening = True\<rparr>"

inductive proc_reach ::
  "display_env \<Rightarrow> (u8 list \<Rightarrow> u8 list) \<Rightarrow> 'ch mpsc \<Rightarrow> (string \<Rightarrow> string + string)
     \<Rightarrow> (string \<Rightarrow> string + f32 list) \<Rightarrow> aptp_config \<Rightarrow> event list \<Rightarrow> 'ch process \<Rightarrow> bool"
  for D sha M read json cfg where
  start: "proc_reach D sha M read json cfg [] proc_start"
| step: "proc_reach D sha M read json cfg es p \<Longrightarrow> proc_step D sha M read json cfg p e p' \<Longrightarrow>
     proc_reach D sha M read json cfg (e # es) p'"

inductive_cases proc_stepE: "proc_step D sha M read json cfg p e p'"
inductive_cases served_stepE: "proc_step D sha M read json cfg p (Served i q r) p'"
inductive_simps proc_reach_Nil [simp]: "proc_reach D sha M read json cfg [] p"

section \<open>How a call changes the server\<close>

lemma server_unchanged [simp]: "srv\<lparr>srv_sessions := srv_sessions srv, srv_sink := srv_sink srv\<rparr> = srv"
  by (cases srv) simp

lemma map_ok_eq_Ok_iff [simp]: "map_ok f m = Ok y \<longleftrightarrow> (\<exists>x. m = Ok x \<and> y = f x)"
  by (cases m) auto

lemma serve_reply:
  "fst (serve D sha M (HandshakeReq uuid clock card_params) srv c) =
     map_ok HandshakeRep (fst (rpc_handshake D uuid clock card_params srv))"
  "fst (serve D sha M (StreamReq params) srv c) = map_ok StreamRep (fst (rpc_stream_primitive D sha M params srv))"
  "fst (serve D sha M (NegotiateReq clock dim_params) srv c) =
     map_ok NegotiateRep (fst (rpc_negotiate_alignment D clock dim_params c))"
  "fst (serve D sha M (FinalizeReq sid_params) srv c) = map_ok FinalizeRep (fst (rpc_finalize D sid_params srv))"
  by (simp_all split: prod.splits)

lemma handshake_sessions:
  "snd (handshake_handle uuid clock crd cfg reg) = reg \<or>
   (\<exists>adp. snd (handshake_handle uuid clock crd cfg reg) =
      snd (reg_open uuid clock (agent_id crd) (Some adp) reg))"
  by (auto simp: handshake_handle_def Let_def handler_simps)

lemma rpc_stream_read:
  "rpc_stream_primitive D sha M (Inr (Inr r)) srv =
     (rpc_result D (fst (stream_handle sha (validate (srv_firewall srv)) M r (srv_sessions srv) (srv_sink srv))),
      srv\<lparr>srv_sessions := fst (snd (stream_handle sha (validate (srv_firewall srv)) M r (srv_sessions srv) (srv_sink srv))),
          srv_sink := snd (snd (stream_handle sha (validate (srv_firewall srv)) M r (srv_sessions srv) (srv_sink srv)))\<rparr>)"
  by (simp add: rpc_stream_primitive_def split: prod.splits)

lemma rpc_stream_unread:
  "\<nexists>r. params = Inr (Inr r) \<Longrightarrow> \<exists>e. rpc_stream_primitive D sha M params srv = (Err e, srv)"
  by (cases params; cases "projr params") (auto simp: rpc_stream_primitive_def)

lemma rpc_handshake_server:
  "snd (rpc_handshake D uuid clock params srv) = srv \<or>
   (\<exists>peer adp. snd (rpc_handshake D uuid clock params srv) =
      srv\<lparr>srv_sessions := snd (reg_open uuid clock peer (Some adp) (srv_sessions srv))\<rparr>)"
proof -
  let ?h = "and_then (rpc_getter D params) (\<lambda>reader. and_then (rpc_getter D reader)
      (\<lambda>card_reader. rpc_result D (agent_card_from_capnp card_reader)))"
  show ?thesis
  proof (cases ?h)
    case (Ok crd)
    have "snd (rpc_handshake D uuid clock params srv) =
        srv\<lparr>srv_sessions := snd (handshake_handle uuid clock crd (srv_cfg srv) (srv_sessions srv))\<rparr>"
      by (simp only: rpc_handshake_def Ok) (simp split: prod.splits)
    then show ?thesis
      using handshake_sessions [of uuid clock crd "srv_cfg srv" "srv_sessions srv"]
      by (cases srv) auto
  qed (simp_all only: rpc_handshake_def, simp_all)
qed

lemma rpc_finalize_server:
  "snd (rpc_finalize D params srv) = srv \<or>
   (\<exists>sid. params = Inr (Inr sid) \<and> utf8 sid \<and>
      rpc_finalize D params srv =
        (rpc_result D (fst (reg_drain sid (srv_sessions srv))),
         srv\<lparr>srv_sessions := snd (reg_drain sid (srv_sessions srv))\<rparr>))"
proof -
  let ?f = "and_then (rpc_getter D params) (\<lambda>info. and_then (rpc_getter D info)
      (\<lambda>s. map_err (\<lambda>e. Failed (show_utf8_error e)) (to_str s)))"
  show ?thesis
  proof (cases ?f)
    case (Ok sid)
    then have "params = Inr (Inr sid)" "utf8 sid" by auto
    then show ?thesis by (simp only: rpc_finalize_def Ok) (simp split: prod.splits)
  qed (simp_all only: rpc_finalize_def, simp_all)
qed

lemma serve_server:
  "fst (snd (serve D sha M (HandshakeReq uuid clock card_params) srv c)) =
     snd (rpc_handshake D uuid clock card_params srv)"
  "fst (snd (serve D sha M (StreamReq params) srv c)) = snd (rpc_stream_primitive D sha M params srv)"
  "fst (snd (serve D sha M (NegotiateReq clock dim_params) srv c)) = srv"
  "fst (snd (serve D sha M (FinalizeReq sid_params) srv c)) = snd (rpc_finalize D sid_params srv)"
  by (simp_all split: prod.splits)

text \<open>A call leaves the server as it is, opens one session, streams one packet or drains one session.\<close>

lemma serve_cases:
  obtains
    (same) "fst (snd (serve D sha M q srv c)) = srv"
  | (opened) uuid clock params peer adp where "q = HandshakeReq uuid clock params"
      "fst (snd (serve D sha M q srv c)) =
         srv\<lparr>srv_sessions := snd (reg_open uuid clock peer (Some adp) (srv_sessions srv))\<rparr>"
  | (streamed) r where "q = StreamReq (Inr (Inr r))"
      "fst (snd (serve D sha M q srv c)) = snd (rpc_stream_primitive D sha M (Inr (Inr r)) srv)"
  | (drained) sid where "q = FinalizeReq (Inr (Inr sid))" "utf8 sid"
      "fst (snd (serve D sha M q srv c)) =
         srv\<lparr>srv_sessions := snd (reg_drain sid (srv_sessions srv))\<rparr>"
proof (cases q)
  case (HandshakeReq uuid clock params)
  then have "fst (snd (serve D sha M q srv c)) = snd (rpc_handshake D uuid clock params srv)"
    by (simp split: prod.splits)
  then show thesis
    using rpc_handshake_server [of D uuid clock params srv] same opened [OF HandshakeReq] by auto
next
  case (StreamReq params)
  show thesis
  proof (cases "\<exists>r. params = Inr (Inr r)")
    case True
    then show thesis using streamed StreamReq by (auto split: prod.splits)
  next
    case False
    then show thesis using rpc_stream_unread [of params D sha M srv] same StreamReq by auto
  qed
next
  case (NegotiateReq clock params)
  then show thesis using same by (simp split: prod.splits)
next
  case (FinalizeReq params)
  then have "fst (snd (serve D sha M q srv c)) = snd (rpc_finalize D params srv)"
    by (simp split: prod.splits)
  then show thesis
    using rpc_finalize_server [of D params srv] same drained FinalizeReq by auto
qed

lemma serve_config [simp]:
  "srv_cfg (fst (snd (serve D sha M q srv c))) = srv_cfg srv"
  "srv_firewall (fst (snd (serve D sha M q srv c))) = srv_firewall srv"
  by (rule serve_cases [of D sha M q srv c]; simp add: rpc_stream_read)+

lemma serve_reg_inv:
  "reg_inv (srv_sessions srv) \<Longrightarrow> reg_inv (srv_sessions (fst (snd (serve D sha M q srv c))))"
  by (rule serve_cases [of D sha M q srv c])
    (auto simp: rpc_stream_read reg.inv_open reg.inv_drain firewall.stream_reg_inv)

lemma acked_was_read:
  assumes "fst (rpc_stream_primitive D sha M (Inr (Inr r)) srv) = Ok True"
  shows "\<exists>p. packet_from_capnp r = Ok p"
  using assms
  by (cases r "srv_sessions srv" "srv_sink srv" rule: firewall.stream_cases
        [where sha = sha and M = M and fw = "srv_firewall srv"]) (simp_all add: rpc_stream_read)

lemma handshake_opens_session:
  assumes "fst (rpc_handshake D uuid clock params srv) = Ok m" "hm_status m \<noteq> Rejected"
  shows "hm_assigned_session m = uuid \<and>
    reg_count (srv_sessions (snd (rpc_handshake D uuid clock params srv))) uuid = Some 0"
proof -
  let ?h = "and_then (rpc_getter D params) (\<lambda>reader. and_then (rpc_getter D reader)
      (\<lambda>card_reader. rpc_result D (agent_card_from_capnp card_reader)))"
  obtain crd where h: "?h = Ok crd"
    using assms(1) unfolding rpc_handshake_def by (cases ?h) auto
  obtain answer reg' where a: "handshake_handle uuid clock crd (srv_cfg srv) (srv_sessions srv) = (answer, reg')"
    by fastforce
  have e: "rpc_handshake D uuid clock params srv =
      (and_then (rpc_result D answer) (\<lambda>(status, sid, adp, reason).
         Ok \<lparr>hm_assigned_session = sid, hm_rejection_reason = reason, hm_status = status,
             hm_server_card = server_card (srv_cfg srv), hm_adapter_required = adapter_type_of adp\<rparr>),
       srv\<lparr>srv_sessions := reg'\<rparr>)"
    by (simp only: rpc_handshake_def h) (simp add: a)
  obtain status sid adp reason where ok: "answer = Ok (status, sid, adp, reason)"
    using assms(1) by (auto simp: e)
  then have "hm_status m = status" "hm_assigned_session m = sid" using assms(1) by (auto simp: e)
  then show ?thesis
    using a ok assms(2) by (auto simp: e handshake_handle_def Let_def handler_simps split: if_splits)
qed

section \<open>Reachable processes\<close>

lemma rpc_server_new_Ok:
  "rpc_server_new read json M cfg n = Ok srv \<longleftrightarrow>
     (\<exists>fw ch. firewall_new read json (cfg_validation cfg) = Ok fw \<and> chan_new M n = Some ch \<and>
        srv = \<lparr>srv_cfg = cfg, srv_firewall = fw, srv_sessions = Map.empty, srv_sink = chan_drop_rx M ch\<rparr>)"
  by (auto simp: rpc_server_new_def sink_new_def split: option.splits)

text \<open>
  Induction over the life of the connections: a property of the server of a connection,
  of its index and of the events so far holds in every reachable process if a new server has
  it, a call keeps it and later events keep it.
\<close>

lemma proc_reach_conns:
  assumes "proc_reach D sha M read json cfg es p" and "pr_conns p i = Some srv"
    and new: "\<And>i es srv. rpc_server_new read json M cfg sink_buffer_size = Ok srv \<Longrightarrow> Q i es srv"
    and call: "\<And>i es srv q c r srv' c'. Q i es srv \<Longrightarrow> serve D sha M q srv c = (r, srv', c') \<Longrightarrow>
        Q i (Served i q r # es) srv'"
    and later: "\<And>i e es srv. Q i es srv \<Longrightarrow> Q i (e # es) srv"
  shows "Q i es srv"
  using assms(1,2)
proof (induction arbitrary: i srv)
  case start
  then show ?case by (simp add: proc_start_def)
next
  case (step es p e p')
  from step.hyps(2) show ?case
  proof cases
    case accept
    then show ?thesis using step.prems step.IH new later by (auto split: if_splits)
  next
    case (call j srv0 q r srv1 c)
    show ?thesis
    proof (cases "i = j")
      case True
      then show ?thesis using call(1,2) step.prems assms(4) [OF step.IH [OF call(3)] call(4)] by simp
    next
      case False
      then show ?thesis using call step.prems step.IH later by auto
    qed
  qed (use step.prems step.IH later in \<open>auto split: if_splits\<close>)
qed

text \<open>
  The state of every connection is well formed: in every reachable process each
  connection serves with the process's configuration and with the firewall that configuration
  builds, and its registry stores every session under its own id.
\<close>

lemma connections_well_formed:
  assumes "proc_reach D sha M read json cfg es p" and "pr_conns p i = Some srv"
  shows "srv_cfg srv = cfg \<and> firewall_new read json (cfg_validation cfg) = Ok (srv_firewall srv) \<and>
    reg_inv (srv_sessions srv)"
proof (rule proc_reach_conns [OF assms, of "\<lambda>i es srv. srv_cfg srv = cfg \<and>
      firewall_new read json (cfg_validation cfg) = Ok (srv_firewall srv) \<and> reg_inv (srv_sessions srv)"])
  fix i es srv q c r srv' c'
  assume "srv_cfg srv = cfg \<and> firewall_new read json (cfg_validation cfg) = Ok (srv_firewall srv) \<and>
      reg_inv (srv_sessions srv)"
    and s: "serve D sha M q srv c = (r, srv', c')"
  moreover have "srv' = fst (snd (serve D sha M q srv c))" by (simp add: s)
  ultimately show "srv_cfg srv' = cfg \<and> firewall_new read json (cfg_validation cfg) = Ok (srv_firewall srv') \<and>
      reg_inv (srv_sessions srv')"
    by (simp add: serve_reg_inv)
qed (auto simp: rpc_server_new_Ok)

section \<open>A sample process\<close>

definition sample_config :: aptp_config where
  "sample_config =
     \<lparr>cfg_transport = \<lparr>bind_addr = ''127.0.0.1:7878'', connect_timeout_ms = 1000,
        max_frame_bytes = 1000, tls = None\<rparr>,
      cfg_validation = fw_cfg plain_firewall,
      cfg_adapter = \<lparr>allow_dimension_mismatch_passthrough = False\<rparr>,
      cfg_agent = \<lparr>cfg_agent_id = ''a'', cfg_model_family = ''m'', cfg_hidden_size = 1, cfg_num_layers = 1,
        cfg_num_heads = 1, cfg_vocab_size = 1, cfg_aptp_version = 1\<rparr>,
      cfg_backend = None\<rparr>"

definition no_file :: "string \<Rightarrow> string + string" where
  "no_file path = Inl ''not found''"

definition no_json :: "string \<Rightarrow> string + f32 list" where
  "no_json line = Inl ''not json''"

definition sample_server :: "(tagged_primitive list \<times> bool) rpc_server" where
  "sample_server =
     \<lparr>srv_cfg = sample_config, srv_firewall = plain_firewall, srv_sessions = Map.empty,
      srv_sink = ([], False)\<rparr>"

lemma sample_server_new:
  "rpc_server_new no_file no_json list_mpsc sample_config sink_buffer_size = Ok sample_server"
  by (simp add: rpc_server_new_def firewall_new_def sink_new_def sample_config_def plain_firewall_def
      list_mpsc_def sample_server_def sink_buffer_size_def)

text \<open>One connection, a handshake and a streamed packet: the channel is closed.\<close>

definition sample_card :: card_reader where
  "sample_card =
     \<lparr>get_agent_id = Inr ''b'', get_aptp_version = APTP_VERSION,
      get_invariants = Inr \<lparr>get_hidden_size = 1, get_num_layers = 1, get_num_heads = 1,
        get_vocab_size = 1, get_model_family = Inr ''m''\<rparr>,
      get_capabilities = Inr []\<rparr>"

definition sample_session :: session_state where
  "sample_session =
     \<lparr>ss_session_id = ''s'', ss_peer_agent_id = ''b'', ss_received_count = 0,
      ss_adapter = Some Identity, ss_opened_at_ns = 0\<rparr>"

definition open_server :: "(tagged_primitive list \<times> bool) rpc_server" where
  "open_server = sample_server\<lparr>srv_sessions := [''s'' \<mapsto> sample_session]\<rparr>"

definition sample_greeting :: handshake_msg where
  "sample_greeting =
     \<lparr>hm_assigned_session = ''s'', hm_rejection_reason = [], hm_status = Accepted,
      hm_server_card = server_card sample_config, hm_adapter_required = IdentityT\<rparr>"

lemma sample_handshake:
  "serve no_env id list_mpsc (HandshakeReq ''s'' None (Inr (Inr sample_card))) sample_server 0 =
     (Ok (HandshakeRep sample_greeting), open_server, 0)"
  by (simp add: rpc_handshake_def sample_card_def agent_card_from_capnp_def text_getter_def text_of_def
      to_str_def utf8_def bytes_of_def handshake_handle_def sample_server_def sample_config_def
      handler_simps nanos_u64_def open_server_def sample_session_def sample_greeting_def)

lemma sample_stream:
  "serve no_env id list_mpsc (StreamReq (Inr (Inr sample_reader))) open_server 0 =
     (Err (Failed (aptp_display no_env sink_closed)), open_server, 0)"
  by (simp add: rpc_stream_read open_server_def sample_server_def stream_handle_valid [OF read_sample]
      plain_accepts_sample handler_simps list_mpsc_def)

definition sample_process :: "(tagged_primitive list \<times> bool) rpc_server \<Rightarrow> (tagged_primitive list \<times> bool) process"
where
  "sample_process srv = \<lparr>pr_conns = [0 \<mapsto> srv], pr_counter = 0, pr_next = 1, pr_listening = True\<rparr>"

definition sample_events :: "event list" where
  "sample_events =
     [Served 0 (StreamReq (Inr (Inr sample_reader))) (Err (Failed (aptp_display no_env sink_closed))),
      Served 0 (HandshakeReq ''s'' None (Inr (Inr sample_card))) (Ok (HandshakeRep sample_greeting)),
      Accepted_conn 0]"

lemma sample_reach:
  "proc_reach no_env id list_mpsc no_file no_json sample_config sample_events (sample_process open_server)"
proof -
  let ?step = "proc_step no_env id list_mpsc no_file no_json sample_config"
  have "?step proc_start (Accepted_conn 0) (sample_process sample_server)"
    using proc_step.accept [OF _ sample_server_new, of proc_start no_env id]
    by (simp add: proc_start_def sample_process_def)
  moreover have "?step (sample_process sample_server) (Served 0 (HandshakeReq ''s'' None (Inr (Inr sample_card)))
      (Ok (HandshakeRep sample_greeting))) (sample_process open_server)"
    using proc_step.call [of "sample_process sample_server" 0 sample_server no_env id list_mpsc
        "HandshakeReq ''s'' None (Inr (Inr sample_card))"] sample_handshake
    by (simp del: serve.simps add: sample_process_def)
  moreover have "?step (sample_process open_server) (Served 0 (StreamReq (Inr (Inr sample_reader)))
      (Err (Failed (aptp_display no_env sink_closed)))) (sample_process open_server)"
    using proc_step.call [of "sample_process open_server" 0 open_server no_env id list_mpsc
        "StreamReq (Inr (Inr sample_reader))"] sample_stream
    by (simp del: serve.simps add: sample_process_def)
  ultimately show ?thesis
    unfolding sample_events_def by (blast intro: proc_reach.intros)
qed

lemma connections_well_formed_witness:
  "srv_cfg open_server = sample_config \<and> reg_inv (srv_sessions open_server)"
  using connections_well_formed [OF sample_reach, of 0 open_server] by (simp add: sample_process_def)

section \<open>The shipped server\<close>

text \<open>
  A channel whose receiver is gone refuses every send; \<open>AptpRpcServer::new\<close> drops the
  receiver of the channel it makes.
\<close>

definition dead_sink :: "'ch mpsc \<Rightarrow> 'ch rpc_server \<Rightarrow> bool" where
  "dead_sink M srv \<longleftrightarrow>
     (\<forall>t. chan_send M t (srv_sink srv) = None) \<and>
     (\<forall>sid n. reg_count (srv_sessions srv) sid = Some n \<longrightarrow> n = 0)"

lemma dead_sink_stream:
  assumes "dead_sink M srv"
  shows "snd (rpc_stream_primitive D sha M params srv) = srv \<and>
    fst (rpc_stream_primitive D sha M params srv) \<noteq> Ok True"
proof (cases "\<exists>r. params = Inr (Inr r)")
  case True
  then obtain r where "params = Inr (Inr r)" by blast
  then show ?thesis
    using assms unfolding dead_sink_def
    by (cases r "srv_sessions srv" "srv_sink srv" rule: firewall.stream_cases
          [where sha = sha and M = M and fw = "srv_firewall srv"]) (simp_all add: rpc_stream_read)
next
  case False
  then show ?thesis using rpc_stream_unread [of params D sha M srv] by auto
qed

lemma dead_sink_finalize:
  assumes "dead_sink M srv" "fst (rpc_finalize D params srv) = Ok n"
  shows "n = 0"
proof -
  let ?f = "and_then (rpc_getter D params) (\<lambda>info. and_then (rpc_getter D info)
      (\<lambda>s. map_err (\<lambda>e. Failed (show_utf8_error e)) (to_str s)))"
  obtain sid where "?f = Ok sid"
    using assms(2) unfolding rpc_finalize_def by (cases ?f) auto
  then have "fst (reg_drain sid (srv_sessions srv)) = Ok n"
    using assms(2) by (simp only: rpc_finalize_def) (simp split: prod.splits)
  then show ?thesis
    using assms(1) by (auto simp: dead_sink_def handler_simps reg_count_def split: option.splits)
qed

lemma dead_sink_serve:
  assumes "dead_sink M srv"
  shows "dead_sink M (fst (snd (serve D sha M q srv c)))"
    and "fst (serve D sha M q srv c) \<noteq> Ok (StreamRep True)"
    and "fst (serve D sha M q srv c) = Ok (FinalizeRep n) \<Longrightarrow> n = 0"
proof -
  show "dead_sink M (fst (snd (serve D sha M q srv c)))"
    using assms dead_sink_stream [OF assms]
    by (cases rule: serve_cases [of D sha M q srv c])
      (auto simp: dead_sink_def handler_simps split: option.splits if_splits)
  show "fst (serve D sha M q srv c) \<noteq> Ok (StreamRep True)"
    using dead_sink_stream [OF assms] by (cases q) (auto simp add: serve_reply simp del: serve.simps)
  show "fst (serve D sha M q srv c) = Ok (FinalizeRep n) \<Longrightarrow> n = 0"
    using dead_sink_finalize [OF assms, of D] by (cases q) (auto simp add: serve_reply simp del: serve.simps)
qed

text \<open>
  Property C6. The shipped server never takes a packet: if a channel whose receiver was
  dropped refuses every send, then in every reachable process no streamed packet was ever
  acknowledged and every session that was finalized had received zero packets, whatever the
  peers sent.
\<close>

theorem shipped_server_never_acks:
  assumes "\<And>n ch t. chan_new M n = Some ch \<Longrightarrow> chan_send M t (chan_drop_rx M ch) = None"
    and "proc_reach D sha M read json cfg es p"
  shows "Served i q (Ok (StreamRep True)) \<notin> set es \<and>
    (Served i q (Ok (FinalizeRep n)) \<in> set es \<longrightarrow> n = 0)"
proof -
  have dead: "dead_sink M srv" if "proc_reach D sha M read json cfg es p" "pr_conns p i = Some srv" for es p i srv
  proof (rule proc_reach_conns [OF that, of "\<lambda>_ _. dead_sink M"])
    show "dead_sink M srv" if "rpc_server_new read json M cfg sink_buffer_size = Ok srv" for srv
      using that assms(1) by (auto simp: rpc_server_new_Ok dead_sink_def reg_count_def)
    show "dead_sink M srv'" if "dead_sink M srv" "serve D sha M q srv c = (r, srv', c')" for srv q c r srv' c'
      using dead_sink_serve(1) [OF that(1), of D sha q c] that(2) by simp
  qed
  from assms(2) show ?thesis
  proof (induction)
    case (step es p e p')
    have "r \<noteq> Ok (StreamRep True) \<and> (\<forall>n. r = Ok (FinalizeRep n) \<longrightarrow> n = 0)" if e: "e = Served i q r" for r
    proof -
      obtain srv srv' c' where s: "pr_conns p i = Some srv" "serve D sha M q srv (pr_counter p) = (r, srv', c')"
        using step.hyps(2) unfolding e by (auto elim!: served_stepE)
      show ?thesis
        using dead_sink_serve(2,3) [OF dead [OF step.hyps(1) s(1)], of D sha q "pr_counter p"]
        unfolding s(2) by auto
    qed
    then show ?case using step.IH by auto
  qed simp
qed

theorem shipped_server_never_acks_witness:
  "Served 0 (StreamReq (Inr (Inr sample_reader))) (Ok (StreamRep True)) \<notin> set sample_events"
proof -
  have "\<And>n ch t. chan_new list_mpsc n = Some ch \<Longrightarrow> chan_send list_mpsc t (chan_drop_rx list_mpsc ch) = None"
    by (auto simp: list_mpsc_def split: if_splits)
  then show ?thesis
    using shipped_server_never_acks [OF _ sample_reach] by blast
qed

section \<open>Counting acknowledgements\<close>

text \<open>A call that is about the life of a session, and one whose answer acknowledges a packet of it.\<close>

fun concerns :: "string \<Rightarrow> request \<Rightarrow> bool" where
  "concerns sid (HandshakeReq uuid clock params) \<longleftrightarrow> uuid = sid"
| "concerns sid (StreamReq params) \<longleftrightarrow> False"
| "concerns sid (NegotiateReq clock params) \<longleftrightarrow> False"
| "concerns sid (FinalizeReq params) \<longleftrightarrow> params = Inr (Inr sid)"

definition acked_for :: "string \<Rightarrow> request \<Rightarrow> (reply, capnp_error) outcome \<Rightarrow> bool" where
  "acked_for sid q r \<longleftrightarrow> r = Ok (StreamRep True) \<and>
     (\<exists>reader p. q = StreamReq (Inr (Inr reader)) \<and> packet_from_capnp reader = Ok p \<and>
        session_id (pkt_metadata p) = sid)"

lemma stream_count:
  "reg_count (srv_sessions (snd (rpc_stream_primitive D sha M (Inr (Inr r)) srv))) sid =
     map_option (\<lambda>n. n + (if acked_for sid (StreamReq (Inr (Inr r)))
         (map_ok StreamRep (fst (rpc_stream_primitive D sha M (Inr (Inr r)) srv))) then 1 else 0))
       (reg_count (srv_sessions srv) sid)"
  by (cases r "srv_sessions srv" "srv_sink srv" rule: firewall.stream_cases
        [where sha = sha and M = M and fw = "srv_firewall srv"])
    (auto simp: rpc_stream_read acked_for_def reg_count_def option.map_ident)

lemma serve_count:
  assumes "\<not> concerns sid q"
  shows "reg_count (srv_sessions (fst (snd (serve D sha M q srv c)))) sid =
     map_option (\<lambda>n. n + (if acked_for sid q (fst (serve D sha M q srv c)) then 1 else 0))
       (reg_count (srv_sessions srv) sid)"
proof (cases q)
  case (StreamReq params)
  have eq: "fst (snd (serve D sha M q srv c)) = snd (rpc_stream_primitive D sha M params srv)"
    by (simp add: StreamReq split: prod.splits)
  show ?thesis
  proof (cases "\<exists>r. params = Inr (Inr r)")
    case True
    then show ?thesis using stream_count [of D sha M _ srv sid] eq
      by (auto simp add: StreamReq serve_reply simp del: serve.simps)
  next
    case False
    then show ?thesis using rpc_stream_unread [of params D sha M srv] eq StreamReq
      by (auto simp: acked_for_def option.map_ident)
  qed
qed (rule serve_cases [of D sha M q srv c]; use assms in \<open>auto simp add: acked_for_def option.map_ident
      handler_simps simp del: serve.simps split: option.splits\<close>)+

lemma serve_all_count:
  assumes "\<forall>q \<in> set qs. \<not> concerns sid q" and "serve_all D sha M qs srv c = (rs, srv', c')"
  shows "reg_count (srv_sessions srv') sid =
     map_option (\<lambda>n. n + word_of_nat (length (filter (\<lambda>(q, r). acked_for sid q r) (zip qs rs))))
       (reg_count (srv_sessions srv) sid)"
  using assms
proof (induction qs arbitrary: srv c rs)
  case Nil
  then show ?case by (simp add: option.map_ident)
next
  case (Cons q qs)
  obtain r srv1 c1 where s: "serve D sha M q srv c = (r, srv1, c1)" by (metis prod_cases3)
  have step: "reg_count (srv_sessions srv1) sid =
      map_option (\<lambda>n. n + (if acked_for sid q r then 1 else 0)) (reg_count (srv_sessions srv) sid)"
    using serve_count [of sid q D sha M srv c] Cons.prems(1) s by simp
  show ?case
  proof (cases "returns r")
    case True
    then obtain rs1 where rs: "rs = r # rs1" "serve_all D sha M qs srv1 c1 = (rs1, srv', c')"
      using Cons.prems(2) s by (auto split: prod.splits)
    have "\<forall>q \<in> set qs. \<not> concerns sid q" using Cons.prems(1) by simp
    from Cons.IH [OF this rs(2)] show ?thesis
      using step rs(1) by (auto simp: option.map_comp comp_def ac_simps)
  next
    case False
    then have "rs = [r]" "srv' = srv1" using Cons.prems(2) s by auto
    then show ?thesis using step by simp
  qed
qed

text \<open>
  Property C11. Finalizing a session returns the number of packets that were acknowledged in
  it: from a state where the session is open with count 0, after any calls that neither open
  nor finalize it, the answer to its finalize is the number of those calls that streamed one
  of its packets and were answered with an acknowledgement (modulo \<open>2 ^ 64\<close>).
\<close>

theorem finalize_counts_acks:
  assumes "reg_count (srv_sessions srv) sid = Some 0" and "utf8 sid"
    and "\<forall>q \<in> set qs. \<not> concerns sid q" and "serve_all D sha M qs srv c = (rs, srv', c')"
  shows "fst (serve D sha M (FinalizeReq (Inr (Inr sid))) srv' c') =
    Ok (FinalizeRep (word_of_nat (length (filter (\<lambda>(q, r). acked_for sid q r) (zip qs rs)))))"
proof -
  have "reg_count (srv_sessions srv') sid =
      Some (word_of_nat (length (filter (\<lambda>(q, r). acked_for sid q r) (zip qs rs))))"
    using serve_all_count [OF assms(3,4)] assms(1) by simp
  then show ?thesis
    using assms(2) by (auto simp: rpc_finalize_def handler_simps reg_count_def to_str_def utf8_def
        split: option.splits)
qed

definition live_server :: "(tagged_primitive list \<times> bool) rpc_server" where
  "live_server = open_server\<lparr>srv_sink := ([], True)\<rparr>"

lemma sample_live_stream:
  "rpc_stream_primitive no_env id list_mpsc (Inr (Inr sample_reader)) live_server =
     (Ok True, live_server\<lparr>srv_sessions := [''s'' \<mapsto> sample_session\<lparr>ss_received_count := 1\<rparr>],
        srv_sink := ([tag_of id sample_packet], True)\<rparr>)"
  by (simp add: rpc_stream_read live_server_def open_server_def sample_server_def
      stream_handle_valid [OF read_sample] plain_accepts_sample handler_simps list_mpsc_def
      session_of_sample handler_simps sample_session_def)

theorem finalize_counts_acks_witness:
  "fst (serve no_env id list_mpsc (FinalizeReq (Inr (Inr ''s'')))
     (fst (snd (serve_all no_env id list_mpsc [StreamReq (Inr (Inr sample_reader))] live_server 0))) 0) =
   Ok (FinalizeRep 1)"
proof -
  have a: "acked_for ''s'' (StreamReq (Inr (Inr sample_reader))) (Ok (StreamRep True))"
    using read_sample session_of_sample by (auto simp: acked_for_def)
  have u: "utf8 ''s''" by (simp add: utf8_def bytes_of_def)
  have z: "reg_count (srv_sessions live_server) ''s'' = Some 0"
    by (simp add: live_server_def open_server_def sample_session_def)
  show ?thesis
    using finalize_counts_acks [OF z u, of "[StreamReq (Inr (Inr sample_reader))]" no_env id list_mpsc 0]
    by (simp add: sample_live_stream a)
qed

section \<open>The session service as a specification\<close>

text \<open>
  What the server promises about sessions, over nothing but the open sessions with their
  counts: an accepted handshake opens, an acknowledged packet counts, a finalize that
  answers with a count closes; no other answer changes anything.
\<close>

fun spec_step ::
  "request \<Rightarrow> (reply, capnp_error) outcome \<Rightarrow> (string \<rightharpoonup> u64) \<Rightarrow> (string \<rightharpoonup> u64)" where
  "spec_step (HandshakeReq uuid clock params) (Ok (HandshakeRep m)) counts =
     (if hm_status m = Rejected then counts else counts(uuid \<mapsto> 0))"
| "spec_step (StreamReq (Inr (Inr reader))) (Ok (StreamRep True)) counts =
     (case packet_from_capnp reader of
        Ok p \<Rightarrow> counts(session_id (pkt_metadata p) :=
          map_option (\<lambda>n. n + 1) (counts (session_id (pkt_metadata p))))
      | _ \<Rightarrow> counts)"
| "spec_step (FinalizeReq (Inr (Inr sid))) (Ok (FinalizeRep n)) counts = counts(sid := None)"
| "spec_step q r counts = counts"

lemma handshake_refines:
  "reg_count (srv_sessions (snd (rpc_handshake D uuid clock params srv))) =
     spec_step (HandshakeReq uuid clock params) (map_ok HandshakeRep (fst (rpc_handshake D uuid clock params srv)))
       (reg_count (srv_sessions srv))"
proof -
  let ?h = "and_then (rpc_getter D params) (\<lambda>reader. and_then (rpc_getter D reader)
      (\<lambda>card_reader. rpc_result D (agent_card_from_capnp card_reader)))"
  show ?thesis
  proof (cases ?h)
    case (Ok crd)
    show ?thesis
      by (simp only: rpc_handshake_def Ok)
        (simp add: handshake_handle_def Let_def handler_simps split: prod.splits if_splits)
  qed (simp_all only: rpc_handshake_def, simp_all)
qed

lemma finalize_refines:
  "reg_count (srv_sessions (snd (rpc_finalize D params srv))) =
     spec_step (FinalizeReq params) (map_ok FinalizeRep (fst (rpc_finalize D params srv))) (reg_count (srv_sessions srv))"
proof -
  have e: "spec_step (FinalizeReq params) (Err e) counts = counts" for e counts
    by (cases "(FinalizeReq params, Err e :: (reply, capnp_error) outcome, counts)" rule: spec_step.cases) simp_all
  let ?f = "and_then (rpc_getter D params) (\<lambda>info. and_then (rpc_getter D info)
      (\<lambda>s. map_err (\<lambda>e. Failed (show_utf8_error e)) (to_str s)))"
  show ?thesis
  proof (cases ?f)
    case (Ok sid)
    then have "params = Inr (Inr sid)" "utf8 sid" by auto
    then show ?thesis by (simp add: rpc_finalize_def handler_simps split: option.splits)
  qed (simp_all only: rpc_finalize_def, simp_all add: e)
qed

lemma stream_refines:
  "reg_count (srv_sessions (snd (rpc_stream_primitive D sha M params srv))) =
     spec_step (StreamReq params) (map_ok StreamRep (fst (rpc_stream_primitive D sha M params srv)))
       (reg_count (srv_sessions srv))"
proof (cases "\<exists>r. params = Inr (Inr r)")
  case True
  then obtain r where "params = Inr (Inr r)" by blast
  then show ?thesis
    by (cases r "srv_sessions srv" "srv_sink srv" rule: firewall.stream_cases
          [where sha = sha and M = M and fw = "srv_firewall srv"])
      (simp_all add: rpc_stream_read reg_count_def)
next
  case False
  have "spec_step (StreamReq params) (Err e) counts = counts" for e counts
    by (cases "(StreamReq params, Err e :: (reply, capnp_error) outcome, counts)" rule: spec_step.cases) simp_all
  then show ?thesis using rpc_stream_unread [OF False, of D sha M srv] by auto
qed

lemma serve_refines_counts:
  "reg_count (srv_sessions (fst (snd (serve D sha M q srv c)))) =
     spec_step q (fst (serve D sha M q srv c)) (reg_count (srv_sessions srv))"
  using handshake_refines [of D] stream_refines [of D sha M] finalize_refines [of D]
  by (cases q) (simp_all add: serve_reply serve_server del: serve.simps)

text \<open>Only an accepted handshake opens a session.\<close>

lemma spec_step_opens:
  "spec_step q r counts sid \<noteq> None \<Longrightarrow> counts sid \<noteq> None \<or>
     (\<exists>clock params m. q = HandshakeReq sid clock params \<and> r = Ok (HandshakeRep m) \<and> hm_status m \<noteq> Rejected)"
  by (cases "(q, r, counts)" rule: spec_step.cases) (auto split: if_splits outcome.splits)

text \<open>
  Property C5. The server refines the session service: after any call the open sessions and
  their counts are what the specification computes from the call and its answer alone, and a
  finalize that succeeds answers with the count the specification had for that session.
\<close>

theorem serve_refines_spec:
  "reg_count (srv_sessions (fst (snd (serve D sha M q srv c)))) =
     spec_step q (fst (serve D sha M q srv c)) (reg_count (srv_sessions srv)) \<and>
   (\<forall>sid n. q = FinalizeReq (Inr (Inr sid)) \<and> fst (serve D sha M q srv c) = Ok (FinalizeRep n) \<longrightarrow>
      reg_count (srv_sessions srv) sid = Some n)"
proof (intro conjI allI impI)
  show "reg_count (srv_sessions (fst (snd (serve D sha M q srv c)))) =
     spec_step q (fst (serve D sha M q srv c)) (reg_count (srv_sessions srv))"
    by (rule serve_refines_counts)
next
  fix sid n
  assume "q = FinalizeReq (Inr (Inr sid)) \<and> fst (serve D sha M q srv c) = Ok (FinalizeRep n)"
  then show "reg_count (srv_sessions srv) sid = Some n"
    by (cases "to_str sid") (auto simp: rpc_finalize_def handler_simps reg_count_def split: prod.splits option.splits)
qed

theorem serve_refines_spec_witness:
  "reg_count (srv_sessions live_server) ''s'' = Some 0"
  using serve_refines_spec [of no_env id list_mpsc "FinalizeReq (Inr (Inr ''s''))" live_server 0]
  by (simp add: rpc_finalize_def handler_simps live_server_def open_server_def sample_session_def ascii_utf8)

text \<open>
  Property C7. Sessions belong to their connection: a session known on a connection of a
  reachable process was opened by a handshake that this very connection served and did not
  reject, so no peer can count against, or drain, a session of another connection.
\<close>

theorem sessions_are_per_connection:
  assumes "proc_reach D sha M read json cfg es p" and "pr_conns p i = Some srv"
    and "sid \<in> dom (srv_sessions srv)"
  shows "\<exists>clock params m. Served i (HandshakeReq sid clock params) (Ok (HandshakeRep m)) \<in> set es \<and>
    hm_status m \<noteq> Rejected"
  using assms(3)
proof (rule rev_mp [OF _ proc_reach_conns [OF assms(1,2), of "\<lambda>i es srv. sid \<in> dom (srv_sessions srv) \<longrightarrow>
      (\<exists>clock params m. Served i (HandshakeReq sid clock params) (Ok (HandshakeRep m)) \<in> set es \<and>
         hm_status m \<noteq> Rejected)"]])
  fix i es srv q c r srv' c'
  assume IH: "sid \<in> dom (srv_sessions srv) \<longrightarrow>
      (\<exists>clock params m. Served i (HandshakeReq sid clock params) (Ok (HandshakeRep m)) \<in> set es \<and>
         hm_status m \<noteq> Rejected)"
    and s: "serve D sha M q srv c = (r, srv', c')"
  have "reg_count (srv_sessions srv') = spec_step q r (reg_count (srv_sessions srv))"
    using serve_refines_counts [of D sha M q srv c] s by simp
  then show "sid \<in> dom (srv_sessions srv') \<longrightarrow>
      (\<exists>clock params m. Served i (HandshakeReq sid clock params) (Ok (HandshakeRep m)) \<in> set (Served i q r # es) \<and>
         hm_status m \<noteq> Rejected)"
    using IH spec_step_opens [of q r "reg_count (srv_sessions srv)" sid]
    by (auto simp: dom_def simp flip: reg_count_None)
qed (auto simp: rpc_server_new_Ok)

theorem sessions_are_per_connection_witness:
  "\<exists>clock params m. Served 0 (HandshakeReq ''s'' clock params) (Ok (HandshakeRep m)) \<in> set sample_events \<and>
     hm_status m \<noteq> Rejected"
  by (rule sessions_are_per_connection [OF sample_reach, of 0 open_server "''s''"])
    (simp_all add: sample_process_def open_server_def)

end
