(* ===== verification/Client.thy ===== *)
theory Client
  imports Rpc
begin

text \<open>
  \<open>src/transport/client.rs\<close> and the demo program \<open>bin/aptp-client.rs\<close>. The client keeps
  the session id of its handshake and a counter of its sends. The remote object is a record of
  the three calls the client makes, each from the message it builds to what awaiting the
  promise and reading the response gives, over a state \<open>'n\<close> of the network and the peer. Its
  contract is the locale \<open>remote_peer\<close>.
\<close>

section \<open>The remote object\<close>

record handshake_reader =
  get_status :: "not_in_schema + handshake_status"
  get_assigned_session :: "capnp_error + string"
  get_rejection_reason :: "capnp_error + string"

text \<open>\<open>promise.await?\<close>, \<open>response.get()?\<close> and, for the handshake, \<open>get_result()?\<close>.\<close>

record 'n remote =
  call_handshake :: "card_msg \<Rightarrow> 'n \<Rightarrow> (capnp_error + (capnp_error + (capnp_error + handshake_reader))) \<times> 'n"
  call_stream :: "packet_msg \<Rightarrow> 'n \<Rightarrow> (capnp_error + (capnp_error + bool)) \<times> 'n"
  call_finalize :: "string \<Rightarrow> 'n \<Rightarrow> (capnp_error + (capnp_error + u64)) \<times> 'n"

section \<open>The client\<close>

record aptp_client =
  cl_session_id :: "string option"
  cl_sequence_counter :: u64

text \<open>
  \<open>resolve\<close> is \<open>to_socket_addrs\<close>, \<open>dial\<close> the TCP connection, \<open>nodelay\<close> the socket
  option with the set-up of the RPC system, which cannot fail.
\<close>

definition connect_to ::
  "(string \<Rightarrow> string + 'a list) \<Rightarrow> ('a \<Rightarrow> io_error + 's) \<Rightarrow> ('s \<Rightarrow> io_error + 'n) \<Rightarrow> string
     \<Rightarrow> (aptp_client \<times> 'n) result" where
  "connect_to resolve dial nodelay addr =
     (case resolve addr of
        Inl e \<Rightarrow> Err (Config (''invalid addr: '' @ e))
      | Inr [] \<Rightarrow> Err (Config ''empty addr'')
      | Inr (a # as) \<Rightarrow>
          (case dial a of
             Inl e \<Rightarrow> Err (Io e)
           | Inr stream \<Rightarrow>
               (case nodelay stream of
                  Inl e \<Rightarrow> Err (Io e)
                | Inr n \<Rightarrow> Ok (\<lparr>cl_session_id = None, cl_sequence_counter = 0\<rparr>, n))))"

definition connect ::
  "(string \<Rightarrow> string + 'a list) \<Rightarrow> ('a \<Rightarrow> io_error + 's) \<Rightarrow> ('s \<Rightarrow> io_error + 'n) \<Rightarrow> aptp_config
     \<Rightarrow> (aptp_client \<times> 'n) result" where
  "connect resolve dial nodelay cfg = connect_to resolve dial nodelay (bind_addr (cfg_transport cfg))"

definition set_texts :: "string list \<Rightarrow> string list result" where
  "set_texts v = and_then (init_elements [] v) (fill 0 v)"

definition card_request :: "agent_card \<Rightarrow> card_msg result" where
  "card_request c =
     and_then (set_texts (capabilities c)) (\<lambda>caps.
       Ok \<lparr>cm_agent_id = agent_id c, cm_aptp_version = aptp_version c, cm_public_key = [],
           cm_hidden_size = hidden_size c, cm_num_layers = num_layers c, cm_num_heads = num_heads c,
           cm_vocab_size = vocab_size c, cm_model_family = model_family c, cm_capabilities = caps\<rparr>)"

fun status_of :: "display_env \<Rightarrow> not_in_schema + handshake_status \<Rightarrow> handshake_status result" where
  "status_of D (Inl e) = Err (Internal (show_not_in_schema D e))"
| "status_of D (Inr s) = Ok s"

definition read_handshake ::
  "display_env \<Rightarrow> capnp_error + (capnp_error + (capnp_error + handshake_reader))
     \<Rightarrow> (handshake_status \<times> string \<times> handshake_reader) result" where
  "read_handshake D resp =
     and_then (getter resp) (\<lambda>r1.
     and_then (getter r1) (\<lambda>r2.
     and_then (getter r2) (\<lambda>answer.
     and_then (status_of D (get_status answer)) (\<lambda>status.
     and_then (text_getter (get_assigned_session answer)) (\<lambda>sid.
       Ok (status, sid, answer))))))"

definition client_handshake ::
  "display_env \<Rightarrow> 'n remote \<Rightarrow> agent_card \<Rightarrow> aptp_client \<Rightarrow> 'n \<Rightarrow> string result \<times> aptp_client \<times> 'n"
where
  "client_handshake D R c cl n =
     (case card_request c of
        Ok msg \<Rightarrow>
          let (resp, n') = call_handshake R msg n
          in (case read_handshake D resp of
                Ok (status, sid, answer) \<Rightarrow>
                  if status = Rejected
                  then (and_then (getter (get_rejection_reason answer))
                          (\<lambda>reason. Err (HandshakeRejected (str_or_unknown reason))), cl, n')
                  else (Ok sid, cl\<lparr>cl_session_id := Some sid\<rparr>, n')
              | Err e \<Rightarrow> (Err e, cl, n')
              | Panic \<Rightarrow> (Panic, cl, n')
              | UB \<Rightarrow> (UB, cl, n'))
      | Err e \<Rightarrow> (Err e, cl, n)
      | Panic \<Rightarrow> (Panic, cl, n)
      | UB \<Rightarrow> (UB, cl, n))"

text \<open>The client builds its packet message with code of its own.\<close>

fun request_primitive :: "primitive_payload \<Rightarrow> primitive_msg result" where
  "request_primitive (HiddenState v) = and_then (and_then (init_list v) (fill 0 v)) (\<lambda>l. Ok (HiddenStateM l))"
| "request_primitive (LatentThought v) = and_then (and_then (init_list v) (fill 0 v)) (\<lambda>l. Ok (LatentThoughtM l))"
| "request_primitive (KvCache kv) =
     and_then (and_then (init_list (keys kv)) (fill 0 (keys kv))) (\<lambda>ks.
     and_then (and_then (init_list (kv_values kv)) (fill 0 (kv_values kv))) (\<lambda>vs.
     and_then (and_then (init_list (dims (kv_shape kv))) (fill 0 (dims (kv_shape kv)))) (\<lambda>ds.
       Ok (KvCacheM \<lparr>m_layer_idx = layer_idx kv, m_keys = ks, m_values = vs, m_kv_dims = ds\<rparr>))))"

definition request_packet :: "primitive_packet \<Rightarrow> packet_msg result" where
  "request_packet p =
     and_then (request_primitive (payload p)) (\<lambda>prim.
     and_then (and_then (init_list (dims (pkt_shape p))) (fill 0 (dims (pkt_shape p)))) (\<lambda>ds.
       Ok \<lparr>m_version = version p, m_sender_id = sender_id p,
           m_model_fingerprint = model_fingerprint p, m_layer_index = layer_index p,
           m_primitive = prim, m_dims = ds,
           m_timestamp_ns = timestamp_ns (pkt_metadata p),
           m_sequence_id = sequence_id (pkt_metadata p),
           m_session_id = session_id (pkt_metadata p),
           m_compression_alg = compression_alg (pkt_metadata p)\<rparr>))"

definition send_primitive ::
  "'n remote \<Rightarrow> primitive_packet \<Rightarrow> aptp_client \<Rightarrow> 'n \<Rightarrow> bool result \<times> aptp_client \<times> 'n" where
  "send_primitive R p cl n =
     (case cl_session_id cl of
        None \<Rightarrow> (Err (Internal ''handshake not completed''), cl, n)
      | Some sid \<Rightarrow>
          let cl' = cl\<lparr>cl_sequence_counter := cl_sequence_counter cl + 1\<rparr>
          in (case request_packet p of
                Ok msg \<Rightarrow>
                  let (resp, n') = call_stream R msg n in (and_then (getter resp) getter, cl', n')
              | Err e \<Rightarrow> (Err e, cl', n)
              | Panic \<Rightarrow> (Panic, cl', n)
              | UB \<Rightarrow> (UB, cl', n)))"

text \<open>\<open>finalize\<close> consumes the client.\<close>

definition client_finalize :: "'n remote \<Rightarrow> aptp_client \<Rightarrow> 'n \<Rightarrow> u64 result \<times> 'n" where
  "client_finalize R cl n =
     (case cl_session_id cl of
        None \<Rightarrow> (Err (Internal ''no active session''), n)
      | Some sid \<Rightarrow>
          let (resp, n') = call_finalize R sid n in (and_then (getter resp) getter, n'))"

section \<open>The demo program\<close>

definition demo_vector :: "usize \<Rightarrow> nat \<Rightarrow> f32 list result" where
  "demo_vector hidden_dim i =
     and_then (alloc_f32 (unat hidden_dim)) (\<lambda>_.
       Ok (map (\<lambda>j. f32_add (f32_mul (f32_of_nat j) (f32_lit 1 1000))
             (f32_mul (f32_of_nat i) (f32_lit 1 10000))) [0 ..< unat hidden_dim]))"

definition demo_packet :: "nat option \<Rightarrow> aptp_config \<Rightarrow> string \<Rightarrow> nat \<Rightarrow> primitive_packet result" where
  "demo_packet clock cfg sid i =
     (let hidden_dim = usize_of_u32 (cfg_hidden_size (cfg_agent cfg))
      in and_then (demo_vector hidden_dim i) (\<lambda>v.
           Ok \<lparr>version = APTP_VERSION, sender_id = cfg_agent_id (cfg_agent cfg),
               model_fingerprint = replicate 32 0, layer_index = 16, payload = HiddenState v,
               pkt_shape = \<lparr>dims = [1, 1, u32_of_usize hidden_dim]\<rparr>,
               pkt_metadata = metadata_new_now clock sid (word_of_nat i)\<rparr>))"

text \<open>One pass of the loop: send, then \<open>assert!\<close> the acknowledgement.\<close>

fun demo_loop ::
  "'n remote \<Rightarrow> (nat \<Rightarrow> nat option) \<Rightarrow> aptp_config \<Rightarrow> string \<Rightarrow> nat list \<Rightarrow> aptp_client \<Rightarrow> 'n
     \<Rightarrow> unit result \<times> aptp_client \<times> 'n" where
  "demo_loop R clock cfg sid [] cl n = (Ok (), cl, n)"
| "demo_loop R clock cfg sid (i # is) cl n =
     (case demo_packet (clock i) cfg sid i of
        Ok p \<Rightarrow>
          (case send_primitive R p cl n of
             (Ok True, cl', n') \<Rightarrow> demo_loop R clock cfg sid is cl' n'
           | (Ok False, cl', n') \<Rightarrow> (Panic, cl', n')
           | (Err e, cl', n') \<Rightarrow> (Err e, cl', n')
           | (Panic, cl', n') \<Rightarrow> (Panic, cl', n')
           | (UB, cl', n') \<Rightarrow> (UB, cl', n'))
      | Err e \<Rightarrow> (Err e, cl, n)
      | Panic \<Rightarrow> (Panic, cl, n)
      | UB \<Rightarrow> (UB, cl, n))"

definition demo_run ::
  "display_env \<Rightarrow> 'n remote \<Rightarrow> string \<Rightarrow> (nat \<Rightarrow> nat option) \<Rightarrow> aptp_config \<Rightarrow> aptp_client \<Rightarrow> 'n
     \<Rightarrow> u64 result \<times> 'n" where
  "demo_run D R uuid clock cfg cl n =
     (case client_handshake D R (new_from_config uuid (cfg_agent cfg)) cl n of
        (Ok sid, cl', n') \<Rightarrow>
          (case demo_loop R clock cfg sid [0 ..< 100] cl' n' of
             (Ok u, cl'', n'') \<Rightarrow> client_finalize R cl'' n''
           | (Err e, cl'', n'') \<Rightarrow> (Err e, n'')
           | (Panic, cl'', n'') \<Rightarrow> (Panic, n'')
           | (UB, cl'', n'') \<Rightarrow> (UB, n''))
      | (Err e, cl', n') \<Rightarrow> (Err e, n')
      | (Panic, cl', n') \<Rightarrow> (Panic, n')
      | (UB, cl', n') \<Rightarrow> (UB, n'))"

definition demo_main ::
  "display_env \<Rightarrow> (string \<Rightarrow> string + 'a list) \<Rightarrow> ('a \<Rightarrow> io_error + 's) \<Rightarrow> ('s \<Rightarrow> io_error + 'n)
     \<Rightarrow> (string \<Rightarrow> string + string) \<Rightarrow> (string \<Rightarrow> string + aptp_config) \<Rightarrow> 'n remote \<Rightarrow> string
     \<Rightarrow> (nat \<Rightarrow> nat option) \<Rightarrow> string option \<Rightarrow> u64 result" where
  "demo_main D resolve dial nodelay read parse R uuid clock arg =
     and_then (from_toml_file read parse (case arg of None \<Rightarrow> ''aptp.toml'' | Some path \<Rightarrow> path))
       (\<lambda>cfg. and_then (connect resolve dial nodelay cfg)
         (\<lambda>(cl, n). fst (demo_run D R uuid clock cfg cl n)))"

section \<open>What the client builds\<close>

lemma request_packet_eq: "request_packet p = build_packet p"
proof -
  have "request_primitive pl = build_primitive pl" for pl by (cases pl) (simp_all add: set_list_def)
  then show ?thesis by (simp add: request_packet_def build_packet_def set_list_def)
qed

lemma set_texts_fits: "length v < 2 ^ 29 \<Longrightarrow> set_texts v = Ok v"
  unfolding set_texts_def by (rule set_elements_fits)

lemma send_primitive_sent:
  assumes "cl_session_id cl = Some sid" and "packet_fits p"
  shows "send_primitive R p cl n =
    (and_then (getter (fst (call_stream R (msg_of_packet p) n))) getter,
     cl\<lparr>cl_sequence_counter := cl_sequence_counter cl + 1\<rparr>, snd (call_stream R (msg_of_packet p) n))"
  using assms by (simp add: send_primitive_def request_packet_eq build_packet_eq split: prod.splits)

lemma send_primitive_too_long:
  assumes "cl_session_id cl = Some sid" and "\<not> packet_fits p"
  shows "send_primitive R p cl n =
    (Panic, cl\<lparr>cl_sequence_counter := cl_sequence_counter cl + 1\<rparr>, n)"
  using assms by (simp add: send_primitive_def request_packet_eq build_packet_eq)

lemma send_primitive_session [simp]:
  "cl_session_id (fst (snd (send_primitive R p cl n))) = cl_session_id cl"
  by (simp add: send_primitive_def Let_def split: option.splits outcome.splits prod.splits)

section \<open>The contract of the remote object\<close>

text \<open>Sending packets one after the other, whatever the answers.\<close>

fun send_all :: "'n remote \<Rightarrow> primitive_packet list \<Rightarrow> aptp_client \<Rightarrow> 'n \<Rightarrow> bool result list \<times> aptp_client \<times> 'n"
where
  "send_all R [] cl n = ([], cl, n)"
| "send_all R (p # ps) cl n =
     (case send_primitive R p cl n of
        (r, cl', n') \<Rightarrow> (case send_all R ps cl' n' of (rs, st) \<Rightarrow> (r # rs, st)))"

definition acked_in :: "string \<Rightarrow> primitive_packet \<Rightarrow> bool result \<Rightarrow> bool" where
  "acked_in sid p r \<longleftrightarrow> r = Ok True \<and> session_id (pkt_metadata p) = sid"

text \<open>
  What the client may rely on: an accepted handshake opens its session with count 0, a call
  of \<open>streamPrimitive\<close> that acknowledges counts for the session the packet names and any
  other answer for none, and \<open>finalize\<close> of an open session returns its count.
\<close>

locale remote_peer =
  fixes R :: "'n remote"
    and count :: "'n \<Rightarrow> string \<Rightarrow> u64 option"
  assumes handshake_opens: "\<lbrakk>call_handshake R c n = (Inr (Inr (Inr answer)), n');
      get_status answer = Inr st; st \<noteq> Rejected; get_assigned_session answer = Inr sid\<rbrakk> \<Longrightarrow>
      count n' sid = Some 0"
    and stream_counts: "call_stream R m n = (a, n') \<Longrightarrow> count n sid = Some k \<Longrightarrow>
      count n' sid = Some (k + (if a = Inr (Inr True) \<and> m_session_id m = sid then 1 else 0))"
    and finalize_returns: "count n sid = Some k \<Longrightarrow> utf8 sid \<Longrightarrow>
      fst (call_finalize R sid n) = Inr (Inr k)"
begin

lemma send_counts:
  assumes "send_primitive R p cl n = (r, cl', n')" and "count n sid = Some k"
  shows "count n' sid = Some (k + (if acked_in sid p r then 1 else 0))"
proof (cases "cl_session_id cl")
  case None
  then show ?thesis using assms by (auto simp: send_primitive_def acked_in_def)
next
  case (Some own)
  show ?thesis
  proof (cases "packet_fits p")
    case True
    obtain a n1 where c: "call_stream R (msg_of_packet p) n = (a, n1)" by fastforce
    have "count n1 sid = Some (k + (if a = Inr (Inr True) \<and> m_session_id (msg_of_packet p) = sid then 1 else 0))"
      using stream_counts [OF c assms(2)] .
    moreover have "r = and_then (getter a) getter" "n' = n1"
      using assms(1) c by (simp_all add: send_primitive_sent [OF Some True])
    ultimately show ?thesis by (simp add: acked_in_def msg_of_packet_def)
  next
    case False
    then show ?thesis using assms by (auto simp: send_primitive_too_long [OF Some] acked_in_def)
  qed
qed

lemma send_all_counts:
  assumes "send_all R ps cl n = (rs, cl', n')" and "count n sid = Some k"
  shows "count n' sid = Some (k + word_of_nat (length (filter (\<lambda>(p, r). acked_in sid p r) (zip ps rs)))) \<and>
    cl_session_id cl' = cl_session_id cl"
  using assms
proof (induction ps arbitrary: cl n rs k)
  case (Cons p ps)
  obtain r cl1 n1 where s: "send_primitive R p cl n = (r, cl1, n1)" by (metis prod_cases3)
  obtain rs1 where rs: "send_all R ps cl1 n1 = (rs1, cl', n')" "rs = r # rs1"
    using Cons.prems(1) s by (auto split: prod.splits)
  have "cl_session_id cl1 = cl_session_id cl" using send_primitive_session [of R p cl n] s by simp
  then show ?case
    using Cons.IH [OF rs(1) send_counts [OF s Cons.prems(2)]] rs(2) by (simp add: ac_simps)
qed simp

lemma handshake_session:
  assumes "client_handshake D R c cl n = (Ok sid, cl', n')"
  shows "count n' sid = Some 0 \<and> cl_session_id cl' = Some sid \<and> utf8 sid"
proof -
  obtain msg where m: "card_request c = Ok msg"
    using assms by (cases "card_request c") (auto simp: client_handshake_def)
  obtain resp n1 where call: "call_handshake R msg n = (resp, n1)" by fastforce
  have r: "(case read_handshake D resp of
        Ok (status, sid, answer) \<Rightarrow>
          if status = Rejected
          then (and_then (getter (get_rejection_reason answer))
                  (\<lambda>reason. Err (HandshakeRejected (str_or_unknown reason))), cl, n1)
          else (Ok sid, cl\<lparr>cl_session_id := Some sid\<rparr>, n1)
      | Err e \<Rightarrow> (Err e, cl, n1) | Panic \<Rightarrow> (Panic, cl, n1) | UB \<Rightarrow> (UB, cl, n1)) = (Ok sid, cl', n')"
    using assms m call by (simp add: client_handshake_def)
  then obtain status answer where rd: "read_handshake D resp = Ok (status, sid, answer)" "status \<noteq> Rejected"
    and st: "cl' = cl\<lparr>cl_session_id := Some sid\<rparr>" "n' = n1"
    by (auto split: outcome.splits if_splits prod.splits)
  have "resp = Inr (Inr (Inr answer))" "get_status answer = Inr status" "get_assigned_session answer = Inr sid" "utf8 sid"
    using rd(1) by (auto simp: read_handshake_def elim!: status_of.elims)
  then show ?thesis using handshake_opens call rd(2) st by auto
qed

text \<open>A whole session as a client lives it.\<close>

lemma session_total:
  assumes "client_handshake D R c cl n = (Ok sid, cl1, n1)" and "send_all R ps cl1 n1 = (rs, cl2, n2)"
  shows "fst (client_finalize R cl2 n2) =
    Ok (word_of_nat (length (filter (\<lambda>(p, r). acked_in sid p r) (zip ps rs))))"
proof -
  have h: "count n1 sid = Some 0" "cl_session_id cl1 = Some sid" "utf8 sid"
    using handshake_session [OF assms(1)] by auto
  then show ?thesis
    using send_all_counts [OF assms(2) h(1)] finalize_returns [OF _ h(3), of n2]
    by (simp add: client_finalize_def split: prod.splits) (metis fst_conv getter.simps(2) and_then.simps(1))
qed

end

text \<open>
  Nothing is sent before the handshake: without a session both
  \<open>send_primitive\<close> and \<open>finalize\<close> fail with their own error, whatever the packet, the
  network and the peer are not touched and the counter does not move.
\<close>

lemma no_send_before_handshake:
  "cl_session_id cl = None \<Longrightarrow>
     send_primitive R p cl n = (Err (Internal ''handshake not completed''), cl, n) \<and>
     client_finalize R cl n = (Err (Internal ''no active session''), n)"
  by (simp add: send_primitive_def client_finalize_def)

definition dead_remote :: "unit remote" where
  "dead_remote =
     \<lparr>call_handshake = (\<lambda>_ n. (Inl (Failed []), n)), call_stream = (\<lambda>_ n. (Inl (Failed []), n)),
      call_finalize = (\<lambda>_ n. (Inl (Failed []), n))\<rparr>"

lemma no_send_before_handshake_witness:
  "send_primitive dead_remote sample_packet \<lparr>cl_session_id = None, cl_sequence_counter = 0\<rparr> () =
     (Err (Internal ''handshake not completed''), \<lparr>cl_session_id = None, cl_sequence_counter = 0\<rparr>, ())"
  by (rule conjunct1 [OF no_send_before_handshake]) simp

text \<open>
  The two serialisers agree: the message the client builds in place for a call
  is the one \<open>packet_to_bytes\<close> hands to the packed serializer, including the panic on
  lists that are too long.
\<close>

lemma client_builds_same_message:
  "packet_to_bytes ser p = and_then (request_packet p) (\<lambda>msg. getter (ser msg))"
  by (simp add: packet_to_bytes_def request_packet_eq)

end
