(* ===== verification/System.thy ===== *)
theory System
  imports Server Client
begin

text \<open>
  The client of \<open>transport/client.rs\<close> against the server of \<open>transport/server.rs\<close>: the
  remote object is the server of one connection behind an in-memory network that hands every
  message over as its setters stored it. Assigned session ids and clock readings are given
  per handshake (\<open>fresh\<close>, \<open>clock\<close>); the channel behind the packet sink stays a parameter.
\<close>

section \<open>Readers on built messages\<close>

fun which_of :: "primitive_msg \<Rightarrow> primitive_which" where
  "which_of (HiddenStateM v) = HiddenStateR (Inr v)"
| "which_of (LatentThoughtM v) = LatentThoughtR (Inr v)"
| "which_of (KvCacheM kv) =
     KvCacheR (Inr \<lparr>get_layer_idx = m_layer_idx kv, get_keys = Inr (m_keys kv), get_values = Inr (m_values kv),
       get_kv_shape = Inr \<lparr>get_dims = Inr (m_kv_dims kv)\<rparr>\<rparr>)"

definition packet_reader_of :: "packet_msg \<Rightarrow> packet_reader" where
  "packet_reader_of m =
     \<lparr>get_version = m_version m, get_sender_id = Inr (m_sender_id m),
      get_model_fingerprint = Inr (m_model_fingerprint m), get_layer_index = m_layer_index m,
      get_which = Inr (which_of (m_primitive m)), get_shape = Inr \<lparr>get_dims = Inr (m_dims m)\<rparr>,
      get_metadata = Inr \<lparr>get_timestamp_ns = m_timestamp_ns m, get_sequence_id = m_sequence_id m,
        get_session_id = Inr (m_session_id m), get_compression_alg = Inr (m_compression_alg m)\<rparr>\<rparr>"

lemma reads_packet_reader_of: "reads_packet (packet_reader_of m) m"
  by (cases "m_primitive m") (simp_all add: reads_packet_def packet_reader_of_def)

definition card_reader_of :: "card_msg \<Rightarrow> card_reader" where
  "card_reader_of c =
     \<lparr>get_agent_id = Inr (cm_agent_id c), get_aptp_version = cm_aptp_version c,
      get_invariants = Inr \<lparr>get_hidden_size = cm_hidden_size c, get_num_layers = cm_num_layers c,
        get_num_heads = cm_num_heads c, get_vocab_size = cm_vocab_size c,
        get_model_family = Inr (cm_model_family c)\<rparr>,
      get_capabilities = Inr (map Inr (cm_capabilities c))\<rparr>"

definition handshake_reader_of :: "handshake_msg \<Rightarrow> handshake_reader" where
  "handshake_reader_of m =
     \<lparr>get_status = Inr (hm_status m), get_assigned_session = Inr (hm_assigned_session m),
      get_rejection_reason = Inr (hm_rejection_reason m)\<rparr>"

section \<open>The connected server\<close>

record 'ch link =
  ln_server :: "'ch rpc_server"
  ln_counter :: u64
  ln_handshakes :: nat

text \<open>An exception reaches the caller as the failed promise; a panic as a broken connection.\<close>

fun answered :: "(reply \<Rightarrow> capnp_error + 'a) \<Rightarrow> (reply, capnp_error) outcome \<Rightarrow> capnp_error + (capnp_error + 'a)"
where
  "answered f (Ok r) = Inr (f r)"
| "answered f (Err e) = Inl e"
| "answered f Panic = Inl (Foreign ''Disconnected'')"
| "answered f UB = Inl (Foreign ''Disconnected'')"

fun handshake_answer_of :: "reply \<Rightarrow> capnp_error + (capnp_error + handshake_reader)" where
  "handshake_answer_of (HandshakeRep m) = Inr (Inr (handshake_reader_of m))"
| "handshake_answer_of _ = Inl (Foreign ''wrong answer'')"

fun ack_of :: "reply \<Rightarrow> capnp_error + bool" where
  "ack_of (StreamRep b) = Inr b"
| "ack_of _ = Inl (Foreign ''wrong answer'')"

fun received_count_of :: "reply \<Rightarrow> capnp_error + u64" where
  "received_count_of (FinalizeRep n) = Inr n"
| "received_count_of _ = Inl (Foreign ''wrong answer'')"

definition linked ::
  "display_env \<Rightarrow> (u8 list \<Rightarrow> u8 list) \<Rightarrow> 'ch mpsc \<Rightarrow> (nat \<Rightarrow> string) \<Rightarrow> (nat \<Rightarrow> nat option) \<Rightarrow> 'ch link remote"
where
  "linked D sha M fresh clock =
     \<lparr>call_handshake = (\<lambda>c ln.
        let (r, srv, counter) =
          serve D sha M (HandshakeReq (fresh (ln_handshakes ln)) (clock (ln_handshakes ln))
            (Inr (Inr (card_reader_of c)))) (ln_server ln) (ln_counter ln)
        in (answered handshake_answer_of r,
            \<lparr>ln_server = srv, ln_counter = counter, ln_handshakes = ln_handshakes ln + 1\<rparr>)),
      call_stream = (\<lambda>m ln.
        let (r, srv, counter) =
          serve D sha M (StreamReq (Inr (Inr (packet_reader_of m)))) (ln_server ln) (ln_counter ln)
        in (answered ack_of r, ln\<lparr>ln_server := srv, ln_counter := counter\<rparr>)),
      call_finalize = (\<lambda>sid ln.
        let (r, srv, counter) =
          serve D sha M (FinalizeReq (Inr (Inr sid))) (ln_server ln) (ln_counter ln)
        in (answered received_count_of r, ln\<lparr>ln_server := srv, ln_counter := counter\<rparr>))\<rparr>"

definition link_count :: "'ch link \<Rightarrow> string \<Rightarrow> u64 option" where
  "link_count ln = reg_count (srv_sessions (ln_server ln))"

section \<open>The server keeps the client's contract\<close>

lemma answered_iff [simp]:
  "answered f r = Inr x \<longleftrightarrow> (\<exists>y. r = Ok y \<and> f y = x)"
  by (cases r) auto

lemma reply_iff [simp]:
  "handshake_answer_of y = Inr a \<longleftrightarrow> (\<exists>m. y = HandshakeRep m \<and> a = Inr (handshake_reader_of m))"
  "ack_of y = Inr b \<longleftrightarrow> y = StreamRep b"
  "received_count_of y = Inr k \<longleftrightarrow> y = FinalizeRep k"
  by (cases y; auto)+

lemma session_of_reader:
  "packet_from_capnp (packet_reader_of m) = Ok p \<Longrightarrow> session_id (pkt_metadata p) = m_session_id m"
  by (auto simp: packet_from_capnp_def packet_reader_of_def)

interpretation link: remote_peer "linked D sha M fresh clock" link_count
  for D sha M fresh clock
proof
  fix c and n n' :: "'a link" and answer st sid
  assume h: "call_handshake (linked D sha M fresh clock) c n = (Inr (Inr (Inr answer)), n')"
    "get_status answer = Inr st" "st \<noteq> Rejected" "get_assigned_session answer = Inr sid"
  let ?q = "\<lambda>f. f D (fresh (ln_handshakes n)) (clock (ln_handshakes n)) (Inr (Inr (card_reader_of c))) (ln_server n)"
  obtain m where m: "fst (?q rpc_handshake) = Ok m" "answer = handshake_reader_of m"
    "ln_server n' = snd (?q rpc_handshake)"
    using h(1) by (auto simp: linked_def split: prod.splits)
  then show "link_count n' sid = Some 0"
    using h(2-4) handshake_opens_session [OF m(1)] by (simp add: handshake_reader_of_def link_count_def)
next
  fix m and n n' :: "'a link" and a sid k
  assume c: "call_stream (linked D sha M fresh clock) m n = (a, n')" and k: "link_count n sid = Some k"
  let ?r = "rpc_stream_primitive D sha M (Inr (Inr (packet_reader_of m))) (ln_server n)"
  have a: "a = answered ack_of (map_ok StreamRep (fst ?r))" "ln_server n' = snd ?r"
    using c by (auto simp: linked_def split: prod.splits)
  have "acked_for sid (StreamReq (Inr (Inr (packet_reader_of m)))) (map_ok StreamRep (fst ?r)) \<longleftrightarrow>
      a = Inr (Inr True) \<and> m_session_id m = sid"
    using a(1) acked_was_read [of D sha M "packet_reader_of m" "ln_server n"] session_of_reader [of m]
    by (auto simp: acked_for_def)
  then show "link_count n' sid = Some (k + (if a = Inr (Inr True) \<and> m_session_id m = sid then 1 else 0))"
    using stream_count [of D sha M "packet_reader_of m" "ln_server n" sid] a(2) k
    by (simp add: link_count_def)
next
  fix n :: "'a link" and sid k
  assume k: "link_count n sid = Some k" and u: "utf8 sid"
  then show "fst (call_finalize (linked D sha M fresh clock) sid n) = Inr (Inr k)"
    by (auto simp: linked_def link_count_def reg_count_def rpc_finalize_def handler_simps split: prod.splits)
qed

text \<open>
  Of the transport configuration only the address counts: neither side reads the connect
  timeout, the frame size or the TLS files.
\<close>

lemma transport_settings_ignored:
  assumes "bind_addr (cfg_transport cfg) = bind_addr (cfg_transport cfg')"
  shows "connect resolve dial nodelay cfg = connect resolve dial nodelay cfg' \<and>
    run_server parse_addr bind cfg = run_server parse_addr bind cfg'"
  using assms by (simp add: connect_def run_server_def)

section \<open>Calls over the link\<close>

lemma reader_returns_packet:
  "packet_utf8 p \<Longrightarrow> packet_from_capnp (packet_reader_of (msg_of_packet p)) = Ok p"
  by (rule packet_from_reads [OF reads_packet_reader_of])

lemma link_stream:
  "call_stream (linked D sha M fresh clock) m ln =
     (answered ack_of (map_ok StreamRep
        (fst (rpc_stream_primitive D sha M (Inr (Inr (packet_reader_of m))) (ln_server ln)))),
      ln\<lparr>ln_server := snd (rpc_stream_primitive D sha M (Inr (Inr (packet_reader_of m))) (ln_server ln))\<rparr>)"
  by (cases ln) (simp add: linked_def split: prod.splits)

lemma card_request_fits:
  "length (capabilities c) < 2 ^ 29 \<Longrightarrow> card_request c =
     Ok \<lparr>cm_agent_id = agent_id c, cm_aptp_version = aptp_version c, cm_public_key = [],
         cm_hidden_size = hidden_size c, cm_num_layers = num_layers c, cm_num_heads = num_heads c,
         cm_vocab_size = vocab_size c, cm_model_family = model_family c, cm_capabilities = capabilities c\<rparr>"
  by (simp add: card_request_def set_texts_fits)

definition card_utf8 :: "agent_card \<Rightarrow> bool" where
  "card_utf8 c \<longleftrightarrow> utf8 (agent_id c) \<and> utf8 (model_family c) \<and> (\<forall>s \<in> set (capabilities c). utf8 s)"

lemma card_from_reader:
  "card_utf8 c \<Longrightarrow> agent_card_from_capnp (card_reader_of
     \<lparr>cm_agent_id = agent_id c, cm_aptp_version = aptp_version c, cm_public_key = [],
      cm_hidden_size = hidden_size c, cm_num_layers = num_layers c, cm_num_heads = num_heads c,
      cm_vocab_size = vocab_size c, cm_model_family = model_family c, cm_capabilities = capabilities c\<rparr>) = Ok c"
  by (auto simp: agent_card_Ok_iff card_reader_of_def card_utf8_def)

lemma link_handshake:
  assumes "card_utf8 c" and "length (capabilities c) < 2 ^ 29" and "aptp_version c = APTP_VERSION"
    and "utf8 (fresh (ln_handshakes ln))"
  shows "\<exists>ln'. client_handshake D (linked D sha M fresh clock) c cl ln =
      (Ok (fresh (ln_handshakes ln)), cl\<lparr>cl_session_id := Some (fresh (ln_handshakes ln))\<rparr>, ln') \<and>
    link_count ln' = (link_count ln)(fresh (ln_handshakes ln) \<mapsto> 0) \<and>
    map_option ss_peer_agent_id (srv_sessions (ln_server ln') (fresh (ln_handshakes ln))) = Some (agent_id c)"
  using assms(3,4)
  by (simp add: client_handshake_def card_request_fits [OF assms(2)] linked_def rpc_handshake_def
      card_from_reader [OF assms(1), unfolded assms(3)] handshake_handle_def read_handshake_def handshake_reader_of_def
      handler_simps Let_def link_count_def)

definition no_session :: aptp_client where
  "no_session = \<lparr>cl_session_id = None, cl_sequence_counter = 0\<rparr>"

lemma delivered:
  assumes "cl_session_id cl = Some own" and "packet_fits p" and "packet_utf8 p"
    and "session_id (pkt_metadata p) \<in> dom (srv_sessions (ln_server ln))"
    and "chan_send M (tag_of sha p) (srv_sink (ln_server ln)) = Some ch"
    and "send_primitive (linked D sha M fresh clock) p cl ln = (r, cl', ln')"
  shows "r = Ok (is_ok (validate (srv_firewall (ln_server ln)) (payload p))) \<and>
    (if r = Ok True then srv_sink (ln_server ln') = ch else ln_server ln' = ln_server ln)"
proof (cases "validate (srv_firewall (ln_server ln)) (payload p)")
  case (Ok u)
  then have "r = Ok True \<and> srv_sink (ln_server ln') = ch" using assms(4-6)
    by (auto simp: send_primitive_sent [OF assms(1,2)] link_stream rpc_stream_read
        stream_handle_valid [OF reader_returns_packet [OF assms(3)]] handler_simps)
  then show ?thesis using Ok by simp
next
  case (Err e)
  then have "r = Ok False \<and> ln_server ln' = ln_server ln" using assms(6)
    by (auto simp: send_primitive_sent [OF assms(1,2)] link_stream rpc_stream_read
        stream_handle_rejected [OF reader_returns_packet [OF assms(3)]])
  then show ?thesis using Err by simp
qed (use validate_returns [of "srv_firewall (ln_server ln)" "payload p"] in auto)

definition open_link :: "(tagged_primitive list \<times> bool) link" where
  "open_link = \<lparr>ln_server = live_server, ln_counter = 0, ln_handshakes = 1\<rparr>"

definition with_session :: aptp_client where
  "with_session = \<lparr>cl_session_id = Some ''s'', cl_sequence_counter = 0\<rparr>"

end
