(* ===== verification/Interleave.thy ===== *)
theory Interleave
  imports Server
begin

text \<open>
  Interleaving inside one connection. The stream handler of \<open>rpc/stream.rs\<close> awaits twice: the
  send to the sink and the lock of the registry. Between the two other calls of the connection
  may run, so a packet can be in the sink while its session does not count it yet. The other
  handlers touch shared state in one critical section only and stay single steps.
\<close>

section \<open>The handler in two steps\<close>

text \<open>Up to the delivery: the answer, or the session that still has to be counted.\<close>

definition stream_begin ::
  "(u8 list \<Rightarrow> u8 list) \<Rightarrow> (primitive_payload \<Rightarrow> unit result) \<Rightarrow> 'ch mpsc \<Rightarrow> packet_reader \<Rightarrow> 'ch
     \<Rightarrow> (bool result + string) \<times> 'ch" where
  "stream_begin sha gate M reader ch =
     (case packet_from_capnp reader of
        Err e \<Rightarrow> (Inl (Ok False), ch)
      | Panic \<Rightarrow> (Inl Panic, ch)
      | UB \<Rightarrow> (Inl UB, ch)
      | Ok packet \<Rightarrow>
          (case gate (payload packet) of
             Err e \<Rightarrow> (Inl (Ok False), ch)
           | Panic \<Rightarrow> (Inl Panic, ch)
           | UB \<Rightarrow> (Inl UB, ch)
           | Ok u \<Rightarrow>
               (case and_then (tagged_new sha packet f32_one)
                       (\<lambda>tagged. and_then (verify_provenance sha tagged) (\<lambda>ok. Ok (tagged, ok))) of
                  Ok (tagged, ok) \<Rightarrow>
                    if \<not> ok then (Inl (Err ProvenanceMismatch), ch)
                    else (case sink_send M tagged ch of
                        (Ok w, ch') \<Rightarrow> (Inr (session_id (pkt_metadata packet)), ch')
                      | (e, ch') \<Rightarrow> (Inl (and_then e (\<lambda>_. Ok True)), ch'))
                | Err e \<Rightarrow> (Inl (Err e), ch)
                | Panic \<Rightarrow> (Inl Panic, ch)
                | UB \<Rightarrow> (Inl UB, ch))))"

definition stream_finish :: "string \<Rightarrow> registry \<Rightarrow> bool result \<times> registry" where
  "stream_finish sid reg =
     (let (r, reg') = reg_increment sid reg in (and_then r (\<lambda>_. Ok True), reg'))"

lemma stream_handle_split:
  "stream_handle sha gate M reader reg ch =
     (case stream_begin sha gate M reader ch of
        (Inl r, ch') \<Rightarrow> (r, reg, ch')
      | (Inr sid, ch') \<Rightarrow> (case stream_finish sid reg of (r, reg') \<Rightarrow> (r, reg', ch')))"
  by (simp add: stream_handle_def stream_begin_def stream_accept_def stream_finish_def
      split: outcome.splits prod.splits)

section \<open>Interleaved calls\<close>

text \<open>
  \<open>cn_pending\<close> are the sessions of the suspended stream calls, \<open>cn_delivered\<close> the sessions
  of all packets the sink took (an observation, not state of the program).
\<close>

record 'ch conn =
  cn_server :: "'ch rpc_server"
  cn_counter :: u64
  cn_pending :: "string list"
  cn_delivered :: "string list"

datatype action = Call request | Resume nat

definition remove_nth :: "nat \<Rightarrow> 'a list \<Rightarrow> 'a list" where
  "remove_nth k xs = take k xs @ drop (Suc k) xs"

definition call_stream_step ::
  "display_env \<Rightarrow> (u8 list \<Rightarrow> u8 list) \<Rightarrow> 'ch mpsc \<Rightarrow> packet_reader \<Rightarrow> 'ch conn
     \<Rightarrow> (reply, capnp_error) outcome option \<times> 'ch conn" where
  "call_stream_step D sha M reader cn =
     (case stream_begin sha (validate (srv_firewall (cn_server cn))) M reader (srv_sink (cn_server cn)) of
        (Inl r, ch) \<Rightarrow>
          (Some (map_ok StreamRep (rpc_result D r)), cn\<lparr>cn_server := (cn_server cn)\<lparr>srv_sink := ch\<rparr>\<rparr>)
      | (Inr sid, ch) \<Rightarrow>
          (None, cn\<lparr>cn_server := (cn_server cn)\<lparr>srv_sink := ch\<rparr>, cn_pending := cn_pending cn @ [sid],
             cn_delivered := cn_delivered cn @ [sid]\<rparr>))"

fun act ::
  "display_env \<Rightarrow> (u8 list \<Rightarrow> u8 list) \<Rightarrow> 'ch mpsc \<Rightarrow> action \<Rightarrow> 'ch conn
     \<Rightarrow> (reply, capnp_error) outcome option \<times> 'ch conn" where
  "act D sha M (Call (StreamReq (Inr (Inr reader)))) cn = call_stream_step D sha M reader cn"
| "act D sha M (Call q) cn =
     (case serve D sha M q (cn_server cn) (cn_counter cn) of
        (r, srv, counter) \<Rightarrow> (Some r, cn\<lparr>cn_server := srv, cn_counter := counter\<rparr>))"
| "act D sha M (Resume k) cn =
     (if k < length (cn_pending cn)
      then (case stream_finish (cn_pending cn ! k) (srv_sessions (cn_server cn)) of
          (r, reg) \<Rightarrow>
            (Some (map_ok StreamRep (rpc_result D r)),
             cn\<lparr>cn_server := (cn_server cn)\<lparr>srv_sessions := reg\<rparr>, cn_pending := remove_nth k (cn_pending cn)\<rparr>))
      else (None, cn))"

fun acts ::
  "display_env \<Rightarrow> (u8 list \<Rightarrow> u8 list) \<Rightarrow> 'ch mpsc \<Rightarrow> action list \<Rightarrow> 'ch conn \<Rightarrow> 'ch conn" where
  "acts D sha M [] cn = cn"
| "acts D sha M (a # as) cn = acts D sha M as (snd (act D sha M a cn))"

section \<open>Counting under interleaving\<close>

fun action_concerns :: "string \<Rightarrow> action \<Rightarrow> bool" where
  "action_concerns sid (Call q) \<longleftrightarrow> concerns sid q"
| "action_concerns sid (Resume k) \<longleftrightarrow> False"

lemma count_remove_nth:
  "k < length xs \<Longrightarrow> count_list xs x = count_list (remove_nth k xs) x + (if xs ! k = x then 1 else 0)"
  by (induction xs arbitrary: k) (auto simp: remove_nth_def nth_Cons' gr0_conv_Suc split: nat.splits)

text \<open>What the sink took is counted or still pending, as long as the session is open.\<close>

definition balanced :: "string \<Rightarrow> 'ch conn \<Rightarrow> bool" where
  "balanced sid cn \<longleftrightarrow>
     (\<exists>n. reg_count (srv_sessions (cn_server cn)) sid = Some n \<and>
        n + word_of_nat (count_list (cn_pending cn) sid) = word_of_nat (count_list (cn_delivered cn) sid))"

lemma balanced_call_stream:
  "balanced sid cn \<Longrightarrow> balanced sid (snd (call_stream_step D sha M reader cn))"
  by (auto simp: balanced_def call_stream_step_def ac_simps split: prod.splits sum.splits)

lemma balanced_serve:
  assumes "balanced sid cn" "\<not> concerns sid q" "\<nexists>r. q = StreamReq (Inr (Inr r))"
    and "serve D sha M q (cn_server cn) (cn_counter cn) = (r, srv, c)"
  shows "balanced sid (cn\<lparr>cn_server := srv, cn_counter := c\<rparr>)"
proof -
  have "\<not> acked_for sid q r" using assms(3) by (auto simp: acked_for_def)
  then have "reg_count (srv_sessions srv) sid = reg_count (srv_sessions (cn_server cn)) sid"
    using serve_count [OF assms(2), of D sha M "cn_server cn" "cn_counter cn"] assms(4)
    by (simp add: option.map_ident)
  then show ?thesis using assms(1) by (simp add: balanced_def)
qed

lemma balanced_act:
  assumes "balanced sid cn" "\<not> action_concerns sid a"
  shows "balanced sid (snd (act D sha M a cn))"
proof (cases a)
  case (Call q)
  show ?thesis
  proof (cases "\<exists>r. q = StreamReq (Inr (Inr r))")
    case True
    then show ?thesis using assms Call by (auto simp: balanced_call_stream)
  next
    case False
    have e: "act D sha M (Call q) cn =
        (case serve D sha M q (cn_server cn) (cn_counter cn) of
           (r, srv, counter) \<Rightarrow> (Some r, cn\<lparr>cn_server := srv, cn_counter := counter\<rparr>))"
      using False
      by (cases "(D, sha, M, Call q, cn)" rule: act.cases) auto
    show ?thesis
      using balanced_serve [OF assms(1) _ False, of D sha M] assms(2) Call
      by (simp add: e del: act.simps serve.simps split: prod.splits)
  qed
next
  case (Resume k)
  show ?thesis
  proof (cases "k < length (cn_pending cn)")
    case True
    let ?s = "cn_pending cn ! k" and ?reg = "srv_sessions (cn_server cn)"
    obtain n where n: "reg_count ?reg sid = Some n"
      "n + word_of_nat (count_list (cn_pending cn) sid) = word_of_nat (count_list (cn_delivered cn) sid)"
      using assms(1) by (auto simp: balanced_def)
    have f: "reg_count (snd (stream_finish ?s ?reg)) sid = Some (n + (if ?s = sid then 1 else 0))"
      using n(1) by (cases "?reg ?s") (auto simp: stream_finish_def handler_simps reg_count_def)
    obtain r reg where sf: "stream_finish ?s ?reg = (r, reg)" by fastforce
    have e: "snd (act D sha M a cn) = cn\<lparr>cn_server := (cn_server cn)\<lparr>srv_sessions := reg\<rparr>,
        cn_pending := remove_nth k (cn_pending cn)\<rparr>"
      by (simp add: Resume True sf)
    have "n + (if ?s = sid then 1 else 0) + word_of_nat (count_list (remove_nth k (cn_pending cn)) sid) =
        word_of_nat (count_list (cn_delivered cn) sid)"
      unfolding n(2) [symmetric] count_remove_nth [OF True, of sid] by simp
    then show ?thesis using f sf by (simp add: balanced_def e)
  qed (use assms(1) Resume in simp)
qed

lemma balanced_acts:
  "balanced sid cn \<Longrightarrow> \<forall>a \<in> set as. \<not> action_concerns sid a \<Longrightarrow> balanced sid (acts D sha M as cn)"
  by (induction "as" arbitrary: cn) (auto simp: balanced_act)

text \<open>
  Property C15. A finalize does not wait for the packets under way: from a session with count
  0 and nothing pending, after any interleaving of calls and resumed stream calls that neither
  opens nor finalizes the session, its finalize answers the number of packets the sink took for
  it less those whose stream call is still suspended (modulo \<open>2 ^ 64\<close>).
\<close>

theorem finalize_misses_pending:
  assumes "reg_count (srv_sessions (cn_server cn)) sid = Some 0" and "utf8 sid"
    and "count_list (cn_pending cn) sid = 0" and "count_list (cn_delivered cn) sid = 0"
    and "\<forall>a \<in> set as. \<not> action_concerns sid a"
  shows "\<exists>n. fst (act D sha M (Call (FinalizeReq (Inr (Inr sid)))) (acts D sha M as cn)) = Some (Ok (FinalizeRep n)) \<and>
    n + word_of_nat (count_list (cn_pending (acts D sha M as cn)) sid) =
      word_of_nat (count_list (cn_delivered (acts D sha M as cn)) sid)"
proof -
  have "balanced sid cn" using assms(1,3,4) by (simp add: balanced_def)
  then have "balanced sid (acts D sha M as cn)" using assms(5) by (rule balanced_acts)
  then show ?thesis
    using assms(2) by (auto simp: balanced_def rpc_finalize_def handler_simps reg_count_def split: prod.splits)
qed

definition live_conn :: "(tagged_primitive list \<times> bool) conn" where
  "live_conn = \<lparr>cn_server = live_server, cn_counter = 0, cn_pending = [], cn_delivered = []\<rparr>"

text \<open>One packet delivered, its call suspended: the session is finalized with 0.\<close>

lemma sample_begin:
  "stream_begin id (validate plain_firewall) list_mpsc sample_reader ([], True) =
     (Inr ''s'', ([tag_of id sample_packet], True))"
  by (simp add: stream_begin_def read_sample plain_accepts_sample sink_send_def list_mpsc_def tag_of_def
      session_of_sample)

theorem finalize_misses_pending_witness:
  "fst (act no_env id list_mpsc (Call (FinalizeReq (Inr (Inr ''s''))))
     (acts no_env id list_mpsc [Call (StreamReq (Inr (Inr sample_reader)))] live_conn)) =
   Some (Ok (FinalizeRep 0))"
proof -
  have z: "reg_count (srv_sessions (cn_server live_conn)) ''s'' = Some 0"
    by (simp add: live_conn_def live_server_def open_server_def sample_session_def)
  have one: "acts no_env id list_mpsc [Call (StreamReq (Inr (Inr sample_reader)))] live_conn =
      live_conn\<lparr>cn_server := live_server\<lparr>srv_sink := ([tag_of id sample_packet], True)\<rparr>,
        cn_pending := [''s''], cn_delivered := [''s'']\<rparr>"
    by (simp add: call_stream_step_def live_conn_def live_server_def open_server_def sample_server_def sample_begin)
  obtain n where a: "fst (act no_env id list_mpsc (Call (FinalizeReq (Inr (Inr ''s''))))
      (acts no_env id list_mpsc [Call (StreamReq (Inr (Inr sample_reader)))] live_conn)) = Some (Ok (FinalizeRep n))"
    and b: "n + word_of_nat (count_list (cn_pending
        (acts no_env id list_mpsc [Call (StreamReq (Inr (Inr sample_reader)))] live_conn)) ''s'') =
      word_of_nat (count_list (cn_delivered
        (acts no_env id list_mpsc [Call (StreamReq (Inr (Inr sample_reader)))] live_conn)) ''s'')"
    using finalize_misses_pending [OF z, of "[Call (StreamReq (Inr (Inr sample_reader)))]" no_env id list_mpsc]
    by (auto simp: ascii_utf8 live_conn_def simp del: acts.simps act.simps)
  have "n = 0" using b unfolding one by simp
  then show ?thesis using a by simp
qed

end
