(* ===== verification/Isolation.thy ===== *)
theory Isolation
  imports Server
begin

text \<open>
  Connections of one process do not influence each other. Each accepted connection of
  \<open>transport/server.rs\<close> has its own server object; the only thing shared is the counter behind
  the negotiated weights. So what a connection holds and answers, the values of the weights of a
  linear negotiation apart, is a function of its own calls, however the calls of the others are
  interleaved with them. A call is its request with what it draws from outside the process:
  the fresh UUID of a session and the reading of the clock.
\<close>

section \<open>A connection and its own calls\<close>












section \<open>Isolation\<close>










end
