(* ===== verification/Backpressure.thy ===== *)
theory Backpressure
  imports Interleave "HOL-Library.Multiset" "HOL-Library.Sublist"
begin

text \<open>
  The stream handler of \<open>rpc/stream.rs\<close> over a channel that can be full. \<open>sink.send(tagged)\<close>
  awaits a free place in the bounded channel behind \<open>PacketSink\<close> (\<open>rpc/mod.rs\<close>), so a stream
  call is suspended twice: waiting for a place, and, once its packet is in the channel, waiting
  for the lock of the registry. Between the two other calls run, the embedder takes packets
  from the receiver, or drops it. The channel is a parameter with its documented laws.

  Any waiting call may take a free place; the channel itself serves its senders first in, first
  out, so the runs here include the real ones. A call whose connection closes while it waits is
  cancelled; that is not an event, such a call stays suspended.
\<close>

section \<open>The bounded channel\<close>

text \<open>
  Polling the future of \<open>send\<close> of a \<open>tokio::sync::mpsc\<close> channel: the value is in the
  channel, there is no place, or the receiver is gone; taking a value from the receiver; dropping
  the receiver.
\<close>

datatype send_poll = Sent | Full | Closed

record 'ch bounded =
  poll_send :: "tagged_primitive \<Rightarrow> 'ch \<Rightarrow> send_poll \<times> 'ch"
  recv_next :: "'ch \<Rightarrow> tagged_primitive option \<times> 'ch"
  drop_receiver :: "'ch \<Rightarrow> 'ch"

text \<open>The documented behaviour of a channel of \<open>cap\<close> places that holds \<open>queue ch\<close>.\<close>

definition bounded_chan ::
  "nat \<Rightarrow> 'ch bounded \<Rightarrow> ('ch \<Rightarrow> tagged_primitive list) \<Rightarrow> ('ch \<Rightarrow> bool) \<Rightarrow> bool" where
  "bounded_chan cap B queue live \<longleftrightarrow>
     (\<forall>t ch. \<not> live ch \<longrightarrow> poll_send B t ch = (Closed, ch)) \<and>
     (\<forall>t ch. live ch \<and> cap \<le> length (queue ch) \<longrightarrow> poll_send B t ch = (Full, ch)) \<and>
     (\<forall>t ch. live ch \<and> length (queue ch) < cap \<longrightarrow>
        fst (poll_send B t ch) = Sent \<and> live (snd (poll_send B t ch)) \<and>
        queue (snd (poll_send B t ch)) = queue ch @ [t]) \<and>
     (\<forall>ch. queue ch = [] \<longrightarrow> recv_next B ch = (None, ch)) \<and>
     (\<forall>t ts ch. queue ch = t # ts \<longrightarrow>
        fst (recv_next B ch) = Some t \<and> live (snd (recv_next B ch)) = live ch \<and>
        queue (snd (recv_next B ch)) = ts) \<and>
     (\<forall>ch. \<not> live (drop_receiver B ch) \<and> queue (drop_receiver B ch) = [])"

lemma bounded_chanD:
  assumes "bounded_chan cap B queue live"
  shows "\<not> live ch \<Longrightarrow> poll_send B t ch = (Closed, ch)"
    and "live ch \<Longrightarrow> cap \<le> length (queue ch) \<Longrightarrow> poll_send B t ch = (Full, ch)"
    and "queue ch = [] \<Longrightarrow> recv_next B ch = (None, ch)"
    and "\<not> live (drop_receiver B ch)" "queue (drop_receiver B ch) = []"
  using assms by (simp_all add: bounded_chan_def)

lemma poll_sent:
  assumes "bounded_chan cap B queue live" and "poll_send B t ch = (Sent, ch')"
  shows "live ch \<and> live ch' \<and> length (queue ch) < cap \<and> queue ch' = queue ch @ [t]"
proof -
  have "live ch" using assms bounded_chanD(1) [OF assms(1), of ch t] by auto
  moreover have "length (queue ch) < cap"
    using assms(2) bounded_chanD(2) [OF assms(1) \<open>live ch\<close>, of t] by (auto simp: not_less [symmetric])
  ultimately show ?thesis using assms unfolding bounded_chan_def by (metis fst_conv snd_conv)
qed

lemma poll_not_sent:
  assumes "bounded_chan cap B queue live" and "poll_send B t ch = (p, ch')" "p \<noteq> Sent"
  shows "ch' = ch \<and> (p = Closed \<longleftrightarrow> \<not> live ch) \<and> (p = Full \<longleftrightarrow> live ch \<and> cap \<le> length (queue ch))"
proof (cases "live ch")
  case True
  then have "cap \<le> length (queue ch)"
    using assms unfolding bounded_chan_def by (metis fst_conv not_less)
  then show ?thesis using True assms bounded_chanD(2) [OF assms(1) True, of t] by auto
next
  case False
  then show ?thesis using assms bounded_chanD(1) [OF assms(1) False, of t] by auto
qed

lemma recv_took:
  assumes "bounded_chan cap B queue live" and "recv_next B ch = (r, ch')"
  shows "live ch' = live ch \<and>
    (case r of None \<Rightarrow> queue ch = [] \<and> ch' = ch | Some t \<Rightarrow> queue ch = t # queue ch')"
proof (cases "queue ch")
  case Nil
  then show ?thesis using assms bounded_chanD(3) [OF assms(1) Nil] by auto
next
  case (Cons t ts)
  then have "fst (recv_next B ch) = Some t \<and> live (snd (recv_next B ch)) = live ch \<and>
      queue (snd (recv_next B ch)) = ts"
    using assms(1) unfolding bounded_chan_def by blast
  then show ?thesis using assms(2) Cons by simp
qed

text \<open>A concrete channel for examples: the queued values and whether the receiver is alive.\<close>

definition list_bounded :: "nat \<Rightarrow> (tagged_primitive list \<times> bool) bounded" where
  "list_bounded cap =
     \<lparr>poll_send = (\<lambda>t (q, alive). if \<not> alive then (Closed, (q, alive))
        else if length q < cap then (Sent, (q @ [t], alive)) else (Full, (q, alive))),
      recv_next = (\<lambda>(q, alive). case q of [] \<Rightarrow> (None, ([], alive)) | t # ts \<Rightarrow> (Some t, (ts, alive))),
      drop_receiver = (\<lambda>(q, alive). ([], False))\<rparr>"

lemma list_bounded_ok: "bounded_chan cap (list_bounded cap) fst snd"
  by (auto simp: bounded_chan_def list_bounded_def split: list.split)

section \<open>The handler up to its send\<close>

text \<open>The answer of the handler, or the tagged packet it sends to the sink.\<close>

definition stream_tagged ::
  "(u8 list \<Rightarrow> u8 list) \<Rightarrow> (primitive_payload \<Rightarrow> unit result) \<Rightarrow> packet_reader
     \<Rightarrow> bool result + tagged_primitive" where
  "stream_tagged sha gate reader =
     (case packet_from_capnp reader of
        Err e \<Rightarrow> Inl (Ok False)
      | Panic \<Rightarrow> Inl Panic
      | UB \<Rightarrow> Inl UB
      | Ok packet \<Rightarrow>
          (case gate (payload packet) of
             Err e \<Rightarrow> Inl (Ok False)
           | Panic \<Rightarrow> Inl Panic
           | UB \<Rightarrow> Inl UB
           | Ok u \<Rightarrow>
               (case and_then (tagged_new sha packet f32_one)
                       (\<lambda>tagged. and_then (verify_provenance sha tagged) (\<lambda>ok. Ok (tagged, ok))) of
                  Ok (tagged, ok) \<Rightarrow> if \<not> ok then Inl (Err ProvenanceMismatch) else Inr tagged
                | Err e \<Rightarrow> Inl (Err e)
                | Panic \<Rightarrow> Inl Panic
                | UB \<Rightarrow> Inl UB)))"

text \<open>The session of a tagged packet, cloned from its metadata before the tag is made.\<close>

definition tagged_session :: "tagged_primitive \<Rightarrow> string" where
  "tagged_session t = session_id (pkt_metadata (tag_packet t))"

lemma stream_tagged_is_tag:
  "stream_tagged sha gate reader = Inr t \<Longrightarrow>
     \<exists>p. packet_from_capnp reader = Ok p \<and> gate (payload p) = Ok () \<and> t = tag_of sha p"
  by (auto simp: stream_tagged_def tag_of_def split: outcome.splits if_splits)

section \<open>Calls under backpressure\<close>

text \<open>
  \<open>fl_waiting\<close> are the packets of the calls suspended in \<open>send\<close>, \<open>fl_pending\<close> the sessions
  of the calls that have sent and still have to count. \<open>fl_accepted\<close>, \<open>fl_delivered\<close>,
  \<open>fl_received\<close> are observations: every packet a call set out to send, the packets in the order
  the channel took them, those the embedder received.
\<close>

record 'ch flow =
  fl_sessions :: registry
  fl_chan :: 'ch
  fl_waiting :: "tagged_primitive list"
  fl_pending :: "string list"
  fl_accepted :: "tagged_primitive list"
  fl_delivered :: "tagged_primitive list"
  fl_received :: "tagged_primitive list"

datatype flow_event =
    Arrive packet_reader
  | PollSend nat
  | Count nat
  | Receive
  | DropReceiver
  | OpenSession string "nat option" string "adapter_variant option"
  | DrainSession string

fun flow_step ::
  "(u8 list \<Rightarrow> u8 list) \<Rightarrow> (primitive_payload \<Rightarrow> unit result) \<Rightarrow> 'ch bounded \<Rightarrow> flow_event \<Rightarrow> 'ch flow
     \<Rightarrow> bool result option \<times> 'ch flow" where
  "flow_step sha gate B (Arrive reader) f =
     (case stream_tagged sha gate reader of
        Inl r \<Rightarrow> (Some r, f)
      | Inr t \<Rightarrow> (None, f\<lparr>fl_waiting := fl_waiting f @ [t], fl_accepted := fl_accepted f @ [t]\<rparr>))"
| "flow_step sha gate B (PollSend k) f =
     (if k < length (fl_waiting f)
      then let t = fl_waiting f ! k in
        (case poll_send B t (fl_chan f) of
           (Sent, ch) \<Rightarrow> (None, f\<lparr>fl_chan := ch, fl_waiting := remove_nth k (fl_waiting f),
             fl_pending := fl_pending f @ [tagged_session t], fl_delivered := fl_delivered f @ [t]\<rparr>)
         | (Full, ch) \<Rightarrow> (None, f\<lparr>fl_chan := ch\<rparr>)
         | (Closed, ch) \<Rightarrow> (Some (Err sink_closed),
             f\<lparr>fl_chan := ch, fl_waiting := remove_nth k (fl_waiting f)\<rparr>))
      else (None, f))"
| "flow_step sha gate B (Count k) f =
     (if k < length (fl_pending f)
      then case stream_finish (fl_pending f ! k) (fl_sessions f) of
          (r, reg) \<Rightarrow> (Some r, f\<lparr>fl_sessions := reg, fl_pending := remove_nth k (fl_pending f)\<rparr>)
      else (None, f))"
| "flow_step sha gate B Receive f =
     (case recv_next B (fl_chan f) of
        (None, ch) \<Rightarrow> (None, f\<lparr>fl_chan := ch\<rparr>)
      | (Some t, ch) \<Rightarrow> (None, f\<lparr>fl_chan := ch, fl_received := fl_received f @ [t]\<rparr>))"
| "flow_step sha gate B DropReceiver f = (None, f\<lparr>fl_chan := drop_receiver B (fl_chan f)\<rparr>)"
| "flow_step sha gate B (OpenSession uuid clock peer adp) f =
     (None, f\<lparr>fl_sessions := snd (reg_open uuid clock peer adp (fl_sessions f))\<rparr>)"
| "flow_step sha gate B (DrainSession sid) f =
     (None, f\<lparr>fl_sessions := snd (reg_drain sid (fl_sessions f))\<rparr>)"

fun flow_run ::
  "(u8 list \<Rightarrow> u8 list) \<Rightarrow> (primitive_payload \<Rightarrow> unit result) \<Rightarrow> 'ch bounded \<Rightarrow> flow_event list
     \<Rightarrow> 'ch flow \<Rightarrow> 'ch flow" where
  "flow_run sha gate B [] f = f"
| "flow_run sha gate B (e # es) f = flow_run sha gate B es (snd (flow_step sha gate B e f))"

definition flow_start :: "'ch \<Rightarrow> 'ch flow" where
  "flow_start ch = \<lparr>fl_sessions = Map.empty, fl_chan = ch, fl_waiting = [], fl_pending = [],
     fl_accepted = [], fl_delivered = [], fl_received = []\<rparr>"

section \<open>The suspended handler and the atomic one\<close>

text \<open>A channel that never makes its sender wait, as \<open>Rpc\<close> sees it.\<close>

definition mpsc_of :: "'ch bounded \<Rightarrow> (usize \<Rightarrow> 'ch option) \<Rightarrow> 'ch mpsc" where
  "mpsc_of B new =
     \<lparr>chan_new = new,
      chan_send = (\<lambda>t ch. case poll_send B t ch of (Sent, ch') \<Rightarrow> Some ch' | _ \<Rightarrow> None),
      chan_drop_rx = drop_receiver B\<rparr>"

lemma stream_begin_tagged:
  "stream_begin sha gate M reader ch =
     (case stream_tagged sha gate reader of
        Inl r \<Rightarrow> (Inl r, ch)
      | Inr t \<Rightarrow> (case sink_send M t ch of
            (Ok w, ch') \<Rightarrow> (Inr (tagged_session t), ch')
          | (e, ch') \<Rightarrow> (Inl (and_then e (\<lambda>_. Ok True)), ch')))"
  by (simp add: stream_begin_def stream_tagged_def tagged_session_def split: outcome.splits prod.splits)

lemma remove_nth_0 [simp]: "remove_nth 0 (x # xs) = xs"
  by (simp add: remove_nth_def)

fun flow_answers ::
  "(u8 list \<Rightarrow> u8 list) \<Rightarrow> (primitive_payload \<Rightarrow> unit result) \<Rightarrow> 'ch bounded \<Rightarrow> flow_event list
     \<Rightarrow> 'ch flow \<Rightarrow> bool result list" where
  "flow_answers sha gate B [] f = []"
| "flow_answers sha gate B (e # es) f =
     (case flow_step sha gate B e f of
        (None, f') \<Rightarrow> flow_answers sha gate B es f'
      | (Some r, f') \<Rightarrow> r # flow_answers sha gate B es f')"

text \<open>
  Without contention the suspended handler is the atomic one: a call that arrives
  with no other call under way and finds a place in the channel, or no receiver, and is then
  resumed twice gives the same single answer and leaves the same sessions and channel as the
  handler run in one piece.
\<close>

lemma unobstructed_call_is_atomic:
  assumes "bounded_chan cap B queue live" and "live (fl_chan f) \<longrightarrow> length (queue (fl_chan f)) < cap"
    and "fl_waiting f = []" and "fl_pending f = []"
  shows "let es = [Arrive reader, PollSend 0, Count 0]; f' = flow_run sha gate B es f in
     stream_handle sha gate (mpsc_of B new) reader (fl_sessions f) (fl_chan f) =
       (hd (flow_answers sha gate B es f), fl_sessions f', fl_chan f') \<and>
     length (flow_answers sha gate B es f) = 1 \<and> fl_waiting f' = [] \<and> fl_pending f' = []"
proof (cases "stream_tagged sha gate reader")
  case (Inl r)
  then show ?thesis using assms(3,4)
    by (simp add: stream_handle_split stream_begin_tagged)
next
  case (Inr t)
  obtain p ch where p: "poll_send B t (fl_chan f) = (p, ch)" by fastforce
  have "p = Sent \<or> p = Closed \<and> ch = fl_chan f"
    using poll_not_sent [OF assms(1) p] assms(2) by (cases p) auto
  then show ?thesis using Inr p assms(3,4)
    by (auto simp: stream_handle_split stream_begin_tagged sink_send_def mpsc_of_def Let_def split: prod.splits)
qed

text \<open>The answer of a call that counts, and the sessions after it.\<close>

definition count_answer :: "registry \<Rightarrow> string \<Rightarrow> bool result" where
  "count_answer reg sid = (if sid \<in> dom reg then Ok True else Err (unknown_session sid))"

definition count_up :: "string \<Rightarrow> registry \<Rightarrow> registry" where
  "count_up sid reg =
     reg(sid := map_option (\<lambda>s. s\<lparr>ss_received_count := ss_received_count s + 1\<rparr>) (reg sid))"

lemma stream_finish_eq: "stream_finish sid reg = (count_answer reg sid, count_up sid reg)"
  by (auto simp: stream_finish_def reg_increment_def count_answer_def count_up_def fun_eq_iff split: option.split)

lemma dom_count_up [simp]: "dom (count_up sid reg) = dom reg"
  by (auto simp: count_up_def split: if_splits)

lemma count_answer_count_up [simp]: "count_answer (count_up sid reg) = count_answer reg"
  by (simp add: count_answer_def fun_eq_iff)

lemma remove_nth_last [simp]: "remove_nth (length xs) (xs @ [x]) = xs"
  by (simp add: remove_nth_def)




lemma mset_remove_nth: "k < length xs \<Longrightarrow> mset xs = add_mset (xs ! k) (mset (remove_nth k xs))"
  unfolding remove_nth_def
  by (subst id_take_nth_drop [of k xs]) (auto simp: min_def)

lemma length_remove_nth: "k < length xs \<Longrightarrow> length xs = Suc (length (remove_nth k xs))"
  by (simp add: remove_nth_def)

section \<open>Nothing is lost or duplicated\<close>

definition flow_inv :: "nat \<Rightarrow> ('ch \<Rightarrow> tagged_primitive list) \<Rightarrow> ('ch \<Rightarrow> bool) \<Rightarrow> 'ch flow \<Rightarrow> bool" where
  "flow_inv cap queue live f \<longleftrightarrow>
     length (queue (fl_chan f)) \<le> cap \<and>
     (if live (fl_chan f)
      then fl_delivered f = fl_received f @ queue (fl_chan f) \<and>
           mset (fl_accepted f) = mset (fl_waiting f) + mset (fl_delivered f)
      else queue (fl_chan f) = [] \<and> prefix (fl_received f) (fl_delivered f) \<and>
           mset (fl_waiting f) + mset (fl_delivered f) \<subseteq># mset (fl_accepted f))"

lemma flow_inv_poll:
  assumes "bounded_chan cap B queue live" and "flow_inv cap queue live f" and "k < length (fl_waiting f)"
  shows "flow_inv cap queue live (snd (flow_step sha gate B (PollSend k) f))"
proof (cases "poll_send B (fl_waiting f ! k) (fl_chan f)")
  case (Pair r ch)
  note w = mset_remove_nth [OF assms(3)]
  show ?thesis
  proof (cases r)
    case Sent
    then show ?thesis
      using assms Pair poll_sent [OF assms(1) Pair [unfolded Sent]] w
      by (simp add: flow_inv_def Let_def)
  next
    case Full
    then show ?thesis using assms Pair poll_not_sent [OF assms(1) Pair] by simp
  next
    case Closed
    then have "ch = fl_chan f" "\<not> live (fl_chan f)" using poll_not_sent [OF assms(1) Pair] by auto
    moreover have "mset (remove_nth k (fl_waiting f)) + mset (fl_delivered f) \<subseteq># mset (fl_accepted f)"
      using assms(2) \<open>\<not> live (fl_chan f)\<close> unfolding flow_inv_def w
      by (auto intro: subset_mset.order_trans [rotated])
    ultimately show ?thesis using assms Pair Closed by (simp add: flow_inv_def Let_def)
  qed
qed

lemma flow_inv_step:
  assumes "bounded_chan cap B queue live" and "flow_inv cap queue live f"
  shows "flow_inv cap queue live (snd (flow_step sha gate B e f))"
proof (cases e)
  case (PollSend k)
  then show ?thesis
    using assms flow_inv_poll [OF assms] by (cases "k < length (fl_waiting f)") auto
next
  case (Arrive reader)
  then show ?thesis using assms(2)
    by (auto simp: flow_inv_def subset_mset.add_increasing2 split: sum.splits)
next
  case Receive
  obtain r ch where "recv_next B (fl_chan f) = (r, ch)" by fastforce
  then show ?thesis using Receive assms(2) recv_took [OF assms(1), of "fl_chan f" r ch]
    by (cases r) (auto simp: flow_inv_def)
next
  case DropReceiver
  then show ?thesis using assms(2) bounded_chanD(4,5) [OF assms(1)]
    by (auto simp: flow_inv_def split: if_splits)
qed (use assms(2) in \<open>auto simp: flow_inv_def split: prod.splits\<close>)

lemma flow_inv_run:
  "bounded_chan cap B queue live \<Longrightarrow> flow_inv cap queue live f \<Longrightarrow>
     flow_inv cap queue live (flow_run sha gate B es f)"
  by (induction es arbitrary: f) (simp_all add: flow_inv_step del: flow_step.simps)

lemma flow_inv_start:
  "queue ch = [] \<Longrightarrow> live ch \<Longrightarrow> flow_inv cap queue live (flow_start ch)"
  by (simp add: flow_inv_def flow_start_def)

definition checked :: "(u8 list \<Rightarrow> u8 list) \<Rightarrow> (primitive_payload \<Rightarrow> unit result) \<Rightarrow> tagged_primitive \<Rightarrow> bool"
where
  "checked sha gate t \<longleftrightarrow> (\<exists>p. gate (payload p) = Ok () \<and> t = tag_of sha p)"

lemma flow_step_checked:
  assumes "\<forall>t \<in> set (fl_accepted f). checked sha gate t"
  shows "\<forall>t \<in> set (fl_accepted (snd (flow_step sha gate B e f))). checked sha gate t"
proof (cases e)
  case (Arrive r)
  show ?thesis
  proof (cases "stream_tagged sha gate r")
    case (Inr t)
    then have "checked sha gate t" using stream_tagged_is_tag [OF Inr] by (auto simp: checked_def)
    then show ?thesis using assms Arrive Inr by simp
  qed (use assms Arrive in simp)
qed (simp_all add: assms Let_def split: prod.split send_poll.split option.split)

lemma flow_run_checked:
  "\<forall>t \<in> set (fl_accepted f). checked sha gate t \<Longrightarrow>
     \<forall>t \<in> set (fl_accepted (flow_run sha gate B es f)). checked sha gate t"
proof (induction es arbitrary: f)
  case (Cons e es)
  then show ?case
    unfolding flow_run.simps by (intro Cons.IH flow_step_checked)
qed simp

text \<open>
  Property C12. The bounded channel loses and duplicates nothing: in any run of stream calls,
  session changes and receives on a new channel, as long as the receiver lives, the packets
  received followed by those queued are the packets delivered, in order; at most \<open>cap\<close> are
  queued; each packet a call set out to send is delivered or still waits; and each packet the
  embedder gets was accepted by the gate and carries its own tag.
\<close>

theorem channel_keeps_packets:
  assumes "bounded_chan cap B queue live" and "queue ch = []" and "live ch"
    and "live (fl_chan (flow_run sha gate B es (flow_start ch)))"
  shows "let f = flow_run sha gate B es (flow_start ch) in
     fl_received f @ queue (fl_chan f) = fl_delivered f \<and> length (queue (fl_chan f)) \<le> cap \<and>
     mset (fl_waiting f) + mset (fl_delivered f) = mset (fl_accepted f) \<and>
     (\<forall>t \<in> set (fl_received f @ queue (fl_chan f)). \<exists>p. gate (payload p) = Ok () \<and> t = tag_of sha p)"
proof -
  let ?f = "flow_run sha gate B es (flow_start ch)"
  have inv: "flow_inv cap queue live ?f"
    by (rule flow_inv_run [OF assms(1) flow_inv_start [where queue = queue and live = live, OF assms(2,3)]])
  then have d: "fl_received ?f @ queue (fl_chan ?f) = fl_delivered ?f" "length (queue (fl_chan ?f)) \<le> cap"
    "mset (fl_waiting ?f) + mset (fl_delivered ?f) = mset (fl_accepted ?f)"
    using assms(4) by (simp_all add: flow_inv_def)
  have "set (fl_delivered ?f) \<subseteq> set (fl_accepted ?f)"
    using arg_cong [OF d(3), of set_mset] by auto
  moreover have "\<forall>t \<in> set (fl_accepted ?f). checked sha gate t"
    by (rule flow_run_checked) (simp add: flow_start_def)
  ultimately have "\<forall>t \<in> set (fl_received ?f @ queue (fl_chan ?f)). checked sha gate t"
    unfolding d(1) by blast
  then show ?thesis using d unfolding Let_def checked_def by blast
qed

lemma sample_tagged: "stream_tagged id (validate plain_firewall) sample_reader = Inr (tag_of id sample_packet)"
  by (simp add: stream_tagged_def read_sample plain_accepts_sample tag_of_def)

text \<open>Two calls on a channel of one place, the first delivered and received, the second delivered.\<close>

definition two_calls :: "flow_event list" where
  "two_calls = [Arrive sample_reader, Arrive sample_reader, PollSend 0, Receive, PollSend 0]"

theorem channel_keeps_packets_witness:
  "fl_received (flow_run id (validate plain_firewall) (list_bounded 1) two_calls (flow_start ([], True))) =
     [tag_of id sample_packet] \<and>
   fl_delivered (flow_run id (validate plain_firewall) (list_bounded 1) two_calls (flow_start ([], True))) =
     [tag_of id sample_packet, tag_of id sample_packet]"
proof -
  let ?f = "flow_run id (validate plain_firewall) (list_bounded 1) two_calls (flow_start ([], True))"
  have c: "fl_chan ?f = ([tag_of id sample_packet], True)" "fl_received ?f = [tag_of id sample_packet]"
    by (simp_all add: two_calls_def flow_start_def list_bounded_def sample_tagged Let_def)
  then have "fl_received ?f @ fst (fl_chan ?f) = fl_delivered ?f"
    using channel_keeps_packets [OF list_bounded_ok [of 1], of "([], True)" id "validate plain_firewall" two_calls]
    by (simp add: Let_def)
  then show ?thesis using c by simp
qed

section \<open>A receiver that does not receive\<close>

text \<open>What a session counts and what it still has to count was delivered for it.\<close>

definition counted :: "registry \<Rightarrow> string \<Rightarrow> nat" where
  "counted reg sid = (case reg sid of None \<Rightarrow> 0 | Some s \<Rightarrow> unat (ss_received_count s))"

definition count_inv :: "'ch flow \<Rightarrow> bool" where
  "count_inv f \<longleftrightarrow>
     (\<forall>sid. counted (fl_sessions f) sid + count_list (fl_pending f) sid
        \<le> count_list (map tagged_session (fl_delivered f)) sid)"

lemma unat_Suc_le: "unat (n + 1 :: u64) \<le> Suc (unat n)"
  by (simp add: unat_word_ariths mod_less_eq_dividend flip: Suc_eq_plus1)

lemma counted_open: "counted (snd (reg_open uuid clock peer adp reg)) sid \<le> counted reg sid"
  by (simp add: counted_def reg_open_def)

lemma counted_drain: "counted (snd (reg_drain k reg)) sid \<le> counted reg sid"
  by (simp add: counted_def reg_drain_def split: option.split)

lemma counted_finish:
  "counted (snd (stream_finish k reg)) sid \<le> counted reg sid + (if k = sid then 1 else 0)"
  using unat_Suc_le by (auto simp: counted_def stream_finish_def reg_increment_def split: option.split)

lemma count_inv_mono:
  assumes "count_inv f" and "\<And>sid. counted reg sid \<le> counted (fl_sessions f) sid"
  shows "count_inv (f\<lparr>fl_sessions := reg\<rparr>)"
  using assms by (auto simp: count_inv_def intro: order_trans [OF add_right_mono])

lemma count_inv_count:
  assumes "count_inv f" and "k < length (fl_pending f)"
    and "stream_finish (fl_pending f ! k) (fl_sessions f) = (r, reg)"
  shows "count_inv (f\<lparr>fl_sessions := reg, fl_pending := remove_nth k (fl_pending f)\<rparr>)"
proof -
  have "counted reg sid + count_list (remove_nth k (fl_pending f)) sid
      \<le> count_list (map tagged_session (fl_delivered f)) sid" for sid
    using assms(1) [unfolded count_inv_def, rule_format, of sid] count_remove_nth [OF assms(2), of sid]
      counted_finish [of "fl_pending f ! k" "fl_sessions f" sid] assms(3) by simp
  then show ?thesis by (simp add: count_inv_def)
qed

lemma count_inv_step:
  assumes "count_inv f"
  shows "count_inv (snd (flow_step sha gate B e f))"
proof (cases e)
  case (PollSend k)
  then show ?thesis using assms
    by (simp add: count_inv_def Let_def split: prod.split send_poll.split)
next
  case (Count k)
  then show ?thesis using assms count_inv_count [OF assms] by (auto split: prod.split)
next
  case (OpenSession uuid clock peer adp)
  then show ?thesis using assms by (simp add: count_inv_mono counted_open)
next
  case (DrainSession sid)
  then show ?thesis using assms by (simp add: count_inv_mono counted_drain)
qed (use assms in \<open>simp_all add: count_inv_def split: prod.split sum.split option.split\<close>)

lemma count_inv_run: "count_inv f \<Longrightarrow> count_inv (flow_run sha gate B es f)"
  by (induction es arbitrary: f) (simp_all add: count_inv_step del: flow_step.simps)

lemma received_unchanged:
  assumes "Receive \<notin> set es" and "DropReceiver \<notin> set es" and "bounded_chan cap B queue live"
  shows "fl_received (flow_run sha gate B es f) = fl_received f \<and>
    live (fl_chan (flow_run sha gate B es f)) = live (fl_chan f)"
  using assms(1,2)
proof (induction es arbitrary: f)
  case (Cons e es)
  have "live ch' = live ch" if "poll_send B t ch = (r, ch')" for t ch r ch'
    using that poll_sent [OF assms(3), of t ch ch'] poll_not_sent [OF assms(3) that] by (cases r) auto
  then have "fl_received (snd (flow_step sha gate B e f)) = fl_received f \<and>
      live (fl_chan (snd (flow_step sha gate B e f))) = live (fl_chan f)"
    using Cons.prems by (cases e) (simp_all add: Let_def split: prod.split sum.split send_poll.split)
  then show ?case using Cons by (simp del: flow_step.simps)
qed simp

text \<open>
  Property C14. Backpressure reaches the caller: while the embedder keeps the receiver but takes
  nothing from it, whatever calls are made and however they interleave, at most \<open>cap\<close> packets
  are ever delivered, no session counts more than \<open>cap\<close>, and every further accepted call waits.
\<close>

theorem full_channel_stalls:
  assumes "bounded_chan cap B queue live" and "queue ch = []" and "live ch"
    and "Receive \<notin> set es" and "DropReceiver \<notin> set es"
    and "f = flow_run sha gate B es (flow_start ch)"
  shows "length (fl_delivered f) \<le> cap \<and>
     (\<forall>sid s. fl_sessions f sid = Some s \<longrightarrow> unat (ss_received_count s) \<le> cap) \<and>
     length (fl_accepted f) - cap \<le> length (fl_waiting f)"
proof -
  have inv: "flow_inv cap queue live f"
    unfolding assms(6) by (rule flow_inv_run [OF assms(1) flow_inv_start [where queue = queue and live = live, OF assms(2,3)]])
  have r: "fl_received f = []" "live (fl_chan f)"
    using received_unchanged [OF assms(4,5,1), of sha gate "flow_start ch"] assms(3)
    by (simp_all add: assms(6) flow_start_def)
  have d: "length (fl_delivered f) \<le> cap" "mset (fl_accepted f) = mset (fl_waiting f) + mset (fl_delivered f)"
    using inv r by (simp_all add: flow_inv_def)
  have "count_inv f" unfolding assms(6) by (rule count_inv_run) (simp add: count_inv_def counted_def flow_start_def)
  then have "counted (fl_sessions f) sid \<le> length (fl_delivered f)" for sid
    using count_le_length [of "map tagged_session (fl_delivered f)" sid]
    by (auto simp: count_inv_def dest!: spec [of _ sid])
  then have "counted (fl_sessions f) sid \<le> cap" for sid using d(1) by (meson le_trans)
  then have "fl_sessions f sid = Some s \<Longrightarrow> unat (ss_received_count s) \<le> cap" for sid s
    by (metis counted_def option.simps(5))
  moreover have "length (fl_accepted f) = length (fl_waiting f) + length (fl_delivered f)"
    using arg_cong [OF d(2), of size] by simp
  ultimately show ?thesis using d(1) by auto
qed

definition three_calls :: "flow_event list" where
  "three_calls = [OpenSession ''s'' None [] None, Arrive sample_reader, Arrive sample_reader, PollSend 0,
     PollSend 0, Count 0]"

theorem full_channel_stalls_witness:
  "length (fl_waiting (flow_run id (validate plain_firewall) (list_bounded 1) three_calls (flow_start ([], True)))) \<ge> 1"
proof -
  let ?f = "flow_run id (validate plain_firewall) (list_bounded 1) three_calls (flow_start ([], True))"
  have "length (fl_accepted ?f) = 2"
    by (simp add: three_calls_def flow_start_def list_bounded_def sample_tagged Let_def stream_finish_def
        handler_simps tagged_session_def tag_of_def session_of_sample)
  moreover have "length (fl_accepted ?f) - 1 \<le> length (fl_waiting ?f)"
    using full_channel_stalls [OF list_bounded_ok [of 1], of "([], True)" three_calls ?f id "validate plain_firewall"]
    by (simp add: three_calls_def del: flow_run.simps)
  ultimately show ?thesis by simp
qed

section \<open>Every call is answered once the receiver keeps receiving\<close>

text \<open>The steps that need no new request: a poll that is not refused, a count, a receive.\<close>

fun progress :: "'ch bounded \<Rightarrow> flow_event \<Rightarrow> 'ch flow \<Rightarrow> bool" where
  "progress B (PollSend k) f \<longleftrightarrow>
     k < length (fl_waiting f) \<and> fst (poll_send B (fl_waiting f ! k) (fl_chan f)) \<noteq> Full"
| "progress B (Count k) f \<longleftrightarrow> k < length (fl_pending f)"
| "progress B Receive f \<longleftrightarrow> fst (recv_next B (fl_chan f)) \<noteq> None"
| "progress B e f \<longleftrightarrow> False"

fun settling ::
  "(u8 list \<Rightarrow> u8 list) \<Rightarrow> (primitive_payload \<Rightarrow> unit result) \<Rightarrow> 'ch bounded \<Rightarrow> flow_event list
     \<Rightarrow> 'ch flow \<Rightarrow> bool" where
  "settling sha gate B [] f \<longleftrightarrow> True"
| "settling sha gate B (e # es) f \<longleftrightarrow>
     progress B e f \<and> settling sha gate B es (snd (flow_step sha gate B e f))"

definition flow_work :: "('ch \<Rightarrow> tagged_primitive list) \<Rightarrow> 'ch flow \<Rightarrow> nat" where
  "flow_work queue f = 3 * length (fl_waiting f) + length (fl_pending f) + length (queue (fl_chan f))"

text \<open>
  The answers the suspended calls still have to get: a call that has sent gets the answer of
  its count; so does a call that waits to send, or the closed channel without a receiver.
\<close>

definition owed_answers :: "('ch \<Rightarrow> bool) \<Rightarrow> 'ch flow \<Rightarrow> bool result list" where
  "owed_answers live f =
     map (\<lambda>t. if live (fl_chan f) then count_answer (fl_sessions f) (tagged_session t) else Err sink_closed)
       (fl_waiting f) @
     map (count_answer (fl_sessions f)) (fl_pending f)"

text \<open>The counts each open session has once the suspended calls have counted.\<close>

definition owed_counts :: "('ch \<Rightarrow> bool) \<Rightarrow> 'ch flow \<Rightarrow> string \<Rightarrow> u64 option" where
  "owed_counts live f sid =
     map_option (\<lambda>s. ss_received_count s + word_of_nat (count_list (fl_pending f) sid +
         (if live (fl_chan f) then count_list (map tagged_session (fl_waiting f)) sid else 0)))
       (fl_sessions f sid)"

fun answer_mset :: "bool result option \<Rightarrow> bool result multiset" where
  "answer_mset None = {#}"
| "answer_mset (Some r) = {#r#}"

lemma flow_answers_Cons:
  "mset (flow_answers sha gate B (e # es) f) = answer_mset (fst (flow_step sha gate B e f)) +
     mset (flow_answers sha gate B es (snd (flow_step sha gate B e f)))"
  by (auto split: prod.split option.split simp del: flow_step.simps)

lemma progress_step:
  assumes "bounded_chan cap B queue live" and "progress B e f" and "flow_step sha gate B e f = (a, f')"
  shows "flow_work queue f' < flow_work queue f"
    and "answer_mset a + mset (owed_answers live f') = mset (owed_answers live f)"
    and "owed_counts live f' = owed_counts live f"
proof -
  have "flow_work queue f' < flow_work queue f \<and>
    answer_mset a + mset (owed_answers live f') = mset (owed_answers live f) \<and>
    owed_counts live f' = owed_counts live f"
  proof (cases e)
    case (PollSend k)
    let ?t = "fl_waiting f ! k"
    obtain r ch where r: "poll_send B ?t (fl_chan f) = (r, ch)" by fastforce
    have k: "k < length (fl_waiting f)" "r \<noteq> Full" using assms(2) r PollSend by auto
    note rm = mset_remove_nth [OF k(1)] length_remove_nth [OF k(1)]
    have c: "count_list (map tagged_session (fl_waiting f)) sid =
        count_list (map tagged_session (remove_nth k (fl_waiting f))) sid + (if tagged_session ?t = sid then 1 else 0)"
      for sid
      using count_remove_nth [of k "map tagged_session (fl_waiting f)" sid] k(1)
      by (simp add: remove_nth_def take_map drop_map)
    show ?thesis
    proof (cases r)
      case Sent
      then have "live (fl_chan f)" "live ch" "queue ch = queue (fl_chan f) @ [?t]"
        using poll_sent [OF assms(1)] r by auto
      then show ?thesis using assms(3) PollSend k rm r Sent c
        by (auto simp: Let_def flow_work_def owed_answers_def owed_counts_def fun_eq_iff ac_simps)
    next
      case Closed
      then have "\<not> live (fl_chan f)" "ch = fl_chan f" using poll_not_sent [OF assms(1) r] by auto
      then show ?thesis using assms(3) PollSend k rm r Closed
        by (auto simp: Let_def flow_work_def owed_answers_def owed_counts_def fun_eq_iff)
    qed (use k in simp)
  next
    case (Count k)
    then have k: "k < length (fl_pending f)" using assms(2) by simp
    have a: "a = Some (count_answer (fl_sessions f) (fl_pending f ! k))"
      "f' = f\<lparr>fl_sessions := count_up (fl_pending f ! k) (fl_sessions f), fl_pending := remove_nth k (fl_pending f)\<rparr>"
      using assms(3) Count k by (simp_all add: stream_finish_eq)
    have "owed_counts live f' sid = owed_counts live f sid" for sid
      using count_remove_nth [OF k, of sid] by (cases "fl_sessions f sid") (auto simp: a owed_counts_def count_up_def)
    then show ?thesis using mset_remove_nth [OF k] length_remove_nth [OF k]
      by (cases "live (fl_chan f)") (simp_all add: a flow_work_def owed_answers_def fun_eq_iff)
  next
    case Receive
    obtain r ch where r: "recv_next B (fl_chan f) = (r, ch)" by fastforce
    then show ?thesis using assms(2,3) Receive recv_took [OF assms(1) r]
      by (auto simp: flow_work_def owed_answers_def owed_counts_def fun_eq_iff)
  qed (use assms(2) in simp_all)
  then show "flow_work queue f' < flow_work queue f"
    "answer_mset a + mset (owed_answers live f') = mset (owed_answers live f)"
    "owed_counts live f' = owed_counts live f" by blast+
qed

lemma settling_run:
  assumes "bounded_chan cap B queue live"
  shows "settling sha gate B es f \<Longrightarrow>
    length es + flow_work queue (flow_run sha gate B es f) \<le> flow_work queue f \<and>
    mset (flow_answers sha gate B es f) + mset (owed_answers live (flow_run sha gate B es f)) =
      mset (owed_answers live f) \<and>
    owed_counts live (flow_run sha gate B es f) = owed_counts live f"
proof (induction es arbitrary: f)
  case (Cons e es)
  obtain a f1 where e: "flow_step sha gate B e f = (a, f1)" by fastforce
  have "progress B e f" "settling sha gate B es f1" using Cons.prems e by (simp_all del: flow_step.simps)
  note step = progress_step [OF assms this(1) e] and ih = Cons.IH [OF this(2)]
  have "flow_run sha gate B (e # es) f = flow_run sha gate B es f1" using e by (simp del: flow_step.simps)
  moreover have "mset (flow_answers sha gate B (e # es) f) = answer_mset a + mset (flow_answers sha gate B es f1)"
    using e by (simp only: flow_answers_Cons fst_conv snd_conv)
  ultimately show ?case using step ih by (simp add: add.assoc)
qed simp

lemma settled_done:
  assumes "\<nexists>e. progress B e f" and "bounded_chan cap B queue live" and "0 < cap"
  shows "fl_waiting f = [] \<and> fl_pending f = [] \<and> queue (fl_chan f) = []"
proof -
  have q: "queue (fl_chan f) = []"
  proof (rule ccontr)
    assume "queue (fl_chan f) \<noteq> []"
    then have "fst (recv_next B (fl_chan f)) \<noteq> None"
      using assms(2) unfolding bounded_chan_def by (metis list.exhaust option.distinct(1))
    then have "progress B Receive f" by simp
    then show False using assms(1) by blast
  qed
  have "fst (poll_send B t (fl_chan f)) \<noteq> Full" for t
    using q assms(3) poll_not_sent [OF assms(2), of t "fl_chan f"] by (cases "poll_send B t (fl_chan f)") auto
  then have "fl_waiting f \<noteq> [] \<Longrightarrow> progress B (PollSend 0) f" by simp
  moreover have "fl_pending f \<noteq> [] \<Longrightarrow> progress B (Count 0) f" by simp
  ultimately show ?thesis using q assms(1) by blast
qed

text \<open>
  Property C13. Every accepted call is answered: let the calls under way run on, in whatever
  order, while the embedder goes on receiving, no new call arrives and no session is opened or
  closed. At most \<open>3 w + p + q\<close> steps are possible, for \<open>w\<close> calls waiting to send, \<open>p\<close>
  waiting to count and \<open>q\<close> packets queued. The answers given so far with those still owed are
  always the answers owed at the start: \<open>true\<close> for a call of an open session, the unknown
  session for any other, the closed channel for a call that waits to send without a receiver.
  When no further step is possible no call is left and the channel is empty: exactly the owed
  answers were given, and each open session has counted one for each of its calls that had
  sent or found a receiver.
\<close>

theorem stream_calls_settle:
  assumes "bounded_chan cap B queue live" and "0 < cap" and "settling sha gate B es f"
    and "f' = flow_run sha gate B es f"
  shows "length es \<le> 3 * length (fl_waiting f) + length (fl_pending f) + length (queue (fl_chan f)) \<and>
     mset (flow_answers sha gate B es f) + mset (owed_answers live f') = mset (owed_answers live f) \<and>
     ((\<nexists>e. progress B e f') \<longrightarrow>
        fl_waiting f' = [] \<and> fl_pending f' = [] \<and> queue (fl_chan f') = [] \<and>
        mset (flow_answers sha gate B es f) = mset (owed_answers live f) \<and>
        (\<forall>sid. map_option ss_received_count (fl_sessions f' sid) = owed_counts live f sid))"
proof -
  have r: "length es + flow_work queue f' \<le> flow_work queue f"
    "mset (flow_answers sha gate B es f) + mset (owed_answers live f') = mset (owed_answers live f)"
    "owed_counts live f' = owed_counts live f"
    using settling_run [OF assms(1,3)] unfolding assms(4) by blast+
  have "fl_waiting f' = [] \<and> fl_pending f' = [] \<and> queue (fl_chan f') = []" if "\<nexists>e. progress B e f'"
    using settled_done [OF that assms(1,2)] .
  moreover have "map_option ss_received_count (fl_sessions f' sid) = owed_counts live f sid"
    if "fl_waiting f' = []" "fl_pending f' = []" for sid
    unfolding r(3) [symmetric] by (simp add: owed_counts_def that)
  ultimately show ?thesis using r(1,2) by (auto simp: flow_work_def owed_answers_def)
qed

text \<open>One call waiting to send for an open session, another one for a session that is not open.\<close>

definition two_waiting :: "(tagged_primitive list \<times> bool) flow" where
  "two_waiting = (flow_start ([], True))
     \<lparr>fl_sessions := snd (reg_open ''s'' None [] None Map.empty),
      fl_waiting := [tag_of id sample_packet], fl_pending := [''t'']\<rparr>"

theorem stream_calls_settle_witness:
  "mset (flow_answers id (validate plain_firewall) (list_bounded 1) [PollSend 0, Receive, Count 0, Count 0] two_waiting) =
     {#Ok True, Err (unknown_session ''t'')#} \<and>
   map_option ss_received_count (fl_sessions (flow_run id (validate plain_firewall) (list_bounded 1)
     [PollSend 0, Receive, Count 0, Count 0] two_waiting) ''s'') = Some 1"
proof -
  let ?es = "[PollSend 0, Receive, Count 0, Count 0]"
  let ?f = "flow_run id (validate plain_firewall) (list_bounded 1) ?es two_waiting"
  have sid: "tagged_session (tag_of id sample_packet) = ''s''"
    by (simp add: tagged_session_def tag_of_def session_of_sample)
  have run: "settling id (validate plain_firewall) (list_bounded 1) ?es two_waiting"
    "fl_waiting ?f = []" "fl_pending ?f = []" "fl_chan ?f = ([], True)"
    by (simp_all add: two_waiting_def flow_start_def list_bounded_def stream_finish_eq sid Let_def)
  have "\<not> progress (list_bounded 1) e ?f" for e
    using run(2-4) by (cases e) (simp_all add: list_bounded_def del: flow_run.simps)
  moreover have "mset (owed_answers snd two_waiting) = {#Ok True, Err (unknown_session ''t'')#}"
    "owed_counts snd two_waiting ''s'' = Some 1"
    by (simp_all add: two_waiting_def flow_start_def owed_answers_def owed_counts_def count_answer_def sid
        reg_open_def)
  ultimately show ?thesis
    using stream_calls_settle [OF list_bounded_ok [of 1] _ run(1) refl] by (simp del: flow_run.simps flow_answers.simps)
qed

end
