(* ===== verification/Demo.thy ===== *)
theory Demo
  imports System
begin

text \<open>
  Runs of the demo program of \<open>bin/aptp-client.rs\<close>: how many calls it makes, with the remote
  object wrapped in one that counts them, and what it reports when it succeeds.
\<close>

section \<open>A counting remote object\<close>

definition counting :: "'n remote \<Rightarrow> ('n \<times> nat) remote" where
  "counting R =
     \<lparr>call_handshake = (\<lambda>c (n, k). let (a, n') = call_handshake R c n in (a, n', Suc k)),
      call_stream = (\<lambda>m (n, k). let (a, n') = call_stream R m n in (a, n', Suc k)),
      call_finalize = (\<lambda>sid (n, k). let (a, n') = call_finalize R sid n in (a, n', Suc k))\<rparr>"

lemma counting_handshake:
  "client_handshake D (counting R) c cl (n, k) =
     (case client_handshake D R c cl n of (r, cl', n') \<Rightarrow>
        (r, cl', n', k + (if is_ok (card_request c) then 1 else 0)))"
  by (simp add: client_handshake_def counting_def split: outcome.split prod.split)

lemma counting_send:
  "send_primitive (counting R) p cl (n, k) =
     (case send_primitive R p cl n of (r, cl', n') \<Rightarrow>
        (r, cl', n', k + (if cl_session_id cl \<noteq> None \<and> packet_fits p then 1 else 0)))"
  by (cases "packet_fits p")
    (simp_all add: send_primitive_def request_packet_eq build_packet_eq counting_def split: option.split prod.split)

lemma counting_finalize:
  "client_finalize (counting R) cl (n, k) =
     (case client_finalize R cl n of (r, n') \<Rightarrow> (r, n', k + (if cl_session_id cl = None then 0 else 1)))"
  by (simp add: client_finalize_def counting_def split: option.split prod.split)

text \<open>The loop makes a call for each of its packets at most, one for each when it ends well.\<close>

lemma counting_loop:
  "\<exists>j \<le> length is. (is_ok (fst (demo_loop R clock cfg sid is cl n)) \<longrightarrow> cl_session_id cl \<noteq> None \<longrightarrow> j = length is) \<and>
     demo_loop (counting R) clock cfg sid is cl (n, k) =
       (case demo_loop R clock cfg sid is cl n of (r, cl', n') \<Rightarrow> (r, cl', n', k + j)) \<and>
     cl_session_id (fst (snd (demo_loop R clock cfg sid is cl n))) = cl_session_id cl"
proof (induction "is" arbitrary: cl n k)
  case (Cons i "is")
  show ?case
  proof (cases "demo_packet (clock i) cfg sid i")
    case (Ok p)
    obtain r cl' n' where s: "send_primitive R p cl n = (r, cl', n')" by (metis prod_cases3)
    then have sess: "cl_session_id cl' = cl_session_id cl"
      using send_primitive_session [of R p cl n] by simp
    have fits: "r = Ok True \<Longrightarrow> cl_session_id cl \<noteq> None \<Longrightarrow> packet_fits p"
      using s send_primitive_too_long [of cl _ p R n] by fastforce
    define d where "d = (if cl_session_id cl \<noteq> None \<and> packet_fits p then 1 else 0 :: nat)"
    have d: "d \<le> 1" by (simp add: d_def)
    have c: "send_primitive (counting R) p cl (n, k) = (r, cl', n', k + d)"
      using s by (simp add: counting_send d_def)
    show ?thesis
    proof (cases "r = Ok True")
      case True
      obtain j where j: "j \<le> length is"
        "is_ok (fst (demo_loop R clock cfg sid is cl' n')) \<Longrightarrow> cl_session_id cl' \<noteq> None \<Longrightarrow> j = length is"
        "demo_loop (counting R) clock cfg sid is cl' (n', k + d) =
           (case demo_loop R clock cfg sid is cl' n' of (r, cl', n') \<Rightarrow> (r, cl', n', k + d + j))"
        "cl_session_id (fst (snd (demo_loop R clock cfg sid is cl' n'))) = cl_session_id cl'"
        using Cons.IH [of cl' n' "k + d"] by blast
      have "cl_session_id cl \<noteq> None \<Longrightarrow> d = 1" using fits True by (simp add: d_def)
      then show ?thesis
        using True j d Ok s c sess by (intro exI [of _ "d + j"]) (auto split: prod.split)
    next
      case False
      then show ?thesis
        using Ok s c sess d by (intro exI [of _ d]) (auto split: prod.split outcome.split bool.split)
    qed
  qed (auto intro!: exI [of _ 0])
qed simp

text \<open>
  Property C20. The demo program terminates: whatever the remote object answers, a run makes at
  most 102 calls, exactly 102 when it succeeds (a handshake, 100 packets, a finalize), and
  counting its calls changes neither its result nor the state of the network.
\<close>

theorem demo_terminates:
  "\<exists>j \<le> 102. demo_run D (counting R) uuid clock cfg cl (n, 0) =
       (case demo_run D R uuid clock cfg cl n of (r, n') \<Rightarrow> (r, n', j)) \<and>
     (is_ok (fst (demo_run D R uuid clock cfg cl n)) \<longrightarrow> j = 102)"
proof -
  let ?card = "new_from_config uuid (cfg_agent cfg)"
  obtain r cl1 n1 where h: "client_handshake D R ?card cl n = (r, cl1, n1)" by (metis prod_cases3)
  define d where "d = (if is_ok (card_request ?card) then 1 else 0 :: nat)"
  have c: "client_handshake D (counting R) ?card cl (n, 0) = (r, cl1, n1, d)"
    using h by (simp add: counting_handshake d_def)
  have d: "d \<le> 1" "is_ok r \<Longrightarrow> d = 1"
    using h by (auto simp: d_def client_handshake_def split: outcome.splits)
  show ?thesis
  proof (cases r)
    case (Ok sid)
    have s: "cl_session_id cl1 = Some sid"
      using h Ok by (auto simp: client_handshake_def split: outcome.splits prod.splits if_splits)
    define loop where "loop = demo_loop R clock cfg sid [0 ..< 100] cl1 n1"
    obtain j where j: "j \<le> 100" "is_ok (fst loop) \<Longrightarrow> j = 100"
      "demo_loop (counting R) clock cfg sid [0 ..< 100] cl1 (n1, d) =
         (case loop of (r, cl', n') \<Rightarrow> (r, cl', n', d + j))"
      "cl_session_id (fst (snd loop)) = Some sid"
      using counting_loop [of "[0 ..< 100]" R clock cfg sid cl1 n1 d] s unfolding loop_def by auto
    obtain rl cl2 n2 where l: "loop = (rl, cl2, n2)" by (metis prod_cases3)
    have e: "demo_run D R uuid clock cfg cl n = (case loop of
             (Ok u, cl'', n'') \<Rightarrow> client_finalize R cl'' n''
           | (Err e, cl'', n'') \<Rightarrow> (Err e, n'') | (Panic, cl'', n'') \<Rightarrow> (Panic, n'') | (UB, cl'', n'') \<Rightarrow> (UB, n''))"
      using h Ok by (simp add: demo_run_def loop_def)
    show ?thesis
    proof (cases rl)
      case (Ok u)
      then show ?thesis
        using d j l c h \<open>r = Ok sid\<close> unfolding e
        by (intro exI [of _ 102]) (simp add: demo_run_def counting_finalize split: prod.split)
    qed (insert d j l c h Ok, unfold e, auto simp: demo_run_def intro!: exI [of _ "Suc j"])
  qed (use d h c in \<open>auto simp: demo_run_def intro!: exI [of _ d]\<close>)
qed

section \<open>The total of a successful run\<close>

context remote_peer
begin

lemma demo_packet_session:
  "demo_packet t cfg sid i = Ok p \<Longrightarrow> session_id (pkt_metadata p) = sid"
  by (auto simp: demo_packet_def metadata_new_now_def Let_def)

lemma loop_counts:
  assumes "demo_loop R clock cfg sid is cl n = (Ok u, cl', n')" and "count n sid = Some k"
  shows "count n' sid = Some (k + word_of_nat (length is)) \<and> cl_session_id cl' = cl_session_id cl"
  using assms
proof (induction "is" arbitrary: cl n k)
  case (Cons i "is")
  obtain p where p: "demo_packet (clock i) cfg sid i = Ok p"
    using Cons.prems(1) by (cases "demo_packet (clock i) cfg sid i") auto
  obtain r cl1 n1 where s: "send_primitive R p cl n = (r, cl1, n1)" by (metis prod_cases3)
  have r: "r = Ok True" using Cons.prems(1) p s by (auto split: outcome.splits bool.splits)
  then have "count n1 sid = Some (k + 1)"
    using send_counts [OF s Cons.prems(2)] demo_packet_session [OF p] by (simp add: acked_in_def)
  then show ?case
    using Cons.IH [of cl1 n1 "k + 1"] Cons.prems(1) p s r send_primitive_session [of R p cl n]
    by (simp add: ac_simps)
qed simp

lemma run_total:
  assumes "demo_run D R uuid clock cfg cl n = (Ok n100, n')"
  shows "n100 = 100"
proof -
  let ?card = "new_from_config uuid (cfg_agent cfg)"
  obtain sid cl1 n1 where h: "client_handshake D R ?card cl n = (Ok sid, cl1, n1)"
    using assms by (auto simp: demo_run_def split: outcome.splits prod.splits)
  define js where "js = [0 ..< 100 :: nat]"
  obtain u cl2 n2 where l: "demo_loop R clock cfg sid js cl1 n1 = (Ok u, cl2, n2)"
    and f: "client_finalize R cl2 n2 = (Ok n100, n')"
    using assms h unfolding js_def by (auto simp: demo_run_def split: outcome.splits prod.splits)
  have s: "count n1 sid = Some 0" "cl_session_id cl1 = Some sid" "utf8 sid"
    using handshake_session [OF h] by auto
  then have "count n2 sid = Some (word_of_nat (length js))" "cl_session_id cl2 = Some sid"
    using loop_counts [OF l s(1)] by auto
  then show ?thesis
    using f finalize_returns [OF _ s(3), of n2]
    by (auto simp: client_finalize_def js_def split: prod.splits)
qed

end

text \<open>
  Property C21. A successful demo run reports 100: against any server of this crate, whatever
  its configuration, sessions and channel, if the program comes to its end the total that
  \<open>finalize\<close> returned is the number of packets it sent.
\<close>

theorem demo_total:
  assumes "demo_run D (linked D sha M fresh clock) uuid now cfg cl ln = (Ok n100, ln')"
  shows "n100 = 100"
  using assms by (rule link.run_total)

section \<open>A run that succeeds\<close>

text \<open>An agent without hidden dimension sends empty vectors, which every firewall accepts.\<close>

definition tiny_config :: aptp_config where
  "tiny_config = sample_config\<lparr>cfg_agent := (cfg_agent sample_config)\<lparr>cfg_hidden_size := 0\<rparr>\<rparr>"

definition demo_link :: "(tagged_primitive list \<times> bool) link" where
  "demo_link = \<lparr>ln_server = sample_server\<lparr>srv_sink := ([], True)\<rparr>, ln_counter = 0, ln_handshakes = 0\<rparr>"

definition demo_remote :: "(tagged_primitive list \<times> bool) link remote" where
  "demo_remote = linked no_env id list_mpsc (\<lambda>_. ''s'') (\<lambda>_. None)"

definition tiny_packet :: "nat \<Rightarrow> primitive_packet" where
  "tiny_packet i =
     \<lparr>version = APTP_VERSION, sender_id = ''a'', model_fingerprint = replicate 32 0, layer_index = 16,
      payload = HiddenState [], pkt_shape = \<lparr>dims = [1, 1, 0]\<rparr>,
      pkt_metadata = metadata_new_now None ''s'' (word_of_nat i)\<rparr>"

lemma demo_tiny: "demo_packet None tiny_config ''s'' i = Ok (tiny_packet i)"
  by (simp add: demo_packet_def demo_vector_def tiny_packet_def tiny_config_def sample_config_def
      alloc_f32_def usize_of_u32_def u32_of_usize_def)

lemma tiny_packet_ok:
  "packet_fits (tiny_packet i)" "packet_utf8 (tiny_packet i)"
  "validate plain_firewall (payload (tiny_packet i)) = Ok ()"
  "session_id (pkt_metadata (tiny_packet i)) = ''s''"
  by (simp_all add: tiny_packet_def packet_fits_def list_limit_def packet_utf8_def metadata_new_now_def ascii_utf8
      check_vector_def plain_firewall_def float_eval)

definition demo_ready :: "aptp_client \<Rightarrow> (tagged_primitive list \<times> bool) link \<Rightarrow> bool" where
  "demo_ready cl ln \<longleftrightarrow>
     cl_session_id cl = Some ''s'' \<and> srv_firewall (ln_server ln) = plain_firewall \<and>
     srv_sessions (ln_server ln) ''s'' \<noteq> None \<and> snd (srv_sink (ln_server ln))"

lemma demo_ready_send:
  assumes "demo_ready cl ln"
  shows "\<exists>cl' ln'. send_primitive demo_remote (tiny_packet i) cl ln = (Ok True, cl', ln') \<and> demo_ready cl' ln'"
proof -
  have c: "cl_session_id cl = Some ''s''" using assms by (simp add: demo_ready_def)
  obtain s where s: "srv_sessions (ln_server ln) ''s'' = Some s" using assms by (auto simp: demo_ready_def)
  obtain sent where sink: "srv_sink (ln_server ln) = (sent, True)"
    using assms by (cases "srv_sink (ln_server ln)") (auto simp: demo_ready_def)
  have "srv_firewall (ln_server ln) = plain_firewall" using assms by (simp add: demo_ready_def)
  then show ?thesis using s sink c
    by (simp add: send_primitive_sent [OF c tiny_packet_ok(1)] demo_remote_def link_stream rpc_stream_read
        stream_handle_valid [OF reader_returns_packet [OF tiny_packet_ok(2)]] tiny_packet_ok handler_simps
        list_mpsc_def demo_ready_def)
qed

lemma demo_ready_loop:
  "demo_ready cl ln \<Longrightarrow>
     \<exists>cl' ln'. demo_loop demo_remote (\<lambda>_. None) tiny_config ''s'' is cl ln = (Ok (), cl', ln') \<and> demo_ready cl' ln'"
proof (induction "is" arbitrary: cl ln)
  case (Cons i "is")
  obtain cl' ln' where "send_primitive demo_remote (tiny_packet i) cl ln = (Ok True, cl', ln')" "demo_ready cl' ln'"
    using demo_ready_send [OF Cons.prems, of i] by blast
  then show ?case using Cons.IH [of cl' ln'] by (simp add: demo_tiny)
qed simp

lemma demo_ready_start:
  "\<exists>cl ln. client_handshake no_env demo_remote (new_from_config [] (cfg_agent tiny_config)) no_session demo_link =
     (Ok ''s'', cl, ln) \<and> demo_ready cl ln"
proof -
  let ?c = "new_from_config [] (cfg_agent tiny_config)"
  have l: "length (capabilities ?c) < 2 ^ 29" by (simp add: new_from_config_def)
  have u: "card_utf8 ?c" by (simp add: card_utf8_def new_from_config_def tiny_config_def sample_config_def ascii_utf8)
  have v: "aptp_version ?c = APTP_VERSION" "utf8 ''s''"
    by (simp_all add: new_from_config_def tiny_config_def sample_config_def APTP_VERSION_def ascii_utf8)
  show ?thesis
    by (simp add: client_handshake_def card_request_fits [OF l] demo_remote_def linked_def rpc_handshake_def
        card_from_reader [OF u] card_from_reader [OF u, unfolded v(1)] v handshake_handle_def read_handshake_def
        handshake_reader_of_def handler_simps demo_link_def no_session_def demo_ready_def sample_server_def Let_def)
qed

lemma demo_succeeds:
  "is_ok (fst (demo_run no_env demo_remote [] (\<lambda>_. None) tiny_config no_session demo_link))"
proof -
  obtain cl1 ln1 where h: "client_handshake no_env demo_remote (new_from_config [] (cfg_agent tiny_config))
      no_session demo_link = (Ok ''s'', cl1, ln1)" "demo_ready cl1 ln1"
    using demo_ready_start by blast
  define js where "js = [0 ..< 100 :: nat]"
  obtain cl2 ln2 where l: "demo_loop demo_remote (\<lambda>_. None) tiny_config ''s'' js cl1 ln1 = (Ok (), cl2, ln2)"
    and r: "demo_ready cl2 ln2"
    using demo_ready_loop [OF h(2)] by blast
  obtain k where k: "link_count ln2 ''s'' = Some k"
    using r by (auto simp: demo_ready_def link_count_def reg_count_def)
  have "fst (call_finalize demo_remote ''s'' ln2) = Inr (Inr k)"
    unfolding demo_remote_def by (rule link.finalize_returns [OF k]) (simp add: ascii_utf8)
  then have "is_ok (fst (client_finalize demo_remote cl2 ln2))"
    using r by (auto simp: client_finalize_def demo_ready_def split: prod.split)
  then show ?thesis using h(1) l by (simp add: demo_run_def js_def)
qed

theorem demo_terminates_witness:
  "snd (snd (demo_run no_env (counting demo_remote) [] (\<lambda>_. None) tiny_config no_session (demo_link, 0))) = 102"
  using demo_terminates [of no_env demo_remote "[]" "\<lambda>_. None" tiny_config no_session demo_link] demo_succeeds
  by (auto split: prod.splits)

theorem demo_total_witness:
  "\<exists>ln'. demo_run no_env (linked no_env id list_mpsc (\<lambda>_. ''s'') (\<lambda>_. None)) [] (\<lambda>_. None) tiny_config
     no_session demo_link = (Ok 100, ln')"
proof -
  obtain n ln' where r: "demo_run no_env (linked no_env id list_mpsc (\<lambda>_. ''s'') (\<lambda>_. None)) [] (\<lambda>_. None)
      tiny_config no_session demo_link = (Ok n, ln')"
    using demo_succeeds unfolding demo_remote_def
    by (cases "demo_run no_env (linked no_env id list_mpsc (\<lambda>_. ''s'') (\<lambda>_. None)) [] (\<lambda>_. None)
      tiny_config no_session demo_link") (auto simp: is_ok_iff)
  then show ?thesis using demo_total [OF r] by simp
qed

end
