(* ===== verification/Seeds.thy ===== *)
theory Seeds
  imports Server
begin

text \<open>
  The counter of \<open>rpc/negotiate.rs\<close> over the life of a server process: the static
  \<open>KAIMING_COUNTER\<close> is mixed into the seed so that negotiations which read the same clock draw
  different weights. Here: what the counter counts, and when two negotiations share a seed.
\<close>

section \<open>What the counter counts\<close>

text \<open>The calls that draw weights: readable families, non-zero and different dimensions.\<close>

fun draws_weights :: "request \<Rightarrow> bool" where
  "draws_weights (NegotiateReq clock (Inr p)) \<longleftrightarrow>
     \<not> isl (get_source_family p) \<and> \<not> isl (get_target_family p) \<and>
     get_source_dim p \<noteq> 0 \<and> get_target_dim p \<noteq> 0 \<and> get_source_dim p \<noteq> get_target_dim p"
| "draws_weights q \<longleftrightarrow> False"

fun event_draws :: "event \<Rightarrow> bool" where
  "event_draws (Served i q r) \<longleftrightarrow> draws_weights q"
| "event_draws e \<longleftrightarrow> False"

definition draws :: "event list \<Rightarrow> nat" where
  "draws es = length (filter event_draws es)"

lemma negotiate_counter:
  "snd (rpc_negotiate_alignment D clock params c) =
     c + (if draws_weights (NegotiateReq clock params) then 1 else 0)"
proof (cases params)
  case (Inr p)
  show ?thesis
    by (cases "get_source_family p"; cases "get_target_family p")
      (auto simp: Inr rpc_negotiate_alignment_def negotiate_handle_def kaiming_uniform_weights_def Let_def
        split: prod.split)
qed (simp add: rpc_negotiate_alignment_def)

lemma serve_counter:
  "snd (snd (serve D sha M q srv c)) = c + (if draws_weights q then 1 else 0)"
proof (cases q)
  case (NegotiateReq clock params)
  then show ?thesis using negotiate_counter [of D clock params c]
    by (auto simp del: draws_weights.simps split: prod.split)
qed (simp_all split: prod.split)

lemma counter_counts_draws:
  "proc_reach D sha M read json cfg es p \<Longrightarrow> pr_counter p = word_of_nat (draws es)"
proof (induction rule: proc_reach.induct)
  case start
  then show ?case by (simp add: proc_start_def draws_def)
next
  case (step es p e p')
  have "pr_counter p' = pr_counter p + (if event_draws e then 1 else 0)"
    using step.hyps(2)
  proof cases
    case (call i srv q srv' counter')
    then show ?thesis using serve_counter [of D sha M q srv "pr_counter p"] by simp
  next
    case (crash i srv q srv' counter')
    then show ?thesis using serve_counter [of D sha M q srv "pr_counter p"] by simp
  qed simp_all
  then show ?case using step.IH by (simp add: draws_def)
qed

section \<open>When seeds are shared\<close>

text \<open>The state before the first weight, and the state behind each weight.\<close>

definition weight_seed :: "nat option \<Rightarrow> u64 \<Rightarrow> u64" where
  "weight_seed clock counter = (nanos_u64 clock XOR counter) XOR 0xdeadbeefcafebabe"

lemma xor_left_cancel: "a XOR x = a XOR y \<longleftrightarrow> x = y" for a x y :: u64
  by (auto simp: bit_eq_iff bit_xor_iff)

lemma xor_right_cancel: "x XOR a = y XOR a \<longleftrightarrow> x = y" for a x y :: u64
  by (auto simp: bit_eq_iff bit_xor_iff)

lemma weight_seed_inj: "weight_seed clock c = weight_seed clock c' \<longleftrightarrow> c = c'"
  by (simp only: weight_seed_def xor_left_cancel xor_right_cancel)

lemma xorshift_power_inj: "(xorshift ^^ n) x = (xorshift ^^ n) y \<longleftrightarrow> x = y"
  by (induction n) (simp_all add: xorshift_inj)

lemma kaiming_loop_states:
  "kaiming_loop n b s = map (\<lambda>i. kaiming_weight b ((xorshift ^^ Suc i) s)) [0 ..< n]"
proof (induction n arbitrary: s)
  case (Suc n)
  have "[0 ..< Suc n] = 0 # map Suc [0 ..< n]" by (metis map_Suc_upt upt_conv_Cons zero_less_Suc)
  then show ?case by (simp add: Suc.IH Let_def funpow_swap1 del: upt_Suc)
qed simp

lemma word_of_nat_inj64:
  assumes "m < 2 ^ 64" "n < 2 ^ 64" "(word_of_nat m :: u64) = word_of_nat n"
  shows "m = n"
proof -
  have u: "unat (word_of_nat k :: u64) = k" if "k < 2 ^ 64" for k
    using that by (simp add: unat_of_nat)
  show ?thesis using arg_cong [OF assms(3), of unat] unfolding u [OF assms(1)] u [OF assms(2)] .
qed

lemma weight_seed_eq_iff:
  "weight_seed clock c = weight_seed clock' c' \<longleftrightarrow> nanos_u64 clock XOR c = nanos_u64 clock' XOR c'"
  by (simp only: weight_seed_def xor_right_cancel)

lemma drawn_weight:
  assumes "fst (kaiming_uniform_weights clock c s t) = Ok w" and "i < length w"
  shows "w ! i = kaiming_weight (kaiming_bound s) ((xorshift ^^ Suc i) (weight_seed clock c))"
proof -
  have "w = kaiming_loop (unat (s * t)) (kaiming_bound s) (weight_seed clock c)"
    using assms(1) by (simp add: kaiming_uniform_weights_def weight_seed_def Let_def)
  then show ?thesis using assms(2) by (simp add: kaiming_loop_states)
qed

text \<open>
  Property C19. When two negotiations share their seed: at any moment of a run the counter is
  the number of weight-drawing calls served so far on all connections, modulo \<open>2 ^ 64\<close>. Take
  any two negotiations (of one run or of two), at any clock readings and for any dimensions,
  after \<open>m\<close> and after \<open>n\<close> such calls. Each computes its \<open>i\<close>-th weight from the \<open>i\<close>-th state of
  its own seed, and at every \<open>i\<close> these states are equal if and only if the clock reading XOR
  \<open>m\<close> equals the clock reading XOR \<open>n\<close>. So the counter does what it is there for at one clock
  reading: with \<open>m \<noteq> n\<close> below \<open>2 ^ 64\<close> the states differ at every \<open>i\<close>. At different clock
  readings it can make two seeds equal that the clocks alone would keep apart.
\<close>

theorem negotiation_seeds:
  assumes "proc_reach D sha M read json cfg es p" and "proc_reach D sha M read json cfg es' p'"
    and "fst (kaiming_uniform_weights clock (pr_counter p) s t) = Ok w"
    and "fst (kaiming_uniform_weights clock' (pr_counter p') s' t') = Ok w'"
  shows "pr_counter p = word_of_nat (draws es) \<and> pr_counter p' = word_of_nat (draws es') \<and>
     (\<forall>i < length w.
        w ! i = kaiming_weight (kaiming_bound s) ((xorshift ^^ Suc i) (weight_seed clock (pr_counter p)))) \<and>
     (\<forall>i < length w'.
        w' ! i = kaiming_weight (kaiming_bound s') ((xorshift ^^ Suc i) (weight_seed clock' (pr_counter p')))) \<and>
     (\<forall>i. (xorshift ^^ Suc i) (weight_seed clock (pr_counter p)) =
          (xorshift ^^ Suc i) (weight_seed clock' (pr_counter p')) \<longleftrightarrow>
        nanos_u64 clock XOR word_of_nat (draws es) = nanos_u64 clock' XOR word_of_nat (draws es')) \<and>
     (nanos_u64 clock = nanos_u64 clock' \<longrightarrow> draws es < 2 ^ 64 \<longrightarrow> draws es' < 2 ^ 64 \<longrightarrow>
        draws es \<noteq> draws es' \<longrightarrow>
        (\<forall>i. (xorshift ^^ Suc i) (weight_seed clock (pr_counter p)) \<noteq>
             (xorshift ^^ Suc i) (weight_seed clock' (pr_counter p'))))"
proof -
  have c: "pr_counter p = word_of_nat (draws es)" "pr_counter p' = word_of_nat (draws es')"
    by (rule counter_counts_draws [OF assms(1)], rule counter_counts_draws [OF assms(2)])
  have states: "(xorshift ^^ Suc i) (weight_seed clock (pr_counter p)) =
      (xorshift ^^ Suc i) (weight_seed clock' (pr_counter p')) \<longleftrightarrow>
    nanos_u64 clock XOR word_of_nat (draws es) = nanos_u64 clock' XOR word_of_nat (draws es')" for i
    by (simp only: xorshift_power_inj weight_seed_eq_iff c)
  have "nanos_u64 clock XOR word_of_nat (draws es) \<noteq> nanos_u64 clock' XOR word_of_nat (draws es')"
    if "nanos_u64 clock = nanos_u64 clock'" "draws es < 2 ^ 64" "draws es' < 2 ^ 64" "draws es \<noteq> draws es'"
    using word_of_nat_inj64 [OF that(2,3)] that(1,4) by (simp only: xor_left_cancel) blast
  then show ?thesis
    using c drawn_weight [OF assms(3)] drawn_weight [OF assms(4)] unfolding states by blast
qed

text \<open>
  Two negotiations one nanosecond apart, the first of a process and the second, can draw the same
  weights.
\<close>

lemma seeds_can_coincide:
  "fst (kaiming_uniform_weights (Some 0) 0 s t) = fst (kaiming_uniform_weights (Some 1) 1 s t)"
  by (simp add: kaiming_uniform_weights_def nanos_u64_def Let_def)

text \<open>One connection, one linear negotiation.\<close>

definition sample_dims :: negotiate_reader where
  "sample_dims = \<lparr>get_source_dim = 1, get_target_dim = 2, get_source_family = Inr [], get_target_family = Inr []\<rparr>"

lemma sample_negotiation_served:
  "\<exists>es p. proc_reach no_env id list_mpsc no_file no_json sample_config es p \<and> draws es = 1"
proof -
  let ?step = "proc_step no_env id list_mpsc no_file no_json sample_config"
  let ?q = "NegotiateReq None (Inr sample_dims)"
  have a: "?step proc_start (Accepted_conn 0) (sample_process sample_server)"
    using proc_step.accept [OF _ sample_server_new, of proc_start no_env id]
    by (simp add: proc_start_def sample_process_def)
  obtain r srv k where s: "serve no_env id list_mpsc ?q sample_server 0 = (r, srv, k)" by (metis prod_cases3)
  have "pr_conns (sample_process sample_server) 0 = Some sample_server" "pr_counter (sample_process sample_server) = 0"
    by (simp_all add: sample_process_def)
  then obtain p where "?step (sample_process sample_server) (Served 0 ?q r) p"
    using proc_step.call [of "sample_process sample_server" 0 sample_server no_env id list_mpsc ?q r srv k]
      proc_step.crash [of "sample_process sample_server" 0 sample_server no_env id list_mpsc ?q r srv k] s
    by (cases "returns r") auto
  then have "proc_reach no_env id list_mpsc no_file no_json sample_config [Served 0 ?q r, Accepted_conn 0] p"
    using a by (blast intro: proc_reach.intros)
  moreover have "draws [Served 0 ?q r, Accepted_conn 0] = 1" by (simp add: draws_def sample_dims_def)
  ultimately show ?thesis by blast
qed

theorem negotiation_seeds_witness:
  "\<exists>es p w w'. proc_reach no_env id list_mpsc no_file no_json sample_config es p \<and>
     fst (kaiming_uniform_weights None 0 1 2) = Ok w \<and> fst (kaiming_uniform_weights None (pr_counter p) 1 3) = Ok w' \<and>
     (xorshift ^^ Suc 0) (weight_seed None 0) \<noteq> (xorshift ^^ Suc 0) (weight_seed None (pr_counter p))"
proof -
  obtain es p where r: "proc_reach no_env id list_mpsc no_file no_json sample_config es p" "draws es = 1"
    using sample_negotiation_served by blast
  have ok: "\<exists>w. fst (kaiming_uniform_weights None c 1 n) = Ok w" if "n < 4" for c n
  proof -
    have "unat n < 4" using that unat_mono [of n 4] by simp
    then show ?thesis by (simp add: kaiming_uniform_weights_def alloc_f32_def Let_def)
  qed
  obtain w w' where w: "fst (kaiming_uniform_weights None (pr_counter (proc_start :: (tagged_primitive list \<times> bool) process)) 1 2) = Ok w"
    "fst (kaiming_uniform_weights None (pr_counter p) 1 3) = Ok w'"
    using ok [of 2 "pr_counter (proc_start :: (tagged_primitive list \<times> bool) process)"] ok [of 3 "pr_counter p"]
    by auto
  have "draws [] < 2 ^ 64" "draws es < 2 ^ 64" "draws [] \<noteq> draws es" using r(2) by (simp_all add: draws_def)
  then have "(xorshift ^^ Suc 0) (weight_seed None (pr_counter (proc_start :: (tagged_primitive list \<times> bool) process))) \<noteq>
      (xorshift ^^ Suc 0) (weight_seed None (pr_counter p))"
    using negotiation_seeds [OF proc_reach.start r(1) w] by blast
  then show ?thesis using r w by (auto simp: proc_start_def)
qed

end
