(* ===== verification/Backend.thy ===== *)
theory Backend
  imports Rpc
begin

text \<open>
  \<open>src/backend\<close>: the inference snapshot, the extractor trait and the llama.cpp backend.
  The C shim behind the foreign functions is the parameter \<open>shim\<close>: its functions over a
  model state \<open>'s\<close>, a pointer to floats as \<open>None\<close> (NULL) or the floats that can be read
  from it. A raw slice that is longer than that memory is undefined behaviour.
\<close>

section \<open>Snapshots and the trait\<close>

record inference_snapshot =
  sn_n_past :: u32
  sn_logits :: "f32 list"
  sn_hidden_states :: "f32 list list"
  sn_kv_cache_layer :: "kv_cache option"

definition new_no_hidden :: "u32 \<Rightarrow> f32 list \<Rightarrow> inference_snapshot" where
  "new_no_hidden n_past logits =
     \<lparr>sn_n_past = n_past, sn_logits = logits, sn_hidden_states = [], sn_kv_cache_layer = None\<rparr>"

text \<open>
  The getters of a \<open>dyn PrimitiveExtractor\<close>, as what they return; \<open>infer\<close>, which changes the
  backend, is the parameter of the locale below.
\<close>

record extractor =
  ex_hidden_size :: u32
  ex_num_layers :: u32
  ex_num_heads :: u32
  ex_vocab_size :: u32
  ex_model_family :: string
  ex_model_fingerprint :: "u8 list"

section \<open>The foreign functions\<close>

record 's shim =
  load_model :: "string \<Rightarrow> c_int \<Rightarrow> c_int \<Rightarrow> c_int \<Rightarrow> 's option"
  free_model :: "'s \<Rightarrow> 's"
  shim_n_vocab :: "'s \<Rightarrow> c_int"
  shim_n_embd :: "'s \<Rightarrow> c_int"
  shim_n_layer :: "'s \<Rightarrow> c_int"
  shim_n_head :: "'s \<Rightarrow> c_int"
  shim_n_ctx :: "'s \<Rightarrow> c_int"
  shim_model_family :: "'s \<Rightarrow> string option"
  shim_decode :: "c_int list \<Rightarrow> c_int \<Rightarrow> c_int \<Rightarrow> 's \<Rightarrow> c_int \<times> 's"
  shim_get_logits :: "'s \<Rightarrow> f32 list option"
  shim_get_embedding :: "c_int \<Rightarrow> 's \<Rightarrow> f32 list option"
  shim_get_hidden_state :: "c_int \<Rightarrow> c_int \<Rightarrow> 's \<Rightarrow> f32 list option \<times> c_int"
  shim_get_kv_cache_keys :: "c_int \<Rightarrow> 's \<Rightarrow> f32 list option \<times> c_int"
  shim_get_kv_cache_values :: "c_int \<Rightarrow> 's \<Rightarrow> f32 list option \<times> c_int"

section \<open>The llama.cpp backend\<close>

record 's llama_backend =
  bk_handle :: 's
  bk_n_vocab :: u32
  bk_n_embd :: u32
  bk_n_layer :: u32
  bk_n_head :: u32
  bk_n_ctx :: u32
  bk_family :: string
  bk_fingerprint :: "u8 list"
  bk_n_past :: u32
  bk_embeddings_on :: bool

definition compute_model_fingerprint ::
  "(u8 list \<Rightarrow> u8 list) \<Rightarrow> string \<Rightarrow> u32 \<Rightarrow> u32 \<Rightarrow> u32 \<Rightarrow> u32 \<Rightarrow> u8 list" where
  "compute_model_fingerprint sha path n_vocab n_embd n_layer n_head =
     sha (string_bytes path @ le_bytes n_vocab @ le_bytes n_embd @ le_bytes n_layer @ le_bytes n_head)"

text \<open>\<open>CString::new\<close>: the position of the first NUL byte, if there is one.\<close>

fun nul_position :: "nat \<Rightarrow> string \<Rightarrow> nat option" where
  "nul_position i [] = None"
| "nul_position i (c # s) = (if c = CHR 0x00 then Some i else nul_position (i + 1) s)"

definition llama_new ::
  "'s shim \<Rightarrow> (u8 list \<Rightarrow> u8 list) \<Rightarrow> backend_config \<Rightarrow> 's llama_backend result" where
  "llama_new S sha config =
     (case nul_position 0 (model_path config) of
        Some i \<Rightarrow> Err (Config (''model path contains null byte: nul byte found in provided data at position: ''
          @ show_digits i))
      | None \<Rightarrow>
          (case load_model S (model_path config) (n_gpu_layers config) (cfg_n_ctx config)
                  (if enable_embeddings config then 1 else 0) of
             None \<Rightarrow> Err (Config (''failed to load model from '' @ [CHR 0x27] @ model_path config @ [CHR 0x27]))
           | Some handle \<Rightarrow>
               let n_vocab = shim_n_vocab S handle;
                   n_embd = shim_n_embd S handle;
                   n_layer = shim_n_layer S handle;
                   n_head = shim_n_head S handle;
                   family = (case shim_model_family S handle of
                     None \<Rightarrow> ''unknown'' | Some s \<Rightarrow> str_or_unknown s)
               in Ok \<lparr>bk_handle = handle, bk_n_vocab = n_vocab, bk_n_embd = n_embd, bk_n_layer = n_layer,
                      bk_n_head = n_head, bk_n_ctx = shim_n_ctx S handle, bk_family = family,
                      bk_fingerprint =
                        compute_model_fingerprint sha (model_path config) n_vocab n_embd n_layer n_head,
                      bk_n_past = 0, bk_embeddings_on = enable_embeddings config\<rparr>))"

definition llama_drop :: "'s shim \<Rightarrow> 's llama_backend \<Rightarrow> 's" where
  "llama_drop S b = free_model S (bk_handle b)"

definition extractor_of :: "'s llama_backend \<Rightarrow> extractor" where
  "extractor_of b =
     \<lparr>ex_hidden_size = bk_n_embd b, ex_num_layers = bk_n_layer b, ex_num_heads = bk_n_head b,
      ex_vocab_size = bk_n_vocab b, ex_model_family = bk_family b,
      ex_model_fingerprint = bk_fingerprint b\<rparr>"

definition saturating_pred :: "u32 \<Rightarrow> u32" where
  "saturating_pred x = (if x = 0 then 0 else x - 1)"

fun hidden_loop ::
  "'s shim \<Rightarrow> 's \<Rightarrow> c_int \<Rightarrow> nat list \<Rightarrow> f32 list list \<Rightarrow> f32 list list result" where
  "hidden_loop S h pos [] states = Ok states"
| "hidden_loop S h pos (layer # ls) states =
     (case shim_get_hidden_state S (word_of_nat layer) pos h of
        (None, out_n) \<Rightarrow> hidden_loop S h pos ls states
      | (Some mem, out_n) \<Rightarrow>
          if sint out_n \<le> 0 then hidden_loop S h pos ls states
          else and_then (from_raw_parts mem (unat out_n)) (\<lambda>v. hidden_loop S h pos ls (states @ [v])))"

definition capture_hidden_states :: "'s shim \<Rightarrow> 's llama_backend \<Rightarrow> c_int \<Rightarrow> f32 list list result" where
  "capture_hidden_states S b token_pos =
     (case (if bk_embeddings_on b then shim_get_embedding S token_pos (bk_handle b) else None) of
        Some mem \<Rightarrow> and_then (from_raw_parts mem (unat (bk_n_embd b))) (\<lambda>v. Ok [v])
      | None \<Rightarrow> hidden_loop S (bk_handle b) token_pos [0 ..< nat (sint (bk_n_layer b))] [])"

definition capture_kv_cache :: "'s shim \<Rightarrow> 's llama_backend \<Rightarrow> kv_cache option result" where
  "capture_kv_cache S b =
     (let last_layer = saturating_pred (bk_n_layer b)
      in case shim_get_kv_cache_keys S last_layer (bk_handle b) of
        (None, n_keys) \<Rightarrow> Ok None
      | (Some kmem, n_keys) \<Rightarrow>
          if sint n_keys \<le> 0 then Ok None
          else (case shim_get_kv_cache_values S last_layer (bk_handle b) of
              (None, n_vals) \<Rightarrow> Ok None
            | (Some vmem, n_vals) \<Rightarrow>
                if sint n_vals \<le> 0 then Ok None
                else and_then (from_raw_parts kmem (unat n_keys)) (\<lambda>ks.
                     and_then (from_raw_parts vmem (unat n_vals)) (\<lambda>vs.
                       if bk_n_head b = 0 then Panic
                       else Ok (Some \<lparr>layer_idx = ucast (saturating_pred (bk_n_layer b)), keys = ks,
                         kv_values = vs,
                         kv_shape = \<lparr>dims = [1, bk_n_head b, bk_n_past b, bk_n_embd b div bk_n_head b]\<rparr>\<rparr>)))))"

definition llama_infer ::
  "'s shim \<Rightarrow> c_int list \<Rightarrow> 's llama_backend \<Rightarrow> inference_snapshot result \<times> 's llama_backend" where
  "llama_infer S tokens b =
     (let (ret, handle) = shim_decode S tokens (len32 tokens) (bk_n_past b) (bk_handle b);
          b1 = b\<lparr>bk_handle := handle\<rparr>
      in if ret \<noteq> 0 then (Err (Internal (''llama_decode returned '' @ show_i32 ret)), b1)
         else
           let b2 = b1\<lparr>bk_n_past := bk_n_past b + len32 tokens\<rparr>
           in case shim_get_logits S handle of
                None \<Rightarrow> (Err (Internal ''aptp_get_logits returned NULL''), b2)
              | Some mem \<Rightarrow>
                  (and_then (from_raw_parts mem (unat (bk_n_vocab b))) (\<lambda>logits.
                   and_then (capture_hidden_states S b2 (word_of_nat (length tokens - 1))) (\<lambda>hidden.
                   and_then (capture_kv_cache S b2) (\<lambda>kv.
                     Ok \<lparr>sn_n_past = bk_n_past b2, sn_logits = logits, sn_hidden_states = hidden,
                         sn_kv_cache_layer = kv\<rparr>))), b2))"

section \<open>From a snapshot to a packet\<close>

definition snapshot_payload :: "inference_snapshot \<Rightarrow> u16 \<Rightarrow> primitive_payload result" where
  "snapshot_payload snapshot layer =
     (case sn_kv_cache_layer snapshot of
        Some kv \<Rightarrow> Ok (KvCache kv)
      | None \<Rightarrow>
          if sn_hidden_states snapshot \<noteq> []
          then let idx = min (unat layer) (length (sn_hidden_states snapshot) - 1)
               in if idx < length (sn_hidden_states snapshot)
                  then Ok (HiddenState (sn_hidden_states snapshot ! idx)) else Panic
          else Ok (LatentThought (sn_logits snapshot)))"

fun snapshot_dims :: "u32 \<Rightarrow> primitive_payload \<Rightarrow> u32 list" where
  "snapshot_dims hidden_dim (HiddenState v) = [1, 1, hidden_dim]"
| "snapshot_dims hidden_dim (LatentThought v) = [1, hidden_dim]"
| "snapshot_dims hidden_dim (KvCache kv) = dims (kv_shape kv)"

definition snapshot_to_packet ::
  "nat option \<Rightarrow> inference_snapshot \<Rightarrow> extractor \<Rightarrow> string \<Rightarrow> string \<Rightarrow> u64 \<Rightarrow> u16
     \<Rightarrow> primitive_packet result" where
  "snapshot_to_packet clock snapshot backend sender sid seq layer =
     and_then (snapshot_payload snapshot layer) (\<lambda>pl.
       Ok \<lparr>version = APTP_VERSION, sender_id = sender,
           model_fingerprint = ex_model_fingerprint backend, layer_index = layer, payload = pl,
           pkt_shape = \<lparr>dims = snapshot_dims (ex_hidden_size backend) pl\<rparr>,
           pkt_metadata = metadata_new_now clock sid seq\<rparr>)"

section \<open>The contract of the trait\<close>

fun infer_all :: "('t \<Rightarrow> 'b \<Rightarrow> 'r result \<times> 'b) \<Rightarrow> 't list \<Rightarrow> 'b \<Rightarrow> 'r result list \<times> 'b" where
  "infer_all run [] b = ([], b)"
| "infer_all run (t # ts) b =
     (let (r, b1) = run t b; (rs, b2) = infer_all run ts b1 in (r # rs, b2))"

text \<open>\<open>infer()\<close> must not panic: errors are values, and the backend stays usable.\<close>

locale primitive_extractor =
  fixes ok :: "'b \<Rightarrow> bool"
    and infer :: "c_int list \<Rightarrow> 'b \<Rightarrow> inference_snapshot result \<times> 'b"
  assumes infer_returns: "ok b \<Longrightarrow> returns (fst (infer toks b))"
    and infer_keeps: "ok b \<Longrightarrow> ok (snd (infer toks b))"
begin

lemma infer_all_returns:
  "ok b \<Longrightarrow> (\<forall>r \<in> set (fst (infer_all infer tss b)). returns r) \<and> ok (snd (infer_all infer tss b))"
proof (induction tss arbitrary: b)
  case (Cons ts tss)
  then show ?case using infer_returns [OF Cons.prems, of ts] infer_keeps [OF Cons.prems, of ts]
    by (auto simp: Let_def split: prod.splits) (metis fst_conv snd_conv)+
qed simp

end

section \<open>When the llama.cpp backend keeps it\<close>

text \<open>The model states that decoding can reach.\<close>

inductive shim_reach :: "'s shim \<Rightarrow> 's \<Rightarrow> 's \<Rightarrow> bool" for S h where
  here: "shim_reach S h h"
| decoded: "shim_reach S h h1 \<Longrightarrow> shim_reach S h (snd (shim_decode S toks n past h1))"

lemma shim_reach_trans: "shim_reach S h1 h2 \<Longrightarrow> shim_reach S h h1 \<Longrightarrow> shim_reach S h h2"
  by (induction rule: shim_reach.induct) (auto intro: shim_reach.decoded)

text \<open>Every non-NULL pointer of the shim leads to as many floats as its caller reads.\<close>

definition memory_ok :: "'s shim \<Rightarrow> u32 \<Rightarrow> u32 \<Rightarrow> 's \<Rightarrow> bool" where
  "memory_ok S n_vocab n_embd h \<longleftrightarrow>
     (\<forall>m. shim_get_logits S h = Some m \<longrightarrow> unat n_vocab \<le> length m) \<and>
     (\<forall>pos m. shim_get_embedding S pos h = Some m \<longrightarrow> unat n_embd \<le> length m) \<and>
     (\<forall>l pos m n. shim_get_hidden_state S l pos h = (Some m, n) \<longrightarrow> 0 < sint n \<longrightarrow> unat n \<le> length m) \<and>
     (\<forall>l m n. shim_get_kv_cache_keys S l h = (Some m, n) \<longrightarrow> 0 < sint n \<longrightarrow> unat n \<le> length m) \<and>
     (\<forall>l m n. shim_get_kv_cache_values S l h = (Some m, n) \<longrightarrow> 0 < sint n \<longrightarrow> unat n \<le> length m)"

definition llama_ok :: "'s shim \<Rightarrow> 's llama_backend \<Rightarrow> bool" where
  "llama_ok S b \<longleftrightarrow> bk_n_head b \<noteq> 0 \<and>
     (\<forall>h. shim_reach S (bk_handle b) h \<longrightarrow> memory_ok S (bk_n_vocab b) (bk_n_embd b) h)"

lemma from_raw_parts_ok [simp]: "n \<le> length xs \<Longrightarrow> from_raw_parts xs n = Ok (take n xs)"
  by (simp add: from_raw_parts_def)

lemma hidden_loop_ok:
  "memory_ok S v e h \<Longrightarrow> \<exists>states'. hidden_loop S h pos ls states = Ok states'"
proof (induction ls arbitrary: states)
  case (Cons l ls)
  obtain p n where g: "shim_get_hidden_state S (word_of_nat l) pos h = (p, n)" by fastforce
  show ?case
  proof (cases p)
    case (Some m)
    then show ?thesis using Cons g by (auto simp: memory_ok_def)
  qed (use Cons g in simp)
qed simp

lemma capture_hidden_ok:
  "memory_ok S (bk_n_vocab b) (bk_n_embd b) (bk_handle b) \<Longrightarrow> \<exists>s. capture_hidden_states S b pos = Ok s"
  using hidden_loop_ok [of S "bk_n_vocab b" "bk_n_embd b" "bk_handle b" pos "[0 ..< nat (sint (bk_n_layer b))]" "[]"]
  by (auto simp: capture_hidden_states_def memory_ok_def split: option.splits)

lemma capture_kv_ok:
  "memory_ok S v e (bk_handle b) \<Longrightarrow> bk_n_head b \<noteq> 0 \<Longrightarrow> \<exists>kv. capture_kv_cache S b = Ok kv"
  by (auto simp: capture_kv_cache_def memory_ok_def Let_def not_le split: option.splits prod.splits)

lemma llama_infer_ok:
  assumes "llama_ok S b"
  shows "returns (fst (llama_infer S toks b)) \<and> llama_ok S (snd (llama_infer S toks b)) \<and>
    (\<forall>s. fst (llama_infer S toks b) = Ok s \<longrightarrow>
       length (sn_logits s) = unat (bk_n_vocab b) \<and> sn_n_past s = bk_n_past b + len32 toks)"
proof -
  obtain ret h where d: "shim_decode S toks (len32 toks) (bk_n_past b) (bk_handle b) = (ret, h)" by fastforce
  have reach: "shim_reach S (bk_handle b) h"
    using shim_reach.decoded [OF shim_reach.here, where S = S and toks = toks and n = "len32 toks"
        and past = "bk_n_past b" and h = "bk_handle b"] d by simp
  then have m: "memory_ok S (bk_n_vocab b) (bk_n_embd b) h" using assms by (simp add: llama_ok_def)
  let ?b = "b\<lparr>bk_handle := h, bk_n_past := bk_n_past b + len32 toks\<rparr>"
  obtain hs where hs: "capture_hidden_states S ?b (word_of_nat (length toks - 1)) = Ok hs"
    using capture_hidden_ok [of S ?b] m by fastforce
  obtain kv where kv: "capture_kv_cache S ?b = Ok kv"
    using capture_kv_ok [of S "bk_n_vocab b" "bk_n_embd b" ?b] m assms by (auto simp: llama_ok_def)
  have "llama_ok S ?b \<and> llama_ok S (b\<lparr>bk_handle := h\<rparr>)"
    using assms reach shim_reach_trans by (fastforce simp: llama_ok_def)
  then show ?thesis
    using m hs kv by (auto simp: llama_infer_def d Let_def memory_ok_def min_def split: option.splits)
qed

interpretation llama: primitive_extractor "llama_ok S" "llama_infer S"
  for S by unfold_locales (use llama_infer_ok in blast)+

section \<open>What the backend captures fits a message\<close>

text \<open>
  Every size that a capture may read in a model state is below the limit of a list of the
  encoding: the vocabulary, the hidden size and whatever the shim reports for a pointer.
\<close>

definition sizes_fit :: "'s shim \<Rightarrow> u32 \<Rightarrow> u32 \<Rightarrow> 's \<Rightarrow> bool" where
  "sizes_fit S n_vocab n_embd h \<longleftrightarrow>
     unat n_vocab < list_limit \<and> unat n_embd < list_limit \<and>
     (\<forall>l pos m n. shim_get_hidden_state S l pos h = (Some m, n) \<longrightarrow> 0 < sint n \<longrightarrow> unat n < list_limit) \<and>
     (\<forall>l m n. shim_get_kv_cache_keys S l h = (Some m, n) \<longrightarrow> 0 < sint n \<longrightarrow> unat n < list_limit) \<and>
     (\<forall>l m n. shim_get_kv_cache_values S l h = (Some m, n) \<longrightarrow> 0 < sint n \<longrightarrow> unat n < list_limit)"

lemma from_raw_parts_length: "from_raw_parts mem n = Ok v \<Longrightarrow> length v = n"
  by (auto simp: from_raw_parts_def split: if_splits)

lemma hidden_loop_fits:
  assumes "sizes_fit S n_vocab n_embd h"
  shows "hidden_loop S h pos ls states = Ok states' \<Longrightarrow> \<forall>v \<in> set states. length v < list_limit \<Longrightarrow>
     \<forall>v \<in> set states'. length v < list_limit"
proof (induction ls arbitrary: states)
  case (Cons l ls)
  obtain m n where g: "shim_get_hidden_state S (word_of_nat l) pos h = (m, n)" by fastforce
  show ?case
  proof (cases m)
    case (Some mem)
    show ?thesis
    proof (cases "sint n \<le> 0")
      case False
      then obtain v where v: "(from_raw_parts mem (unat n) :: f32 list result) = Ok v"
        "hidden_loop S h pos ls (states @ [v]) = Ok states'"
        using Cons.prems(1) g Some by auto
      have "unat n < list_limit" using assms g Some False by (simp add: sizes_fit_def)
      then have "\<forall>v \<in> set (states @ [v]). length v < list_limit"
        using Cons.prems(2) from_raw_parts_length [OF v(1)] by auto
      then show ?thesis using Cons.IH [OF v(2)] by blast
    qed (use Cons.prems g Some Cons.IH in simp)
  qed (use Cons.prems g Cons.IH in simp)
qed simp

lemma capture_hidden_fits:
  assumes "sizes_fit S n_vocab (bk_n_embd b) (bk_handle b)" and "capture_hidden_states S b pos = Ok hs"
  shows "\<forall>v \<in> set hs. length v < list_limit"
proof (cases "if bk_embeddings_on b then shim_get_embedding S pos (bk_handle b) else None")
  case None
  then show ?thesis using assms(2) hidden_loop_fits [OF assms(1)] by (auto simp: capture_hidden_states_def)
next
  case (Some mem)
  then obtain v where v: "(from_raw_parts mem (unat (bk_n_embd b)) :: f32 list result) = Ok v" "hs = [v]"
    using assms(2) by (auto simp: capture_hidden_states_def)
  then show ?thesis using from_raw_parts_length [OF v(1)] assms(1) by (simp add: sizes_fit_def)
qed

lemma capture_kv_fits:
  assumes "sizes_fit S n_vocab n_embd (bk_handle b)" and "capture_kv_cache S b = Ok (Some kv)"
  shows "payload_fits (KvCache kv)"
  using assms
  by (auto simp: capture_kv_cache_def sizes_fit_def Let_def list_limit_def not_le
      simp del: from_raw_parts_ok dest!: from_raw_parts_length split: option.splits prod.splits if_splits)

lemma infer_snapshot_fits:
  assumes "fst (llama_infer S toks b) = Ok s"
    and "sizes_fit S (bk_n_vocab b) (bk_n_embd b) (bk_handle (snd (llama_infer S toks b)))"
  shows "length (sn_logits s) < list_limit \<and> (\<forall>v \<in> set (sn_hidden_states s). length v < list_limit) \<and>
    (\<forall>kv. sn_kv_cache_layer s = Some kv \<longrightarrow> payload_fits (KvCache kv))"
proof -
  obtain ret h where d: "shim_decode S toks (len32 toks) (bk_n_past b) (bk_handle b) = (ret, h)" by fastforce
  let ?b = "b\<lparr>bk_handle := h, bk_n_past := bk_n_past b + len32 toks\<rparr>"
  have ret: "ret = 0" using assms(1) d by (auto simp: llama_infer_def Let_def split: if_splits)
  obtain mem where mem: "shim_get_logits S h = Some mem"
    using assms(1) d ret by (cases "shim_get_logits S h") (auto simp: llama_infer_def Let_def)
  have b: "snd (llama_infer S toks b) = ?b" using d ret mem by (simp add: llama_infer_def Let_def)
  have fits: "sizes_fit S (bk_n_vocab b) (bk_n_embd ?b) (bk_handle ?b)"
    using assms(2) unfolding b by simp
  obtain v hs kv where s: "(from_raw_parts mem (unat (bk_n_vocab b)) :: f32 list result) = Ok v"
    "capture_hidden_states S ?b (word_of_nat (length toks - 1)) = Ok hs"
    "capture_kv_cache S ?b = Ok kv" "s = \<lparr>sn_n_past = bk_n_past ?b, sn_logits = v,
       sn_hidden_states = hs, sn_kv_cache_layer = kv\<rparr>"
    using assms(1) d ret mem by (auto simp: llama_infer_def Let_def simp del: from_raw_parts_ok)
  have "length v < list_limit" using from_raw_parts_length [OF s(1)] fits by (simp add: sizes_fit_def)
  moreover have "\<forall>v \<in> set hs. length v < list_limit" using capture_hidden_fits [OF fits s(2)] .
  moreover have "kv = Some c \<Longrightarrow> payload_fits (KvCache c)" for c
    using capture_kv_fits [OF fits] s(3) by blast
  ultimately show ?thesis by (simp add: s(4))
qed

lemma infer_packet_fits:
  assumes "fst (llama_infer S toks b) = Ok s"
    and "sizes_fit S (bk_n_vocab b) (bk_n_embd b) (bk_handle (snd (llama_infer S toks b)))"
    and "snapshot_to_packet clock s ex sender sid seq layer = Ok p"
  shows "packet_fits p"
proof -
  obtain pl where pl: "snapshot_payload s layer = Ok pl" "payload p = pl"
    "pkt_shape p = \<lparr>dims = snapshot_dims (ex_hidden_size ex) pl\<rparr>"
    using assms(3) by (auto simp: snapshot_to_packet_def)
  have "payload_fits pl"
    using infer_snapshot_fits [OF assms(1,2)] pl(1)
    by (auto simp: snapshot_payload_def Let_def split: option.splits if_splits)
  moreover from this have "length (snapshot_dims (ex_hidden_size ex) pl) < list_limit"
    by (cases pl) (simp_all add: list_limit_def)
  ultimately show ?thesis using pl by (simp add: packet_fits_def)
qed

section \<open>Properties\<close>

text \<open>
  Property C28. Inference keeps its contract: on a shim whose pointers lead to the memory the
  sizes promise, and a model with heads, \<open>infer\<close> never panics nor reads out of bounds; a
  successful answer has one logit per vocabulary entry and the advanced position, and the
  backend can be used again.
\<close>

theorem llama_infer_contract:
  assumes "llama_ok S b"
  shows "returns (fst (llama_infer S toks b)) \<and> llama_ok S (snd (llama_infer S toks b)) \<and>
    (\<forall>s. fst (llama_infer S toks b) = Ok s \<longrightarrow>
       length (sn_logits s) = unat (bk_n_vocab b) \<and>
       sn_n_past s = bk_n_past (snd (llama_infer S toks b)) \<and>
       bk_n_past (snd (llama_infer S toks b)) = bk_n_past b + len32 toks)"
proof -
  have "fst (llama_infer S toks b) = Ok s \<Longrightarrow> sn_n_past s = bk_n_past (snd (llama_infer S toks b))" for s
    by (auto simp: llama_infer_def Let_def split: prod.splits option.splits if_splits)
  then show ?thesis using llama_infer_ok [OF assms, of toks] by auto
qed

text \<open>A shim without the extended extraction, over a model with two vocabulary entries.\<close>

definition stock_shim :: "unit shim" where
  "stock_shim =
     \<lparr>load_model = (\<lambda>_ _ _ _. Some ()), free_model = id, shim_n_vocab = (\<lambda>_. 2), shim_n_embd = (\<lambda>_. 1),
      shim_n_layer = (\<lambda>_. 1), shim_n_head = (\<lambda>_. 1), shim_n_ctx = (\<lambda>_. 8), shim_model_family = (\<lambda>_. None),
      shim_decode = (\<lambda>_ _ _ h. (0, h)), shim_get_logits = (\<lambda>_. Some [0, 0]),
      shim_get_embedding = (\<lambda>_ _. None), shim_get_hidden_state = (\<lambda>_ _ _. (None, 0)),
      shim_get_kv_cache_keys = (\<lambda>_ _. (None, 0)), shim_get_kv_cache_values = (\<lambda>_ _. (None, 0))\<rparr>"

definition stock_backend :: "unit llama_backend" where
  "stock_backend =
     \<lparr>bk_handle = (), bk_n_vocab = 2, bk_n_embd = 1, bk_n_layer = 1, bk_n_head = 1, bk_n_ctx = 8,
      bk_family = ''unknown'', bk_fingerprint = [], bk_n_past = 0, bk_embeddings_on = False\<rparr>"

lemma stock_ok: "llama_ok stock_shim stock_backend"
  by (simp add: llama_ok_def memory_ok_def stock_shim_def stock_backend_def)

theorem llama_infer_contract_witness:
  "returns (fst (llama_infer stock_shim [1] stock_backend)) \<and>
   llama_ok stock_shim (snd (llama_infer stock_shim [1] stock_backend))"
  using llama_infer_contract [OF stock_ok] by blast

text \<open>
  Property C39. A model without heads crashes inference: take any backend whose model reports
  no heads, whatever its layers and its settings. If decoding succeeds, every pointer of the
  shim leads to the memory its size promises, and the shim hands out logits and, for the last
  layer, keys and values of positive sizes, then \<open>infer\<close> panics in the division of the
  cache's shape, against the trait's contract.
\<close>

theorem infer_panics_without_heads:
  assumes "bk_n_head b = 0"
    and "shim_decode S toks (len32 toks) (bk_n_past b) (bk_handle b) = (0, h)"
    and "memory_ok S (bk_n_vocab b) (bk_n_embd b) h"
    and "shim_get_logits S h = Some lmem"
    and "shim_get_kv_cache_keys S (saturating_pred (bk_n_layer b)) h = (Some kmem, nk)" and "0 < sint nk"
    and "shim_get_kv_cache_values S (saturating_pred (bk_n_layer b)) h = (Some vmem, nv)" and "0 < sint nv"
  shows "fst (llama_infer S toks b) = Panic"
proof -
  let ?b = "b\<lparr>bk_handle := h, bk_n_past := bk_n_past b + len32 toks\<rparr>"
  obtain hs where "capture_hidden_states S ?b (word_of_nat (length toks - 1)) = Ok hs"
    using capture_hidden_ok [of S ?b] assms(3) by fastforce
  moreover have "unat (bk_n_vocab b) \<le> length lmem" "unat nk \<le> length kmem" "unat nv \<le> length vmem"
    using assms(3-8) by (simp_all add: memory_ok_def)
  then have "capture_kv_cache S ?b = Panic" using assms(1,5-8) by (simp add: capture_kv_cache_def)
  ultimately show ?thesis using \<open>unat (bk_n_vocab b) \<le> length lmem\<close> assms(2,4)
    by (simp add: llama_infer_def)
qed

theorem infer_panics_without_heads_witness:
  "fst (llama_infer (stock_shim\<lparr>shim_get_kv_cache_keys := \<lambda>_ _. (Some [0], 1),
       shim_get_kv_cache_values := \<lambda>_ _. (Some [0], 1)\<rparr>) []
     (stock_backend\<lparr>bk_n_head := 0, bk_n_layer := 3\<rparr>)) = Panic"
  by (rule infer_panics_without_heads [where h = "()" and lmem = "[0, 0]" and kmem = "[0]" and vmem = "[0]"
        and nk = 1 and nv = 1])
    (simp_all add: stock_shim_def stock_backend_def memory_ok_def)

text \<open>
  What a snapshot is sent as: \<open>snapshot_to_packet\<close> never fails and takes the
  cache slice if there is one, else the hidden state of the asked layer (the last one when the
  layer is beyond it), else the logits as a latent thought; the packet carries the backend's
  fingerprint and the session it was asked for.
\<close>

lemma snapshot_packet_contents:
  "\<exists>p. snapshot_to_packet clock s ex sender sid seq layer = Ok p \<and>
     payload p =
       (case sn_kv_cache_layer s of Some kv \<Rightarrow> KvCache kv
        | None \<Rightarrow> if sn_hidden_states s = [] then LatentThought (sn_logits s)
            else if unat layer < length (sn_hidden_states s) then HiddenState (sn_hidden_states s ! unat layer)
            else HiddenState (last (sn_hidden_states s))) \<and>
     model_fingerprint p = ex_model_fingerprint ex \<and> sender_id p = sender \<and>
     session_id (pkt_metadata p) = sid \<and> sequence_id (pkt_metadata p) = seq"
proof (cases "sn_hidden_states s = []")
  case False
  then have len: "0 < length (sn_hidden_states s)" by simp
  then have idx: "min (unat layer) (length (sn_hidden_states s) - 1) < length (sn_hidden_states s)" by linarith
  have "min (unat layer) (length (sn_hidden_states s) - 1) =
      (if unat layer < length (sn_hidden_states s) then unat layer else length (sn_hidden_states s) - 1)"
    using len by auto
  then have nth: "sn_hidden_states s ! min (unat layer) (length (sn_hidden_states s) - 1) =
      (if unat layer < length (sn_hidden_states s) then sn_hidden_states s ! unat layer
       else last (sn_hidden_states s))"
    using False by (simp add: last_conv_nth)
  show ?thesis
    using False idx nth
    by (simp add: snapshot_to_packet_def snapshot_payload_def metadata_new_now_def Let_def last_conv_nth
        split: option.splits)
qed (simp add: snapshot_to_packet_def snapshot_payload_def metadata_new_now_def split: option.splits)

text \<open>
  Property C40. The shape of a latent thought is not the shape of its payload: a packet made
  from a snapshot with logits only declares \<open>hidden_size\<close> elements while it carries the
  logits, so the two agree only if the vocabulary is as large as the hidden state.
\<close>

theorem latent_shape_mismatch:
  assumes "sn_kv_cache_layer s = None" and "sn_hidden_states s = []"
    and "snapshot_to_packet clock s ex sender sid seq layer = Ok p"
  shows "payload p = LatentThought (sn_logits s) \<and>
    (unat (element_count (pkt_shape p)) = length (sn_logits s) \<longleftrightarrow>
       unat (ex_hidden_size ex) = length (sn_logits s))"
proof -
  have "p = \<lparr>version = APTP_VERSION, sender_id = sender, model_fingerprint = ex_model_fingerprint ex,
      layer_index = layer, payload = LatentThought (sn_logits s),
      pkt_shape = \<lparr>dims = [1, ex_hidden_size ex]\<rparr>, pkt_metadata = metadata_new_now clock sid seq\<rparr>"
    using assms by (simp add: snapshot_to_packet_def snapshot_payload_def)
  moreover have "element_count \<lparr>dims = [1, d]\<rparr> = usize_of_u32 d" for d
    by (simp add: element_count_def usize_of_u32_def)
  ultimately show ?thesis by simp
qed

theorem latent_shape_mismatch_witness:
  "\<exists>p. snapshot_to_packet None (new_no_hidden 0 [0, 0]) (extractor_of stock_backend)
       ''a'' ''s'' 0 0 = Ok p \<and>
     unat (element_count (pkt_shape p)) \<noteq> length (sn_logits (new_no_hidden 0 [0, 0]))"
proof -
  obtain p where p: "snapshot_to_packet None (new_no_hidden 0 [0, 0])
      (extractor_of stock_backend) ''a'' ''s'' 0 0 = Ok p"
    by (simp add: snapshot_to_packet_def snapshot_payload_def new_no_hidden_def)
  with latent_shape_mismatch [OF _ _ p] show ?thesis
    by (auto simp: new_no_hidden_def extractor_of_def stock_backend_def)
qed

text \<open>
  The model fingerprint binds what it hashes: the numbers have a fixed width at
  the end of the digest's input, so if the digest does not collide on the two inputs, equal
  fingerprints mean the same path and the same four sizes.
\<close>

lemma model_fingerprint_binds:
  assumes "compute_model_fingerprint sha path v e l h = compute_model_fingerprint sha path' v' e' l' h'"
    and "sha (string_bytes path @ le_bytes v @ le_bytes e @ le_bytes l @ le_bytes h) =
        sha (string_bytes path' @ le_bytes v' @ le_bytes e' @ le_bytes l' @ le_bytes h') \<Longrightarrow>
      string_bytes path @ le_bytes v @ le_bytes e @ le_bytes l @ le_bytes h =
        string_bytes path' @ le_bytes v' @ le_bytes e' @ le_bytes l' @ le_bytes h'"
  shows "path = path' \<and> v = v' \<and> e = e' \<and> l = l' \<and> h = h'"
proof -
  have "string_bytes path @ le_bytes v @ le_bytes e @ le_bytes l @ le_bytes h =
      string_bytes path' @ le_bytes v' @ le_bytes e' @ le_bytes l' @ le_bytes h'"
    using assms by (simp add: compute_model_fingerprint_def)
  then have "string_bytes path = string_bytes path'" "le_bytes v @ le_bytes e @ le_bytes l @ le_bytes h =
      le_bytes v' @ le_bytes e' @ le_bytes l' @ le_bytes h'"
    by (simp_all add: append_eq_append_conv)
  then show ?thesis by (simp add: string_bytes_inj append_eq_append_conv le_bytes_inj)
qed

lemma model_fingerprint_binds_witness:
  "compute_model_fingerprint id ''m'' 32000 4096 32 32 \<noteq> compute_model_fingerprint id ''m'' 32001 4096 32 32"
proof
  assume "compute_model_fingerprint id ''m'' 32000 4096 32 32 = compute_model_fingerprint id ''m'' 32001 4096 32 32"
  then have "''m'' = ''m'' \<and> (32000 :: u32) = 32001 \<and> (4096 :: u32) = 4096 \<and> (32 :: u32) = 32 \<and> (32 :: u32) = 32"
    by (rule model_fingerprint_binds) simp
  then show False by simp
qed

end
