(* ===== verification/Pipeline.thy ===== *)
theory Pipeline
  imports System Backend
begin

text \<open>
  Two paths through several components: from the inference of \<open>backend/llama.rs\<close> over the
  client of \<open>transport/client.rs\<close> to the sink of the server, and from a handshake that asks for
  an adapter over the negotiation to an adapter of \<open>adapter/\<close>.
\<close>

section \<open>From inference to the sink\<close>

lemma packet_of_snapshot:
  assumes "snapshot_to_packet clock s ex sender sid seq layer = Ok p"
  shows "sender_id p = sender \<and> pkt_metadata p = metadata_new_now clock sid seq"
  using assms by (auto simp: snapshot_to_packet_def)

lemma snapshot_packet_utf8:
  assumes "snapshot_to_packet clock s ex sender sid seq layer = Ok p" and "utf8 sender" and "utf8 sid"
  shows "packet_utf8 p \<and> session_id (pkt_metadata p) = sid"
  using packet_of_snapshot [OF assms(1)] assms(2,3)
  by (simp add: packet_utf8_def metadata_new_now_def ascii_utf8)

text \<open>
  Property C9. What a model infers can be sent: if the vocabulary, the hidden size and the
  sizes the shim reports for its pointers are below the limit of a list of the encoding
  (\<open>2 ^ 29\<close>), every successful inference gives a snapshot whose packet the client serialises
  without a panic, whichever of the cache, a hidden state or the logits it carries (its strings
  and its fingerprint are taken to be below the same limit). Sent for an open session over a
  sink that takes it, it is acknowledged exactly when the firewall accepts its payload, and
  then that packet is in the sink with its tag.
\<close>

theorem inference_reaches_sink:
  assumes "fst (llama_infer S toks b) = Ok s"
    and "sizes_fit S (bk_n_vocab b) (bk_n_embd b) (bk_handle (snd (llama_infer S toks b)))"
    and "snapshot_to_packet now s (extractor_of (snd (llama_infer S toks b))) sender sid seq layer = Ok p"
    and "utf8 sender" and "utf8 sid" and "cl_session_id cl = Some own"
    and "sid \<in> dom (srv_sessions (ln_server ln))"
    and "chan_send M (tag_of sha p) (srv_sink (ln_server ln)) = Some ch"
  shows "\<exists>cl' ln'. send_primitive (linked D sha M fresh clock) p cl ln =
       (Ok (is_ok (validate (srv_firewall (ln_server ln)) (payload p))), cl', ln') \<and>
     (if is_ok (validate (srv_firewall (ln_server ln)) (payload p)) then srv_sink (ln_server ln') = ch
      else ln_server ln' = ln_server ln)"
proof -
  obtain r cl' ln' where s: "send_primitive (linked D sha M fresh clock) p cl ln = (r, cl', ln')"
    by (metis prod_cases3)
  have "packet_utf8 p" "session_id (pkt_metadata p) = sid"
    using snapshot_packet_utf8 [OF assms(3-5)] by auto
  then show ?thesis
    using delivered [OF assms(6) infer_packet_fits [OF assms(1-3)] _ _ assms(8) s] assms(7) s by auto
qed

definition stock_snapshot :: inference_snapshot where
  "stock_snapshot = \<lparr>sn_n_past = 1, sn_logits = [0, 0], sn_hidden_states = [], sn_kv_cache_layer = None\<rparr>"

lemma stock_infer: "fst (llama_infer stock_shim [1] stock_backend) = Ok stock_snapshot"
  by (simp add: llama_infer_def stock_shim_def stock_backend_def stock_snapshot_def capture_hidden_states_def
      capture_kv_cache_def len32_def Let_def)

lemma stock_fits:
  "sizes_fit stock_shim (bk_n_vocab stock_backend) (bk_n_embd stock_backend)
     (bk_handle (snd (llama_infer stock_shim [1] stock_backend)))"
  by (simp add: sizes_fit_def list_limit_def stock_shim_def stock_backend_def)

theorem inference_reaches_sink_witness:
  "\<exists>p cl ln. snapshot_to_packet None stock_snapshot (extractor_of (snd (llama_infer stock_shim [1] stock_backend)))
       ''b'' ''s'' 0 0 = Ok p \<and>
     send_primitive (linked no_env id list_mpsc (\<lambda>_. ''s'') (\<lambda>_. None)) p with_session open_link =
       (Ok True, cl, ln) \<and> srv_sink (ln_server ln) = ([tag_of id p], True)"
proof -
  let ?ex = "extractor_of (snd (llama_infer stock_shim [1] stock_backend))"
  obtain p where p: "snapshot_to_packet None stock_snapshot ?ex ''b'' ''s'' 0 0 = Ok p"
    by (simp add: snapshot_to_packet_def snapshot_payload_def stock_snapshot_def)
  have "payload p = LatentThought [0, 0]"
    using p by (auto simp: snapshot_to_packet_def snapshot_payload_def stock_snapshot_def)
  then have v: "validate plain_firewall (payload p) = Ok ()"
    by (simp add: check_vector_def plain_firewall_def float_eval)
  have "srv_firewall (ln_server open_link) = plain_firewall" "''s'' \<in> dom (srv_sessions (ln_server open_link))"
    "cl_session_id with_session = Some ''s''"
    "chan_send list_mpsc (tag_of id p) (srv_sink (ln_server open_link)) = Some ([tag_of id p], True)"
    by (simp_all add: open_link_def live_server_def open_server_def sample_server_def with_session_def list_mpsc_def)
  then show ?thesis
    using inference_reaches_sink [OF stock_infer stock_fits p, where cl = with_session and own = "''s''" and ln = open_link and sha = id
        and M = list_mpsc and ch = "([tag_of id p], True)" and D = no_env and fresh = "\<lambda>_. ''s''" and clock = "\<lambda>_. None"] p v
    by (auto simp: ascii_utf8)
qed

section \<open>From a mismatch to an adapter\<close>

lemma handshake_needs_adapter:
  assumes "agent_card_from_capnp reader = Ok crd" and "aptp_version crd = APTP_VERSION"
    and "hidden_size crd \<noteq> cfg_hidden_size (cfg_agent (srv_cfg srv))"
    and "\<not> allow_dimension_mismatch_passthrough (cfg_adapter (srv_cfg srv))"
  shows "\<exists>m. fst (rpc_handshake D uuid clock (Inr (Inr reader)) srv) = Ok m \<and>
    hm_status m = NeedsAdapter \<and> hm_adapter_required m = LinearProjectionT"
  using assms by (auto simp: rpc_handshake_def handshake_handle_def Let_def split: prod.split)

text \<open>
  The negotiation of a mismatch with a size 0 on one side fails.
\<close>

lemma negotiation_of_zero:
  assumes "get_source_family q = Inr sf" and "get_target_family q = Inr tf"
    and "get_source_dim q = 0 \<or> get_target_dim q = 0"
  shows "fst (rpc_negotiate_alignment D clock (Inr q) counter) =
    Err (Failed (aptp_display D (IncompatibleDimensions (get_source_dim q) (get_target_dim q))))"
  using assms(3) by (auto simp: rpc_negotiate_eq [OF assms(1,2)] negotiate_handle_def rpc_result_def)

lemma negotiated_adapter:
  assumes "get_source_family q = Inr sf" and "get_target_family q = Inr tf"
    and "get_source_dim q = s" and "get_target_dim q = t"
    and "s \<noteq> 0" and "t \<noteq> 0" and "s \<noteq> t" and "unat s * unat t < 2 ^ 29"
  shows "\<exists>am a. fst (rpc_negotiate_alignment D clock (Inr q) counter) = Ok am \<and>
    am_adapter_type am = LinearProjectionT \<and>
    from_spec LinearProjection (usize_of_u32 (am_source_dim am)) (usize_of_u32 (am_target_dim am)) (am_weights am) = Ok a \<and>
    (\<forall>x. length x = unat s \<longrightarrow> (\<exists>y. adapt a x = Ok y \<and> length y = unat t))"
proof -
  obtain am where am: "fst (rpc_negotiate_alignment D clock (Inr q) counter) = Ok am"
    "am_source_dim am = s" "am_target_dim am = t" "am_adapter_type am = LinearProjectionT"
    "length (am_weights am) = unat s * unat t"
    using negotiation_complete [OF assms(1,2), of D clock counter] assms(5-8) unfolding assms(3,4) by auto
  have small: "unat (usize_of_u32 s) * unat (usize_of_u32 t) < 2 ^ 64" using assms(8) by simp
  obtain a where a: "linear_new (usize_of_u32 s) (usize_of_u32 t) (am_weights am) = Ok a"
    using linear_new_iff [OF small, of "am_weights am"] am(5) by (auto simp: is_ok_iff)
  have ok: "linear_ok a" using linear_new_ok [OF a small] unat_u32_lt [of t] by simp
  have dims: "lin_source_dim a = usize_of_u32 s" "lin_target_dim a = usize_of_u32 t"
    using a by (auto simp: linear_new_def Let_def split: if_splits)
  have "\<exists>y. adapt (Linear a) x = Ok y \<and> length y = unat t" if "length x = unat s" for x
    using linear.run_ok [OF ok, of x] that dims by simp
  moreover have "from_spec LinearProjection (usize_of_u32 (am_source_dim am)) (usize_of_u32 (am_target_dim am))
      (am_weights am) = Ok (Linear a)"
    using a am(2,3) by simp
  ultimately show ?thesis using am(1,4) by blast
qed

text \<open>
  Property C10. A dimension mismatch is bridged, unless a size is 0: a peer of this protocol
  version and of another hidden size (passthrough off) is told by the handshake to use a
  linear adapter. Negotiating from its size to the server's, with a product below \<open>2 ^ 29\<close>,
  then answers, if neither size is 0, with that kind of adapter and weights from which the
  factory builds one that maps every vector of the peer's size to the server's size; if one of
  them is 0, it fails with incompatible dimensions, although the handshake asked for it.
\<close>

theorem mismatch_is_bridged:
  assumes "agent_card_from_capnp reader = Ok crd" and "aptp_version crd = APTP_VERSION"
    and "hidden_size crd \<noteq> cfg_hidden_size (cfg_agent (srv_cfg srv))"
    and "\<not> allow_dimension_mismatch_passthrough (cfg_adapter (srv_cfg srv))"
    and "unat (hidden_size crd) * unat (cfg_hidden_size (cfg_agent (srv_cfg srv))) < 2 ^ 29"
    and "q = \<lparr>get_source_dim = hidden_size crd, get_target_dim = cfg_hidden_size (cfg_agent (srv_cfg srv)),
           get_source_family = Inr sf, get_target_family = Inr tf\<rparr>"
  shows "\<exists>m. fst (rpc_handshake D uuid clock (Inr (Inr reader)) srv) = Ok m \<and>
    hm_status m = NeedsAdapter \<and> hm_adapter_required m = LinearProjectionT \<and>
    (if hidden_size crd = 0 \<or> cfg_hidden_size (cfg_agent (srv_cfg srv)) = 0
     then fst (rpc_negotiate_alignment D clock' (Inr q) counter) =
       Err (Failed (aptp_display D
         (IncompatibleDimensions (hidden_size crd) (cfg_hidden_size (cfg_agent (srv_cfg srv))))))
     else \<exists>am k a. fst (rpc_negotiate_alignment D clock' (Inr q) counter) = Ok am \<and>
       am_adapter_type am = hm_adapter_required m \<and> adapter_type_of k = am_adapter_type am \<and>
       from_spec k (usize_of_u32 (am_source_dim am)) (usize_of_u32 (am_target_dim am)) (am_weights am) = Ok a \<and>
       (\<forall>x. length x = unat (hidden_size crd) \<longrightarrow>
          (\<exists>y. adapt a x = Ok y \<and> length y = unat (cfg_hidden_size (cfg_agent (srv_cfg srv))))))"
proof -
  let ?s = "hidden_size crd" and ?t = "cfg_hidden_size (cfg_agent (srv_cfg srv))"
  have f: "get_source_family q = Inr sf" "get_target_family q = Inr tf" "get_source_dim q = ?s" "get_target_dim q = ?t"
    by (simp_all add: assms(6))
  obtain m where m: "fst (rpc_handshake D uuid clock (Inr (Inr reader)) srv) = Ok m"
    "hm_status m = NeedsAdapter" "hm_adapter_required m = LinearProjectionT"
    using handshake_needs_adapter [OF assms(1-4)] by blast
  show ?thesis
  proof (cases "?s = 0 \<or> ?t = 0")
    case True
    then show ?thesis using m negotiation_of_zero [OF f(1,2)] f(3,4) by simp
  next
    case False
    then obtain am a where b: "fst (rpc_negotiate_alignment D clock' (Inr q) counter) = Ok am"
      "am_adapter_type am = LinearProjectionT"
      "from_spec LinearProjection (usize_of_u32 (am_source_dim am)) (usize_of_u32 (am_target_dim am))
         (am_weights am) = Ok a"
      "\<forall>x. length x = unat ?s \<longrightarrow> (\<exists>y. adapt a x = Ok y \<and> length y = unat ?t)"
      using negotiated_adapter [OF f _ _ assms(3,5), of D clock' counter] by blast
    moreover have "adapter_type_of LinearProjection = LinearProjectionT" by simp
    ultimately show ?thesis using m False by metis
  qed
qed

theorem mismatch_is_bridged_witness:
  "\<exists>am a. fst (rpc_negotiate_alignment no_env None
       (Inr \<lparr>get_source_dim = 2, get_target_dim = 1, get_source_family = Inr [], get_target_family = Inr []\<rparr>) 0) = Ok am \<and>
     from_spec LinearProjection 2 1 (am_weights am) = Ok a \<and> is_ok (adapt a [0, 0])"
proof -
  let ?card = "\<lparr>agent_id = ''b'', aptp_version = APTP_VERSION, hidden_size = 2, num_layers = 1, num_heads = 1,
    vocab_size = 1, model_family = ''m'', capabilities = []\<rparr>"
  let ?reader = "sample_card\<lparr>get_invariants := Inr \<lparr>get_hidden_size = 2, get_num_layers = 1, get_num_heads = 1,
    get_vocab_size = 1, get_model_family = Inr ''m''\<rparr>\<rparr>"
  have c: "agent_card_from_capnp ?reader = Ok ?card"
    by (simp add: agent_card_Ok_iff sample_card_def ascii_utf8)
  have srv: "cfg_hidden_size (cfg_agent (srv_cfg sample_server)) = 1"
    "\<not> allow_dimension_mismatch_passthrough (cfg_adapter (srv_cfg sample_server))"
    by (simp_all add: sample_server_def sample_config_def)
  obtain am k a where b: "fst (rpc_negotiate_alignment no_env None
       (Inr \<lparr>get_source_dim = 2, get_target_dim = 1, get_source_family = Inr [], get_target_family = Inr []\<rparr>) 0) = Ok am"
    "adapter_type_of k = am_adapter_type am"
    "from_spec k (usize_of_u32 (am_source_dim am)) (usize_of_u32 (am_target_dim am)) (am_weights am) = Ok a"
    "\<forall>x. length x = 2 \<longrightarrow> (\<exists>y. adapt a x = Ok y \<and> length y = 1)"
    using mismatch_is_bridged [OF c, of sample_server _ "[]" "[]" no_env "''s''" None None 0] srv
    by auto
  have "am_source_dim am = 2" "am_target_dim am = 1" "am_adapter_type am = LinearProjectionT"
    using b(1) negotiation_complete [of "\<lparr>get_source_dim = 2, get_target_dim = 1, get_source_family = Inr [],
      get_target_family = Inr []\<rparr>" "[]" "[]" no_env None 0] by auto
  moreover from this have "k = LinearProjection" using b(2) by (cases k) auto
  ultimately show ?thesis using b by (auto simp: usize_of_u32_def is_ok_iff dest!: spec [of _ "[0, 0]"])
qed

end
