(* ===== verification/Unit_Tests.thy ===== *)
theory Unit_Tests
  imports Validation Backend
begin

text \<open>
  The unit tests inside the crate's own files, as functions of what they leave open (the
  digest, the clock, the dimensions a property test draws), and the proof that they pass on
  the model: \<open>primitives.rs\<close>, \<open>adapter/linear.rs\<close>, \<open>validation/gate.rs\<close>,
  \<open>backend/llama.rs\<close>. A failed assertion or an unwrap of the wrong variant is a panic.
\<close>

section \<open>Assertions\<close>

fun unwrap :: "'a result \<Rightarrow> ('a, unit) outcome" where
  "unwrap (Ok x) = Ok x"
| "unwrap (Err e) = Panic"
| "unwrap Panic = Panic"
| "unwrap UB = UB"

fun unwrap_err :: "'a result \<Rightarrow> (aptp_error, unit) outcome" where
  "unwrap_err (Ok x) = Panic"
| "unwrap_err (Err e) = Ok e"
| "unwrap_err Panic = Panic"
| "unwrap_err UB = UB"

definition assert_that :: "bool \<Rightarrow> (unit, unit) outcome" where
  "assert_that b = (if b then Ok () else Panic)"

lemma assert_that_Ok [simp]: "assert_that b = Ok () \<longleftrightarrow> b"
  by (simp add: assert_that_def)

text \<open>\<open>==\<close> on \<open>Vec<f32>\<close>: equal values at each position, the zeros equal, NaN unequal.\<close>

definition f32_eq :: "f32 \<Rightarrow> f32 \<Rightarrow> bool" where
  "f32_eq x y \<longleftrightarrow> \<not> f32_is_nan x \<and> \<not> f32_is_nan y \<and> f32_key x = f32_key y"

section \<open>Linear projection\<close>

definition test_linear_projection_identity_2d :: "(unit, unit) outcome" where
  "test_linear_projection_identity_2d =
     and_then (unwrap (linear_new 2 2 [f32_lit 1 1, f32_lit 0 1, f32_lit 0 1, f32_lit 1 1])) (\<lambda>adapter.
     and_then (unwrap (linear_adapt adapter [f32_lit 1 1, f32_lit 2 1])) (\<lambda>output.
       assert_that (list_all2 f32_eq output [f32_lit 1 1, f32_lit 2 1])))"

definition test_linear_projection_upscale :: "(unit, unit) outcome" where
  "test_linear_projection_upscale =
     and_then (unwrap (linear_new 2 4 [f32_lit 1 1, f32_lit 0 1, f32_lit 0 1, f32_lit 1 1,
         f32_lit 1 1, f32_lit 1 1, f32_lit 0 1, f32_lit 0 1])) (\<lambda>adapter.
     and_then (unwrap (linear_adapt adapter [f32_lit 3 1, f32_lit 5 1])) (\<lambda>output.
       assert_that (list_all2 f32_eq output [f32_lit 3 1, f32_lit 5 1, f32_lit 8 1, f32_lit 0 1])))"

text \<open>The property test, for one pair of drawn dimensions.\<close>

definition linear_adapter_output_length :: "usize \<Rightarrow> usize \<Rightarrow> (unit, unit) outcome" where
  "linear_adapter_output_length dim_src dim_dst =
     (let n = dim_src * dim_dst;
          weights = map (\<lambda>i. f32_mul (f32_of_nat i) (f32_lit 1 100)) [0 ..< unat n]
      in and_then (unwrap (linear_new dim_src dim_dst weights)) (\<lambda>adapter.
         let input = map (\<lambda>i. f32_mul (f32_of_nat i) (f32_lit 1 10)) [0 ..< unat dim_src]
         in and_then (unwrap (linear_adapt adapter input)) (\<lambda>output.
              assert_that (length output = unat dim_dst))))"

lemma replicates:
  "replicate 2 x = [x, x]" "replicate 4 x = [x, x, x, x]"
  "replicate 16 x = [x, x, x, x, x, x, x, x, x, x, x, x, x, x, x, x]"
  by (simp_all add: numeral_eq_Suc)

lemma float_values:
  "f32_lit 0 1 = 0" "f32_lit 1 1 = 0x3F800000" "f32_lit 2 1 = 0x40000000" "f32_lit 3 1 = 0x40400000"
  "f32_lit 5 1 = 0x40A00000" "f32_lit 8 1 = 0x41000000" "f32_lit 10 1 = 0x41200000"
  "f32_lit 50 1 = 0x42480000" "f32_lit 1 10 = 0x3DCCCCCD" "f32_lit 1000 1 = 0x447A0000"
  by (simp_all add: float_eval)

lemma linear_ops:
  "f32_mul 0x3F800000 0x3F800000 = 0x3F800000" "f32_mul 0 0x40000000 = 0" "f32_mul 0 0x3F800000 = 0"
  "f32_mul 0x3F800000 0x40000000 = 0x40000000" "f32_mul 0x3F800000 0x40400000 = 0x40400000"
  "f32_mul 0 0x40400000 = 0" "f32_mul 0 0x40A00000 = 0" "f32_mul 0x3F800000 0x40A00000 = 0x40A00000"
  "f32_add 0x80000000 0x3F800000 = 0x3F800000" "f32_add 0x3F800000 0 = 0x3F800000"
  "f32_add 0x80000000 0 = 0" "f32_add 0 0x40000000 = 0x40000000" "f32_add 0x80000000 0x40400000 = 0x40400000"
  "f32_add 0x40400000 0 = 0x40400000" "f32_add 0 0x40A00000 = 0x40A00000"
  "f32_add 0x40400000 0x40A00000 = 0x41000000" "f32_add 0 0 = 0"
  by (simp_all add: float_eval)

lemma test_linear_projection_identity_2d_ok: "test_linear_projection_identity_2d = Ok ()"
  by (simp add: test_linear_projection_identity_2d_def linear_new_def linear_adapt_def alloc_f32_def
      slice_def dot_def f32_sum_def f32_neg_zero_def float_values linear_ops upt_rec replicates)
    (simp add: f32_eq_def float_eval)

lemma test_linear_projection_upscale_ok: "test_linear_projection_upscale = Ok ()"
  by (simp add: test_linear_projection_upscale_def linear_new_def linear_adapt_def alloc_f32_def
      slice_def dot_def f32_sum_def f32_neg_zero_def float_values linear_ops upt_rec replicates)
    (simp add: f32_eq_def float_eval)

lemma linear_adapter_output_length_ok:
  assumes "unat s * unat t < 2 ^ 61"
  shows "0 < unat s \<Longrightarrow> linear_adapter_output_length s t = Ok ()"
proof -
  assume "0 < unat s"
  then have "unat t \<le> unat s * unat t" by simp
  then have t: "unat t < 2 ^ 61" using assms by (rule le_less_trans)
  let ?w = "map (\<lambda>i. f32_mul (f32_of_nat i) (f32_lit 1 100)) [0 ..< unat (s * t)]"
  let ?x = "map (\<lambda>i. f32_mul (f32_of_nat i) (f32_lit 1 10)) [0 ..< unat s]"
  have small: "unat s * unat t < 2 ^ 64" using assms by simp
  have len: "length ?w = unat s * unat t" using small by (simp add: unat_word_ariths)
  obtain a where a: "linear_new s t ?w = Ok a"
    using linear_new_iff [OF small, of ?w] len by (auto simp: is_ok_iff)
  have dims: "lin_source_dim a = s" "lin_target_dim a = t"
    using a by (auto simp: linear_new_def Let_def split: if_splits)
  obtain y where "linear_adapt a ?x = Ok y" "length y = unat t"
    using linear.run_ok [OF linear_new_ok [OF a small t], of ?x] dims by auto
  then show ?thesis using a by (simp add: linear_adapter_output_length_def Let_def)
qed

section \<open>Firewall\<close>

definition test_firewall_rejects_high_norm ::
  "(string \<Rightarrow> string + string) \<Rightarrow> (string \<Rightarrow> string + f32 list) \<Rightarrow> (unit, unit) outcome" where
  "test_firewall_rejects_high_norm read json =
     and_then (unwrap (firewall_new read json \<lparr>l2_norm_max = f32_lit 10 1, cosine_sim_min = 0xBF733333,
         fairness_threshold = f32_lit 1 10, probe_vectors_path = None\<rparr>)) (\<lambda>fw.
     and_then (unwrap_err (check_vector fw (replicate 16 (f32_lit 50 1)))) (\<lambda>err.
       case err of OffManifold l2 cosine \<Rightarrow> assert_that (f32_less (f32_lit 10 1) l2) | _ \<Rightarrow> Panic))"

definition test_firewall_accepts_normal_vector ::
  "(string \<Rightarrow> string + string) \<Rightarrow> (string \<Rightarrow> string + f32 list) \<Rightarrow> (unit, unit) outcome" where
  "test_firewall_accepts_normal_vector read json =
     and_then (unwrap (firewall_new read json \<lparr>l2_norm_max = f32_lit 1000 1, cosine_sim_min = 0xBF733333,
         fairness_threshold = f32_lit 1 10, probe_vectors_path = None\<rparr>)) (\<lambda>fw.
       assert_that (is_ok (check_vector fw (replicate 16 (f32_lit 1 10)))))"

text \<open>The partial sums of the two norms.\<close>

lemma high_norm_ops:
  "f32_mul 0x42480000 0x42480000 = 0x451C4000"
  "f32_add 0x80000000 0x451C4000 = 0x451C4000"
  "f32_add 0x451C4000 0x451C4000 = 0x459C4000"
  "f32_add 0x459C4000 0x451C4000 = 0x45EA6000"
  "f32_add 0x45EA6000 0x451C4000 = 0x461C4000"
  "f32_add 0x461C4000 0x451C4000 = 0x46435000"
  "f32_add 0x46435000 0x451C4000 = 0x466A6000"
  "f32_add 0x466A6000 0x451C4000 = 0x4688B800"
  "f32_add 0x4688B800 0x451C4000 = 0x469C4000"
  "f32_add 0x469C4000 0x451C4000 = 0x46AFC800"
  "f32_add 0x46AFC800 0x451C4000 = 0x46C35000"
  "f32_add 0x46C35000 0x451C4000 = 0x46D6D800"
  "f32_add 0x46D6D800 0x451C4000 = 0x46EA6000"
  "f32_add 0x46EA6000 0x451C4000 = 0x46FDE800"
  "f32_add 0x46FDE800 0x451C4000 = 0x4708B800"
  "f32_add 0x4708B800 0x451C4000 = 0x47127C00"
  "f32_add 0x47127C00 0x451C4000 = 0x471C4000"
  "f32_sqrt 0x471C4000 = 0x43480000"
  by (simp_all add: float_eval)
lemma normal_norm_ops:
  "f32_mul 0x3DCCCCCD 0x3DCCCCCD = 0x3C23D70B"
  "f32_add 0x80000000 0x3C23D70B = 0x3C23D70B"
  "f32_add 0x3C23D70B 0x3C23D70B = 0x3CA3D70B"
  "f32_add 0x3CA3D70B 0x3C23D70B = 0x3CF5C290"
  "f32_add 0x3CF5C290 0x3C23D70B = 0x3D23D70B"
  "f32_add 0x3D23D70B 0x3C23D70B = 0x3D4CCCCE"
  "f32_add 0x3D4CCCCE 0x3C23D70B = 0x3D75C291"
  "f32_add 0x3D75C291 0x3C23D70B = 0x3D8F5C2A"
  "f32_add 0x3D8F5C2A 0x3C23D70B = 0x3DA3D70B"
  "f32_add 0x3DA3D70B 0x3C23D70B = 0x3DB851EC"
  "f32_add 0x3DB851EC 0x3C23D70B = 0x3DCCCCCD"
  "f32_add 0x3DCCCCCD 0x3C23D70B = 0x3DE147AE"
  "f32_add 0x3DE147AE 0x3C23D70B = 0x3DF5C28F"
  "f32_add 0x3DF5C28F 0x3C23D70B = 0x3E051EB8"
  "f32_add 0x3E051EB8 0x3C23D70B = 0x3E0F5C29"
  "f32_add 0x3E0F5C29 0x3C23D70B = 0x3E19999A"
  "f32_add 0x3E19999A 0x3C23D70B = 0x3E23D70B"
  "f32_sqrt 0x3E23D70B = 0x3ECCCCCD"
  by (simp_all add: float_eval)

lemma high_norm: "f32_norm (replicate 16 0x42480000) = 0x43480000"
  by (simp add: f32_norm_def f32_sum_def f32_neg_zero_def high_norm_ops replicates)

lemma normal_norm: "f32_norm (replicate 16 0x3DCCCCCD) = 0x3ECCCCCD"
  by (simp add: f32_norm_def f32_sum_def f32_neg_zero_def normal_norm_ops replicates)

lemma firewall_comparisons:
  "f32_less 0x41200000 0x43480000" "\<not> f32_less 0x447A0000 0x3ECCCCCD"
  by (simp_all add: float_eval)

lemma test_firewall_rejects_high_norm_ok: "test_firewall_rejects_high_norm read json = Ok ()"
  unfolding test_firewall_rejects_high_norm_def float_values firewall_new_def check_vector_def
  by (simp add: high_norm firewall_comparisons)

lemma test_firewall_accepts_normal_vector_ok: "test_firewall_accepts_normal_vector read json = Ok ()"
  unfolding test_firewall_accepts_normal_vector_def float_values firewall_new_def check_vector_def
  by (simp add: normal_norm firewall_comparisons)

section \<open>Provenance tags\<close>

definition roundtrip_packet :: "nat option \<Rightarrow> primitive_packet" where
  "roundtrip_packet clock =
     \<lparr>version = APTP_VERSION, sender_id = ''test-agent'', model_fingerprint = replicate 32 0xAB,
      layer_index = 8, payload = HiddenState (replicate 128 (f32_lit 1 2)),
      pkt_shape = \<lparr>dims = [1, 1, 128]\<rparr>, pkt_metadata = metadata_new_now clock ''test-session'' 0\<rparr>"

text \<open>\<open>HiddenState(v) => v[0] = -99.0\<close>\<close>

fun forge :: "primitive_payload \<Rightarrow> (primitive_payload, unit) outcome" where
  "forge (HiddenState v) = (if v = [] then Panic else Ok (HiddenState (v[0 := 0xC2C60000])))"
| "forge _ = Panic"

definition test_tagged_primitive_provenance_roundtrip ::
  "(u8 list \<Rightarrow> u8 list) \<Rightarrow> nat option \<Rightarrow> (unit, unit) outcome" where
  "test_tagged_primitive_provenance_roundtrip sha clock =
     and_then (unwrap (tagged_new sha (roundtrip_packet clock) (f32_lit 9 10))) (\<lambda>tagged.
     and_then (unwrap (verify_provenance sha tagged)) (\<lambda>ok.
     and_then (assert_that ok) (\<lambda>_.
     and_then (forge (payload (tag_packet tagged))) (\<lambda>forged.
     and_then (unwrap (verify_provenance sha (tagged\<lparr>tag_packet := (tag_packet tagged)\<lparr>payload := forged\<rparr>\<rparr>)))
       (\<lambda>ok. assert_that (\<not> ok))))))"

definition forged_packet :: "nat option \<Rightarrow> primitive_packet" where
  "forged_packet clock =
     (roundtrip_packet clock)\<lparr>payload := HiddenState (0xC2C60000 # replicate 127 (f32_lit 1 2))\<rparr>"

lemma replicate_128: "replicate 128 x = x # replicate 127 x"
  using replicate_Suc [of 127 x] by simp

lemma forged_input_differs: "provenance_input (forged_packet clock) \<noteq> provenance_input (roundtrip_packet clock)"
proof
  have half: "f32_lit 1 2 = 0x3F000000" by (simp add: float_eval)
  assume "provenance_input (forged_packet clock) = provenance_input (roundtrip_packet clock)"
  then have "f32_memory (0xC2C60000 # replicate 127 (f32_lit 1 2)) =
      f32_memory (f32_lit 1 2 # replicate 127 (f32_lit 1 2))"
    by (simp add: provenance_input_def forged_packet_def roundtrip_packet_def replicate_128)
  then have "le_bytes 0xC2C60000 = le_bytes (f32_lit 1 2)"
    by (simp add: f32_memory_def)
  then show False using half by (simp add: le_bytes_inj)
qed

lemma test_tagged_primitive_provenance_roundtrip_ok:
  "test_tagged_primitive_provenance_roundtrip sha clock = Ok () \<longleftrightarrow>
     sha (provenance_input (forged_packet clock)) \<noteq> sha (provenance_input (roundtrip_packet clock))"
proof -
  have p: "forge (payload (roundtrip_packet clock)) = Ok (HiddenState (0xC2C60000 # replicate 127 (f32_lit 1 2)))"
    by (simp add: roundtrip_packet_def replicate_128)
  show ?thesis
    by (simp add: test_tagged_primitive_provenance_roundtrip_def p forged_packet_def)
qed

section \<open>Model fingerprints\<close>

definition test_compute_fingerprint_is_deterministic :: "(u8 list \<Rightarrow> u8 list) \<Rightarrow> (unit, unit) outcome" where
  "test_compute_fingerprint_is_deterministic sha =
     (let a = compute_model_fingerprint sha ''/models/llama.gguf'' 32000 4096 32 32;
          b = compute_model_fingerprint sha ''/models/llama.gguf'' 32000 4096 32 32
      in assert_that (a = b))"

definition test_compute_fingerprint_changes_with_params :: "(u8 list \<Rightarrow> u8 list) \<Rightarrow> (unit, unit) outcome" where
  "test_compute_fingerprint_changes_with_params sha =
     (let a = compute_model_fingerprint sha ''/models/llama.gguf'' 32000 4096 32 32;
          b = compute_model_fingerprint sha ''/models/llama.gguf'' 32001 4096 32 32
      in assert_that (a \<noteq> b))"

section \<open>All of them\<close>

definition fingerprint_input :: "u32 \<Rightarrow> u8 list" where
  "fingerprint_input n_vocab =
     string_bytes ''/models/llama.gguf'' @ le_bytes n_vocab @ le_bytes 4096 @ le_bytes 32 @ le_bytes 32"

text \<open>
  The crate's own unit tests pass on the model, evaluated in binary32: the two linear
  projections, the two firewall verdicts with whatever files there are, the property test for any
  dimensions it draws (1 to 63), and, for a digest that does not collide on the two inputs
  compared, the forged tag and the changed fingerprint.
\<close>

lemma unit_tests_pass:
  assumes "0 < unat s" and "unat s < 64" and "unat t < 64"
    and "sha (provenance_input (forged_packet clock)) = sha (provenance_input (roundtrip_packet clock)) \<Longrightarrow>
      provenance_input (forged_packet clock) = provenance_input (roundtrip_packet clock)"
    and "sha (fingerprint_input 32000) = sha (fingerprint_input 32001) \<Longrightarrow>
      fingerprint_input 32000 = fingerprint_input 32001"
  shows "test_linear_projection_identity_2d = Ok () \<and> test_linear_projection_upscale = Ok () \<and>
     linear_adapter_output_length s t = Ok () \<and>
     test_firewall_rejects_high_norm read json = Ok () \<and>
     test_firewall_accepts_normal_vector read json = Ok () \<and>
     test_tagged_primitive_provenance_roundtrip sha clock = Ok () \<and>
     test_compute_fingerprint_is_deterministic sha = Ok () \<and>
     test_compute_fingerprint_changes_with_params sha = Ok ()"
proof -
  have "unat s * unat t \<le> 63 * 63" using assms(2,3) by (intro mult_le_mono) auto
  then have "unat s * unat t < 2 ^ 61" by simp
  then have "linear_adapter_output_length s t = Ok ()" using assms(1) by (rule linear_adapter_output_length_ok)
  moreover have "test_tagged_primitive_provenance_roundtrip sha clock = Ok ()"
    using assms(4) forged_input_differs by (auto simp: test_tagged_primitive_provenance_roundtrip_ok)
  moreover have "fingerprint_input 32000 \<noteq> fingerprint_input 32001"
    by (simp add: fingerprint_input_def le_bytes_inj append_eq_append_conv)
  then have "sha (fingerprint_input 32000) \<noteq> sha (fingerprint_input 32001)" using assms(5) by blast
  then have "test_compute_fingerprint_changes_with_params sha = Ok ()"
    by (simp add: test_compute_fingerprint_changes_with_params_def compute_model_fingerprint_def fingerprint_input_def)
  ultimately show ?thesis
    by (simp add: test_linear_projection_identity_2d_ok test_linear_projection_upscale_ok
        test_firewall_rejects_high_norm_ok test_firewall_accepts_normal_vector_ok
        test_compute_fingerprint_is_deterministic_def)
qed

lemma unit_tests_pass_witness:
  "linear_adapter_output_length 63 63 = Ok () \<and>
   test_tagged_primitive_provenance_roundtrip id None = Ok () \<and>
   test_compute_fingerprint_changes_with_params id = Ok ()"
  using unit_tests_pass [of 63 63 id None "\<lambda>_. Inl []" "\<lambda>_. Inl []"] by simp

end
