(* ===== verification/Integration_Test.thy ===== *)
theory Integration_Test
  imports System Unit_Tests
begin

text \<open>
  The integration test of the repository, \<open>tests/integration_handshake.rs\<close>: a server with a
  sink of 8 places and a client on a loopback connection, a handshake, and a finalize that
  answers 0. Digest, channel, UUID, clock and the display of foreign errors stay open.
\<close>

definition test_config :: "string \<Rightarrow> string \<Rightarrow> aptp_config" where
  "test_config bind agent =
     \<lparr>cfg_transport = \<lparr>bind_addr = bind, connect_timeout_ms = 5000, max_frame_bytes = 67108864, tls = None\<rparr>,
      cfg_validation = \<lparr>l2_norm_max = f32_lit 1000 1, cosine_sim_min = 0xBF733333,
        fairness_threshold = f32_lit 1 10, probe_vectors_path = None\<rparr>,
      cfg_adapter = \<lparr>allow_dimension_mismatch_passthrough = False\<rparr>,
      cfg_agent = \<lparr>cfg_agent_id = agent, cfg_model_family = ''llama'', cfg_hidden_size = 4096,
        cfg_num_layers = 32, cfg_num_heads = 32, cfg_vocab_size = 32000, cfg_aptp_version = 1\<rparr>,
      cfg_backend = None\<rparr>"

text \<open>The accepted connection: its own server, no call served yet.\<close>

definition accepted :: "'ch rpc_server \<Rightarrow> 'ch link" where
  "accepted srv = \<lparr>ln_server = srv, ln_counter = 0, ln_handshakes = 0\<rparr>"

definition integration_handshake ::
  "display_env \<Rightarrow> (u8 list \<Rightarrow> u8 list) \<Rightarrow> 'ch mpsc \<Rightarrow> (string \<Rightarrow> string + string)
     \<Rightarrow> (string \<Rightarrow> string + f32 list) \<Rightarrow> string \<Rightarrow> nat option \<Rightarrow> string \<Rightarrow> (unit, unit) outcome" where
  "integration_handshake D sha M read json uuid now addr =
     and_then (unwrap (rpc_server_new read json M (test_config ''127.0.0.1:0'' ''server'') 8)) (\<lambda>rpc_server.
     let R = linked D sha M (\<lambda>_. uuid) (\<lambda>_. now);
         client_cfg = test_config addr ''test-client'';
         crd = new_from_config [] (cfg_agent client_cfg)
     in and_then (unwrap (connect (\<lambda>a. Inr [a]) Inr (\<lambda>_. Inr (accepted rpc_server)) client_cfg)) (\<lambda>(client, net).
        case client_handshake D R crd client net of (r, client', net') \<Rightarrow>
          and_then (unwrap r) (\<lambda>session_id.
          and_then (assert_that (session_id \<noteq> [])) (\<lambda>_.
          and_then (unwrap (fst (client_finalize R client' net'))) (\<lambda>n.
            assert_that (n = 0))))))"

text \<open>
  The test passes on the model: whatever the digest, the channel (as long as it can be made), the
  clock and the non-empty UUID, which is the assigned session.
\<close>

lemma integration_handshake_passes:
  assumes "chan_new M 8 = Some ch" and "uuid \<noteq> []" and "utf8 uuid"
  shows "integration_handshake D sha M read json uuid now addr = Ok ()"
proof -
  let ?cfg = "test_config addr ''test-client''" and ?R = "linked D sha M (\<lambda>_. uuid) (\<lambda>_. now)"
  let ?c = "new_from_config [] (cfg_agent ?cfg)"
  obtain srv where s: "rpc_server_new read json M (test_config ''127.0.0.1:0'' ''server'') 8 = Ok srv"
    using assms(1) by (simp add: rpc_server_new_def firewall_new_def sink_new_def test_config_def)
  have u: "card_utf8 ?c" by (simp add: card_utf8_def new_from_config_def test_config_def ascii_utf8)
  have l: "length (capabilities ?c) < 2 ^ 29" by (simp add: new_from_config_def)
  have v: "aptp_version ?c = APTP_VERSION" by (simp add: new_from_config_def test_config_def APTP_VERSION_def)
  obtain cl net where h: "client_handshake D ?R ?c no_session (accepted srv) = (Ok uuid, cl, net)"
    using link_handshake [OF u l v, of "\<lambda>_. uuid" "accepted srv" D sha M "\<lambda>_. now" no_session] assms(3) by auto
  have "fst (client_finalize ?R cl net) = Ok 0"
    using link.session_total [OF h, of "[]" "[]" cl net] by simp
  then show ?thesis
    using assms(2) h by (simp add: integration_handshake_def s connect_def connect_to_def Let_def
        no_session_def [symmetric] test_config_def [symmetric])
qed

lemma integration_handshake_passes_witness:
  "integration_handshake no_env id list_mpsc no_file no_json ''s'' None ''127.0.0.1:7878'' = Ok ()"
  using integration_handshake_passes [of list_mpsc "([], True)" "''s''"]
  by (simp add: list_mpsc_def ascii_utf8)

end
