(* ===== verification/Build.thy ===== *)
theory Build
  imports Prelude
begin

text \<open>
  The build script \<open>build.rs\<close>: it compiles the schema and, with the feature
  \<open>backend-llama\<close>, the C shim. The schema compiler and the C compiler are parameters (whether
  they succeed; a failure ends the script in a panic), \<open>env\<close> is \<open>std::env::var\<close> where it
  gives a value. The result is what the script prints for cargo.
\<close>

record cc_build =
  cc_files :: "string list"
  cc_flags_if_supported :: "string list"
  cc_includes :: "string list"

definition shim_build :: "(string \<Rightarrow> string option) \<Rightarrow> cc_build" where
  "shim_build env =
     \<lparr>cc_files = [''include/aptp_llama_shim.c''], cc_flags_if_supported = [''-Wno-unused-parameter''],
      cc_includes = (case env ''LLAMA_CPP_DIR'' of Some dir \<Rightarrow> [dir] | None \<Rightarrow> [])\<rparr>"

definition build_main ::
  "(string \<Rightarrow> bool) \<Rightarrow> (cc_build \<Rightarrow> string \<Rightarrow> bool) \<Rightarrow> (string \<Rightarrow> string option) \<Rightarrow> (string list, unit) outcome" where
  "build_main capnpc cc env =
     (if \<not> capnpc ''schemas/aptp.capnp'' then Panic
      else if env ''CARGO_FEATURE_BACKEND_LLAMA'' = None then Ok []
      else if \<not> cc (shim_build env) ''aptp_shim'' then Panic
      else Ok [''cargo:rustc-link-lib=llama'', ''cargo:rerun-if-env-changed=LLAMA_CPP_DIR''])"

text \<open>Without the feature a build needs neither a C compiler nor llama.cpp.\<close>

lemma default_build_needs_no_shim:
  "env ''CARGO_FEATURE_BACKEND_LLAMA'' = None \<Longrightarrow>
     build_main capnpc cc env = (if capnpc ''schemas/aptp.capnp'' then Ok [] else Panic)"
  by (simp add: build_main_def)

text \<open>llama is linked exactly when both compilers succeed and the feature is on.\<close>

lemma links_llama_iff:
  "(\<exists>out. build_main capnpc cc env = Ok out \<and> ''cargo:rustc-link-lib=llama'' \<in> set out) \<longleftrightarrow>
     capnpc ''schemas/aptp.capnp'' \<and> env ''CARGO_FEATURE_BACKEND_LLAMA'' \<noteq> None \<and>
     cc (shim_build env) ''aptp_shim''"
  by (auto simp: build_main_def)

end
