(* ===== verification/Spec2Isabelle.thy ===== *)
theory Spec2Isabelle
  imports System Interleave Isolation Backpressure Demo Seeds Pipeline Integration_Test Build
begin

text \<open>
  A verification library for \<open>aptp\<close>, the Agent-Primitive Transfer Protocol in Rust: agents
  exchange model-native vectors (hidden states, key/value cache slices, latent thoughts) over
  Cap'n Proto RPC. Paths below are relative to the crate (\<open>src/\<close> of the repository).

  \<^bold>\<open>The program and its theories.\<close> Each theory holds the definitions of one part, in
  the order of the code, the lemmas about them and the properties of that part.

  \<^item> \<open>Prelude\<close>: machine integers, the outcome of a Rust computation (\<open>Ok\<close>, \<open>Err\<close>,
    \<open>Panic\<close>, \<open>UB\<close>), slices, casts, list buffers. \<open>Text\<close>: decimal display, UTF-8
    validation, lines and blank lines of the standard library.
  \<^item> \<open>Float_Core\<close>, \<open>Floats\<close>, \<open>Float_Facts\<close>: IEEE-754 binary32 and binary64 as bit
    patterns with round-to-nearest-even, executable, with monotonicity, NaN and norm facts.
  \<^item> \<open>Errors\<close> (\<open>error.rs\<close>) and \<open>Config\<close> (\<open>config.rs\<close>).
  \<^item> \<open>Primitives\<close> (\<open>primitives.rs\<close>): payloads, packets, metadata, agent cards,
    provenance tags. \<open>Wire\<close> (same file): packets and cards from Cap'n Proto readers, and
    the messages that \<open>packet_to_bytes\<close> builds.
  \<^item> \<open>Adapters\<close> (\<open>adapter/\<close>): the trait, the linear projection, norm matching, the
    factory. \<open>Negotiate\<close> (\<open>rpc/negotiate.rs\<close>): the Kaiming weights and the negotiation.
  \<^item> \<open>Validation\<close> (\<open>validation/\<close>): the safety probe and the neural firewall.
  \<^item> \<open>Sessions\<close> (\<open>rpc/mod.rs\<close>): the session registry. \<open>Rpc\<close> (\<open>rpc/\<close>): handshake
    and stream handlers, the packet sink, the server object and its four methods.
  \<^item> \<open>Server\<close> (\<open>transport/server.rs\<close>, \<open>bin/aptp-server.rs\<close>): calls on a connection,
    and the process as a step relation over connections. \<open>Interleave\<close> (\<open>rpc/stream.rs\<close>): the
    stream handler suspended between delivery and counting. \<open>Client\<close>
    (\<open>transport/client.rs\<close>, \<open>bin/aptp-client.rs\<close>). \<open>System\<close>: a client connected to a
    server. \<open>Backend\<close> (\<open>backend/\<close>): the llama.cpp backend and its packets.
  \<^item> \<open>Backpressure\<close> (\<open>rpc/stream.rs\<close>): the handler over a bounded channel, its calls waiting
    for a place, resumed in any order. \<open>Isolation\<close> (\<open>transport/server.rs\<close>): a connection
    replayed on its own. \<open>Seeds\<close> (\<open>rpc/negotiate.rs\<close>): the weight counter over the
    life of a process. \<open>Demo\<close> (\<open>bin/aptp-client.rs\<close>): runs of the demo program. \<open>Pipeline\<close>:
    from inference to the sink, and from a dimension mismatch to an adapter. \<open>Unit_Tests\<close>,
    \<open>Integration_Test\<close>: the tests of the crate, run on the model. \<open>Build\<close> (\<open>build.rs\<close>).

  \<^bold>\<open>Interfaces.\<close> The locales are the contracts between the parts, each interpreted on
  the model: \<open>manifold_adapter\<close> (the adapter trait), \<open>validation_gate\<close> (what the stream
  handler needs of a firewall), \<open>session_store\<close> and \<open>session_store_inv\<close> (the registry),
  \<open>remote_peer\<close> (what a client needs of a server, interpreted on the connected server) and
  \<open>primitive_extractor\<close> (the backend trait).

  \<^bold>\<open>What the lemmas show.\<close> The firewall accepts exactly what its two comparisons accept,
  with the consequences for long vectors, infinities and NaN; the registry counts and the
  server refines a specification over counts alone; an acknowledgement means validated,
  delivered and counted, and the total of a session is the number of acknowledgements a client
  saw; connections are isolated: what one holds and answers is a function of its own calls, the
  values of negotiated weights apart;
  packets survive the wire; provenance tags protect the hashed prefix and nothing else; linear
  adapters are matrix-vector products and negotiated weights give usable adapters inside the
  Kaiming bound; inference stays inside the memory of its shim, and if the sizes of the model
  and those the shim reports are below the limit of a list, whatever it returns makes a packet
  the client can serialise. Over a bounded channel no packet is lost or duplicated, a
  receiver that takes nothing stalls every call beyond the capacity, and one that keeps
  receiving lets every accepted call finish with the answer it is owed, in a number of steps
  bounded by a measure; a call that is served promptly has the outcome of the atomic handler,
  whatever other calls wait. The demo program makes at most 102 calls and reports
  100 when it ends well. A peer of another dimension is led by the handshake and the negotiation
  to an adapter that works, unless one of the dimensions is 0. Negotiations of a process at one
  clock reading have different seeds; at different readings two of them can share one. Where the code
  does not do what its documentation says the properties state what it does: the shipped server
  drops the receiver of its packet channel and so never acknowledges, large negotiations and
  models without heads panic, NaN passes the firewall, the adapter of a session is never applied.

  \<^bold>\<open>Conventions.\<close> A 64-bit little-endian target and the release profile: unchecked
  integer arithmetic wraps. Floats are bit patterns; every NaN an operation produces is the
  canonical one; a float sum starts at negative zero. \<open>Vec\<close> allocation panics beyond
  \<open>isize::MAX\<close> bytes; running out of memory is not modelled. Loops are structural recursions
  on the list or range the code iterates, so no fuel is used; every definition is total.

  \<^bold>\<open>Parameters.\<close> SHA-256, UUIDs, the clock, files, TOML and JSON parsing, name resolution and
  TCP, the \<open>mpsc\<close> channel (in \<open>Rpc\<close> its resolved sends, in \<open>Backpressure\<close> the polls of a
  bounded channel with its documented laws \<open>bounded_chan\<close>), the accessors generated from the
  schema (as records of what each getter returns, errors included), the packed serializer, the C
  shim and the display of foreign errors. Hypotheses about them are stated where they are used.

  \<^bold>\<open>Not modelled.\<close> Logging; the RPC system below the calls; the limit of Cap'n
  Proto on the bytes of one text or one blob (that on the elements of a list, \<open>2 ^ 29\<close>, is
  modelled in \<open>Wire\<close>) and the memory of a message; the order in which the channel serves
  waiting senders (it is first in, first out; here any of them may take a free place, which
  allows more runs) and in which the executor polls calls; the cancelling of the waiting calls
  of a connection that closes; the C shim, the schema and the benchmark. In \<open>Server\<close> the calls of one connection
  run one after the other; \<open>Interleave\<close> splits the stream handler at its second await, the only
  handler with two critical sections, and \<open>Backpressure\<close> at its first as well. The accept loop
  never returns except by an error, so it is a relation, not a function.
\<close>

section \<open>The client against the server\<close>

lemma ascii_version_reason: "ascii (version_reason v)"
  by (simp add: version_reason_def)

text \<open>
  Property C31. The version gate seen from the client: a peer of another protocol version gets
  the error \<open>HandshakeRejected\<close> with the server's reason, which names both versions, and the
  server is unchanged. The client is unchanged too: if it had no session it has none, and
  sending fails at once, without a call; a session of an earlier handshake is kept.
\<close>

theorem version_mismatch_reported:
  assumes "card_utf8 c" and "length (capabilities c) < 2 ^ 29" and "aptp_version c \<noteq> APTP_VERSION"
  shows "client_handshake D (linked D sha M fresh clock) c cl ln =
      (Err (HandshakeRejected (version_reason (aptp_version c))), cl, ln\<lparr>ln_handshakes := ln_handshakes ln + 1\<rparr>) \<and>
    (cl_session_id cl = None \<longrightarrow>
      (\<forall>p ln'. send_primitive (linked D sha M fresh clock) p cl ln' =
         (Err (Internal ''handshake not completed''), cl, ln')))"
proof -
  have r: "str_or_unknown (version_reason v) = version_reason v" for v
    using ascii_utf8 [OF ascii_version_reason] by (simp add: str_or_unknown_def)
  have "client_handshake D (linked D sha M fresh clock) c cl ln =
    (Err (HandshakeRejected (version_reason (aptp_version c))), cl, ln\<lparr>ln_handshakes := ln_handshakes ln + 1\<rparr>)"
    using assms(3) r
    by (cases "ln_server ln", cases ln)
      (simp add: client_handshake_def card_request_fits [OF assms(2)] linked_def rpc_handshake_def
        card_from_reader [OF assms(1)] handshake_handle_def read_handshake_def handshake_reader_of_def)
  then show ?thesis by (simp add: send_primitive_def)
qed

definition sample_agent :: agent_card where
  "sample_agent =
     \<lparr>agent_id = ''b'', aptp_version = APTP_VERSION, hidden_size = 1, num_layers = 1, num_heads = 1,
      vocab_size = 1, model_family = ''m'', capabilities = []\<rparr>"

definition sample_link :: "bool \<Rightarrow> (tagged_primitive list \<times> bool) link" where
  "sample_link alive =
     \<lparr>ln_server = sample_server\<lparr>srv_sink := ([], alive)\<rparr>, ln_counter = 0, ln_handshakes = 0\<rparr>"

definition sample_remote :: "(tagged_primitive list \<times> bool) link remote" where
  "sample_remote = linked no_env id list_mpsc (\<lambda>_. ''s'') (\<lambda>_. None)"

lemma sample_agent_utf8: "card_utf8 sample_agent"
  by (simp add: card_utf8_def sample_agent_def ascii_utf8)

theorem version_mismatch_reported_witness:
  "client_handshake no_env (linked no_env id list_mpsc (\<lambda>_. ''s'') (\<lambda>_. None))
     (sample_agent\<lparr>aptp_version := 2\<rparr>) no_session (sample_link True) =
   (Err (HandshakeRejected (version_reason 2)), no_session, (sample_link True)\<lparr>ln_handshakes := 1\<rparr>)"
  using version_mismatch_reported [of "sample_agent\<lparr>aptp_version := 2\<rparr>" no_env id list_mpsc
      "\<lambda>_. ''s''" "\<lambda>_. None" no_session "sample_link True"] sample_agent_utf8
  by (simp add: card_utf8_def sample_agent_def APTP_VERSION_def sample_link_def)

text \<open>
  Property C30. A handshake that fits succeeds: a peer of this protocol version whose card is
  well formed is assigned the fresh id, the client keeps it as its session, and the server
  has that session open with count 0 for that peer.
\<close>

theorem handshake_succeeds:
  assumes "card_utf8 c" and "length (capabilities c) < 2 ^ 29" and "aptp_version c = APTP_VERSION"
    and "utf8 (fresh (ln_handshakes ln))"
  shows "\<exists>ln'. client_handshake D (linked D sha M fresh clock) c cl ln =
      (Ok (fresh (ln_handshakes ln)), cl\<lparr>cl_session_id := Some (fresh (ln_handshakes ln))\<rparr>, ln') \<and>
    link_count ln' = (link_count ln)(fresh (ln_handshakes ln) \<mapsto> 0) \<and>
    map_option ss_peer_agent_id (srv_sessions (ln_server ln') (fresh (ln_handshakes ln))) = Some (agent_id c)"
  using assms by (rule link_handshake)

theorem handshake_succeeds_witness:
  "\<exists>ln'. client_handshake no_env (linked no_env id list_mpsc (\<lambda>_. ''s'') (\<lambda>_. None)) sample_agent no_session
      (sample_link True) = (Ok ''s'', no_session\<lparr>cl_session_id := Some ''s''\<rparr>, ln')"
  using handshake_succeeds [of sample_agent "\<lambda>_. ''s''" "sample_link True" no_env id list_mpsc "\<lambda>_. None" no_session]
    sample_agent_utf8
  by (auto simp: sample_agent_def ascii_utf8)

section \<open>Delivery\<close>

text \<open>
  Property C2. What is sent is what is delivered: over an open session and a sink that takes
  the packet, a well-formed packet is acknowledged exactly when the server's firewall accepts
  its payload; then the sink has received that very packet with its provenance tag, and
  otherwise the answer is \<open>false\<close> and the server is unchanged.
\<close>

theorem sent_is_delivered:
  assumes "cl_session_id cl = Some own" and "packet_fits p" and "packet_utf8 p"
    and "session_id (pkt_metadata p) \<in> dom (srv_sessions (ln_server ln))"
    and "chan_send M (tag_of sha p) (srv_sink (ln_server ln)) = Some ch"
    and "send_primitive (linked D sha M fresh clock) p cl ln = (r, cl', ln')"
  shows "r = Ok (is_ok (validate (srv_firewall (ln_server ln)) (payload p))) \<and>
    (if r = Ok True then srv_sink (ln_server ln') = ch else ln_server ln' = ln_server ln)"
  using assms by (rule delivered)

theorem sent_is_delivered_witness:
  "fst (send_primitive (linked no_env id list_mpsc (\<lambda>_. ''s'') (\<lambda>_. None)) sample_packet with_session open_link)
     = Ok True"
proof -
  obtain r cl' ln' where s: "send_primitive (linked no_env id list_mpsc (\<lambda>_. ''s'') (\<lambda>_. None))
      sample_packet with_session open_link = (r, cl', ln')"
    by (metis prod_cases3)
  have "r = Ok (is_ok (validate (srv_firewall (ln_server open_link)) (payload sample_packet)))"
    using sent_is_delivered [OF _ sample_packet_fits sample_packet_utf8 _ _ s, of "''s''"
        "([tag_of id sample_packet], True)"]
    by (simp add: with_session_def open_link_def live_server_def open_server_def session_of_sample list_mpsc_def)
  then show ?thesis
    using s plain_accepts_sample by (simp add: open_link_def live_server_def open_server_def sample_server_def)
qed

text \<open>
  Property C1. The total at the end of a session is what the client saw acknowledged: after a
  successful handshake and any list of packets sent one after the other, \<open>finalize\<close> returns
  the number of sends that were answered \<open>true\<close> for a packet naming the session (modulo
  \<open>2 ^ 64\<close>), whatever the firewall rejected or the channel refused in between.
\<close>

theorem end_to_end_total:
  assumes "client_handshake D (linked D sha M fresh clock) c cl ln = (Ok sid, cl1, ln1)"
    and "send_all (linked D sha M fresh clock) ps cl1 ln1 = (rs, cl2, ln2)"
  shows "fst (client_finalize (linked D sha M fresh clock) cl2 ln2) =
    Ok (word_of_nat (length (filter (\<lambda>(p, r). acked_in sid p r) (zip ps rs))))"
  using assms by (rule link.session_total)

lemma sample_session_opened:
  "client_handshake no_env (linked no_env id list_mpsc (\<lambda>_. ''s'') (\<lambda>_. None)) sample_agent no_session
     (sample_link True) = (Ok ''s'', with_session, open_link)"
proof -
  have u: "utf8 ''s''" by (simp add: ascii_utf8)
  have c: "length (capabilities sample_agent) < 2 ^ 29" by (simp add: sample_agent_def)
  have v: "aptp_version sample_agent = APTP_VERSION" "hidden_size sample_agent = 1" "agent_id sample_agent = ''b''"
    by (simp_all add: sample_agent_def)
  show ?thesis using u
    by (simp add: client_handshake_def card_request_fits [OF c] linked_def rpc_handshake_def sample_link_def
        card_from_reader [OF sample_agent_utf8] v card_from_reader [OF sample_agent_utf8, unfolded v]
        handshake_handle_def read_handshake_def handshake_reader_of_def no_session_def with_session_def
        handler_simps open_link_def live_server_def open_server_def sample_session_def sample_server_def
        sample_config_def nanos_u64_def)
qed

lemma sample_reader_eq: "packet_reader_of (msg_of_packet sample_packet) = sample_reader"
  by (simp add: packet_reader_of_def msg_of_packet_def sample_packet_def sample_reader_def APTP_VERSION_def)

theorem end_to_end_total_witness:
  "\<exists>cl ln. send_all (linked no_env id list_mpsc (\<lambda>_. ''s'') (\<lambda>_. None)) [sample_packet] with_session open_link
       = ([Ok True], cl, ln) \<and>
     fst (client_finalize (linked no_env id list_mpsc (\<lambda>_. ''s'') (\<lambda>_. None)) cl ln) = Ok 1"
proof -
  obtain r cl ln where p: "send_primitive (linked no_env id list_mpsc (\<lambda>_. ''s'') (\<lambda>_. None)) sample_packet
      with_session open_link = (r, cl, ln)"
    by (metis prod_cases3)
  then have s: "send_all (linked no_env id list_mpsc (\<lambda>_. ''s'') (\<lambda>_. None)) [sample_packet] with_session
      open_link = ([r], cl, ln)" by simp
  have "cl_session_id with_session = Some ''s''" by (simp add: with_session_def)
  then have "r = Ok True"
    using p by (auto simp: send_primitive_sent [OF _ sample_packet_fits] link_stream sample_reader_eq sample_live_stream open_link_def)
  then show ?thesis
    using s end_to_end_total [OF sample_session_opened s]
    by (auto simp: acked_in_def session_of_sample)
qed

section \<open>The shipped pair\<close>

lemma dead_link_handshake:
  assumes "dead_sink M (ln_server ln)"
  shows "dead_sink M (ln_server (snd (call_handshake (linked D sha M fresh clock) c ln)))"
proof -
  let ?q = "HandshakeReq (fresh (ln_handshakes ln)) (clock (ln_handshakes ln)) (Inr (Inr (card_reader_of c)))"
  obtain r srv k where s: "serve D sha M ?q (ln_server ln) (ln_counter ln) = (r, srv, k)"
    by (metis prod_cases3)
  then have "dead_sink M srv" using dead_sink_serve(1) [OF assms, of D sha ?q "ln_counter ln"] by (metis fst_conv snd_conv)
  then show ?thesis using s by (simp add: linked_def del: serve.simps)
qed

lemma client_handshake_link:
  assumes "client_handshake D R c cl n = (Ok sid, cl', n')"
  shows "\<exists>msg. n' = snd (call_handshake R msg n)"
proof (cases "card_request c")
  case (Ok msg)
  then show ?thesis
    using assms by (auto simp: client_handshake_def split: prod.splits outcome.splits if_splits)
      (metis snd_conv)
qed (use assms in \<open>simp_all add: client_handshake_def\<close>)

lemma dead_link_send:
  assumes "dead_sink M (ln_server ln)"
  shows "fst (send_primitive (linked D sha M fresh clock) p cl ln) \<noteq> Ok True"
proof (cases "cl_session_id cl")
  case None
  then show ?thesis by (simp add: send_primitive_def)
next
  case (Some own)
  show ?thesis
  proof (cases "packet_fits p")
    case True
    then show ?thesis
      using dead_sink_stream [OF assms, of D sha "Inr (Inr (packet_reader_of (msg_of_packet p)))"]
      by (auto simp: send_primitive_sent [OF Some] link_stream)
  next
    case False
    then show ?thesis by (simp add: send_primitive_too_long [OF Some])
  qed
qed

lemma demo_loop_first:
  assumes "\<And>p. fst (send_primitive R p cl n) \<noteq> Ok True"
  shows "\<not> is_ok (fst (demo_loop R clock cfg sid (i # is) cl n))"
proof (cases "demo_packet (clock i) cfg sid i")
  case (Ok p)
  obtain r cl' n' where s: "send_primitive R p cl n = (r, cl', n')" by (metis prod_cases3)
  then have "r \<noteq> Ok True" using assms [of p] by simp
  then show ?thesis using Ok s by (cases r) auto
qed simp_all

text \<open>
  Property C29. The demo program cannot succeed against the shipped server: with a channel
  that refuses sends once its receiver is dropped, a run against a server made by
  \<open>AptpRpcServer::new\<close> ends in an error or a failed assertion, for every configuration of
  either side, and never prints a total.
\<close>

theorem demo_fails_on_shipped_server:
  assumes "\<And>n ch t. chan_new M n = Some ch \<Longrightarrow> chan_send M t (chan_drop_rx M ch) = None"
    and "rpc_server_new read json M server_cfg sink_buffer_size = Ok srv"
  shows "\<not> is_ok (fst (demo_run D (linked D sha M fresh clock) uuid now cfg cl
    \<lparr>ln_server = srv, ln_counter = k, ln_handshakes = h\<rparr>))"
proof -
  let ?R = "linked D sha M fresh clock" and ?n = "\<lparr>ln_server = srv, ln_counter = k, ln_handshakes = h\<rparr>"
  have dead: "dead_sink M (ln_server ?n)"
    using assms by (auto simp: rpc_server_new_Ok dead_sink_def reg_count_def)
  obtain hr cl1 n1 where hs: "client_handshake D ?R (new_from_config uuid (cfg_agent cfg)) cl ?n = (hr, cl1, n1)"
    by (metis prod_cases3)
  show ?thesis
  proof (cases hr)
    case (Ok sid)
    have "dead_sink M (ln_server n1)"
      using client_handshake_link [OF hs [unfolded Ok]] dead_link_handshake [OF dead] by auto
    then have "fst (send_primitive ?R p cl1 n1) \<noteq> Ok True" for p by (rule dead_link_send)
    then have "\<not> is_ok (fst (demo_loop ?R now cfg sid (i # is) cl1 n1))" for i "is"
      by (rule demo_loop_first)
    moreover obtain i "is" where "[0 ..< 100] = i # is" by (metis neq_Nil_conv upt_conv_Cons zero_less_numeral)
    ultimately have "\<not> is_ok (fst (demo_loop ?R now cfg sid [0 ..< 100] cl1 n1))" by metis
    then show ?thesis by (auto simp: demo_run_def hs Ok split: outcome.splits prod.splits)
  qed (simp_all add: demo_run_def hs)
qed

theorem demo_fails_on_shipped_server_witness:
  "\<not> is_ok (fst (demo_run no_env (linked no_env id list_mpsc (\<lambda>_. ''s'') (\<lambda>_. None)) ''b'' (\<lambda>_. None)
     sample_config no_session \<lparr>ln_server = sample_server, ln_counter = 0, ln_handshakes = 0\<rparr>))"
proof (rule demo_fails_on_shipped_server [OF _ sample_server_new])
  show "chan_new list_mpsc n = Some ch \<Longrightarrow> chan_send list_mpsc t (chan_drop_rx list_mpsc ch) = None" for n ch t
    by (auto simp: list_mpsc_def split: if_splits)
qed

end
